theory Spec2Isabelle
  imports
    Complex_Main
    "HOL-Library.Char_ord"
    "HOL-Library.List_Lexorder"
    "HOL-Library.Product_Lexorder"
    "HOL-Library.Multiset"
    "HOL-Library.Sublist"
begin

section \<open>The sankey diagram builder of \<^verbatim>\<open>src/sankey.py\<close>\<close>

text \<open>
  The development embeds \<^verbatim>\<open>create_sankey_diagram\<close> and its local helper
  \<^verbatim>\<open>get_ordered_list\<close>. Python strings are \<^typ>\<open>string\<close> (byte lists, compared
  lexicographically by byte, which agrees with Python's code-point order on UTF-8 text).
  A pandas float is an exact rational here, an integer count is the rational with that value.
\<close>

subsection \<open>Module-level tables\<close>

definition FAMESWAP_LABELS :: "(string \<times> string) list" where
  "FAMESWAP_LABELS =
    [(''Tech & Science'', ''Technology''),
     (''Educational & QA'', ''Education''),
     (''Quotes & Sayings'', ''Quotes''),
     (''Pets & Animals'', ''Pets''),
     (''Food & Nutrition'', ''Food''),
     (''Outdoor & Travel'', ''Travel''),
     (''Art & Creativity'', ''Creativity''),
     (''Cars & Bikes'', ''Cars''),
     (''Crypto & NFT'', ''Crypto''),
     (''Beauty & Makeup'', ''Beauty''),
     (''Fitness & Sports'', ''Sports''),
     (''Reviews & How-to'', ''How-to''),
     (''Models & Celebrities'', ''Celebrities''),
     (''Humor & Memes'', ''Memes''),
     (''Luxury & Motivation'', ''Motivation''),
     (''Gaming & Entertainment'', ''Gaming''),
     (''Fashion & Style'', ''Fashion''),
     (''Movies TV & Fanpages'', ''Fanpages'')]"

definition TOPIC_LABELS :: "(string \<times> string) list" where
  "TOPIC_LABELS =
    [(''cryptocurrency_content'', ''Cryptocurrency''),
     (''financial_content'', ''Money''),
     (''gambling_content'', ''Gambling''),
     (''hateful_extremist_content'', ''Extremist''),
     (''manosphere_redpill_content'', ''Manosphere''),
     (''medical_health_content'', ''Medical''),
     (''news_content'', ''News''),
     (''political_content'', ''Political''),
     (''religious_content'', ''Religious''),
     (''unclassified'', ''Not at-risk'')]"

definition FAMESWAP_ORDER :: "string list" where
  "FAMESWAP_ORDER =
    [''Humor & Memes'', ''Gaming & Entertainment'', ''Tech & Science'', ''Educational & QA'',
     ''Reviews & How-to'', ''Models & Celebrities'', ''Luxury & Motivation'',
     ''Movies TV & Fanpages'', ''Fitness & Sports'', ''Fashion & Style'', ''Quotes & Sayings'',
     ''Crypto & NFT'', ''Food & Nutrition'', ''Art & Creativity'', ''Cars & Bikes'',
     ''Outdoor & Travel'', ''Pets & Animals'', ''Beauty & Makeup'']"

definition BROAD_CATEGORY_ORDER :: "string list" where
  "BROAD_CATEGORY_ORDER = [''Other'', ''Ideological'', ''Financial'']"

definition SPECIFIC_TOPIC_ORDER :: "string list" where
  "SPECIFIC_TOPIC_ORDER =
    [''Not at-risk'', ''Political'', ''News'', ''Religious'', ''Medical'', ''Manosphere'',
     ''Extremist'', ''Cryptocurrency'', ''Money'', ''Gambling'']"

subsection \<open>\<^verbatim>\<open>get_ordered_list\<close>\<close>

text \<open>
  \<^verbatim>\<open>Series.unique()\<close>: the distinct values in order of first appearance.
\<close>

definition unique :: "'a list \<Rightarrow> 'a list" where
  "unique xs = rev (remdups (rev xs))"

text \<open>
  The loop \<^verbatim>\<open>for item in order_list\<close> over the state \<^verbatim>\<open>(ordered, remaining)\<close>.
\<close>

fun ordered_loop :: "'a list \<Rightarrow> 'a list \<times> 'a set \<Rightarrow> 'a list \<times> 'a set" where
  "ordered_loop [] (ordered, remaining) = (ordered, remaining)"
| "ordered_loop (item # items) (ordered, remaining) =
     (if item \<in> remaining
      then ordered_loop items (ordered @ [item], remaining - {item})
      else ordered_loop items (ordered, remaining))"

definition get_ordered_list :: "'a::linorder list \<Rightarrow> 'a list \<Rightarrow> 'a list" where
  "get_ordered_list available_items order_list =
     (case ordered_loop order_list ([], set available_items) of
        (ordered, remaining) \<Rightarrow> ordered @ sorted_list_of_set remaining)"

subsection \<open>Errors, dictionaries and data frames\<close>

datatype py_error = KeyError string | ValueError string | ZeroDivisionError

text \<open>\<^verbatim>\<open>d[k]\<close> and \<^verbatim>\<open>d.get(k, default)\<close> on a dict literal kept as an association list.\<close>

definition dict_index :: "(string \<times> 'v) list \<Rightarrow> string \<Rightarrow> py_error + 'v" where
  "dict_index d k = (case map_of d k of None \<Rightarrow> Inl (KeyError k) | Some v \<Rightarrow> Inr v)"

definition dict_get :: "(string \<times> 'v) list \<Rightarrow> string \<Rightarrow> 'v \<Rightarrow> 'v" where
  "dict_get d k dflt = (case map_of d k of None \<Rightarrow> dflt | Some v \<Rightarrow> v)"

text \<open>
  One row of the input frame: the \<^verbatim>\<open>fameswap_category\<close> column and the numeric cell of
  every other column, by column name. The topic columns of the data hold 0 or 1; the type
  admits every rational, as a float column does. Two properties of the frame are fixed by
  this type, and frames without them are outside the model:

    \<^item> the category is a plain string, never missing, in a column of dtype object, so that
      \<^verbatim>\<open>groupby\<close> yields the keys that occur; a column of dtype category is not modelled
      (up to pandas 2 its \<^verbatim>\<open>groupby\<close>, called with no \<^verbatim>\<open>observed=\<close> argument as in the source,
      also yields the categories that do not occur, with sum or size 0);

    \<^item> the topic columns can hold a fraction. The proportional branch writes
      \<^verbatim>\<open>1.0 / topic_sums\<close> into them; on a column of dtype int64 or bool that assignment
      is an upcast up to pandas 2 and a \<^verbatim>\<open>TypeError\<close> from pandas 3 on, which \<open>py_error\<close>
      does not contain.
\<close>

record entity_row =
  fameswap_category :: string
  cell :: "string \<Rightarrow> rat"

type_synonym dataframe = "entity_row list"

text \<open>
  \<^verbatim>\<open>groupby(key)[col].sum()\<close> and \<^verbatim>\<open>groupby(key).size()\<close> followed by \<^verbatim>\<open>reset_index()\<close>,
  on key columns of dtype object: one row per key that occurs, keys ascending. (On a key
  column of dtype category, pandas up to version 2 adds a row of value 0 for every category
  that does not occur; these functions do not describe that case.)
\<close>

definition groupby_sum :: "('r \<Rightarrow> 'k::linorder) \<Rightarrow> ('r \<Rightarrow> rat) \<Rightarrow> 'r list \<Rightarrow> ('k \<times> rat) list" where
  "groupby_sum key val rows =
     map (\<lambda>k. (k, sum_list (map val (filter (\<lambda>r. key r = k) rows))))
       (sorted_list_of_set (set (map key rows)))"

definition groupby_size :: "('r \<Rightarrow> 'k::linorder) \<Rightarrow> 'r list \<Rightarrow> ('k \<times> rat) list" where
  "groupby_size key rows =
     map (\<lambda>k. (k, of_nat (length (filter (\<lambda>r. key r = k) rows))))
       (sorted_list_of_set (set (map key rows)))"

subsection \<open>\<^verbatim>\<open>hex_to_rgba\<close>\<close>

definition hex_digit :: "char \<Rightarrow> nat option" where
  "hex_digit c =
     (let n = (of_char c :: nat) in
      if 48 \<le> n \<and> n \<le> 57 then Some (n - 48)
      else if 97 \<le> n \<and> n \<le> 102 then Some (n - 87)
      else if 65 \<le> n \<and> n \<le> 70 then Some (n - 55)
      else None)"

text \<open>
  \<^verbatim>\<open>int(s, 16)\<close> on a slice of at most two characters. Only plain hexadecimal digits are
  read; every other slice is a \<^verbatim>\<open>ValueError\<close> here (Python also reads a sign or blanks,
  which no color of the tables contains).
\<close>

definition int16 :: "string \<Rightarrow> py_error + nat" where
  "int16 s =
     (case s of
        [a] \<Rightarrow> (case hex_digit a of Some u \<Rightarrow> Inr u | None \<Rightarrow> Inl (ValueError s))
      | [a, b] \<Rightarrow>
          (case (hex_digit a, hex_digit b) of
             (Some u, Some v) \<Rightarrow> Inr (16 * u + v)
           | _ \<Rightarrow> Inl (ValueError s))
      | _ \<Rightarrow> Inl (ValueError s))"

text \<open>The decimal digits of a natural number, as an f-string prints it.\<close>

fun str_nat :: "nat \<Rightarrow> string" where
  "str_nat n =
     (if n < 10 then [char_of (48 + n)]
      else str_nat (n div 10) @ [char_of (48 + n mod 10)])"

declare str_nat.simps [simp del]

text \<open>The parameter \<open>alpha\<close> is the text an f-string prints for the float, \<^verbatim>\<open>0.6\<close> at both calls.\<close>

definition hex_to_rgba :: "string \<Rightarrow> string \<Rightarrow> py_error + string" where
  "hex_to_rgba hex_color alpha =
     (let h = dropWhile (\<lambda>c. c = CHR ''#'') hex_color in
      case int16 (take 2 h) of Inl e \<Rightarrow> Inl e | Inr r \<Rightarrow>
      case int16 (take 2 (drop 2 h)) of Inl e \<Rightarrow> Inl e | Inr g \<Rightarrow>
      case int16 (take 2 (drop 4 h)) of Inl e \<Rightarrow> Inl e | Inr b \<Rightarrow>
        Inr (''rgba('' @ str_nat r @ '', '' @ str_nat g @ '', '' @ str_nat b @ '', ''
               @ alpha @ '')''))"

subsection \<open>Tables local to \<^verbatim>\<open>create_sankey_diagram\<close>\<close>

definition topic_columns :: "string list" where
  "topic_columns =
    [''cryptocurrency_content'', ''financial_content'', ''gambling_content'',
     ''hateful_extremist_content'',
     ''manosphere_redpill_content'', ''medical_health_content'', ''news_content'',
     ''political_content'',
     ''religious_content'',
     ''unclassified'']"

definition broad_categories :: "(string \<times> string list) list" where
  "broad_categories =
    [(''Ideological'', [''Political'', ''Religious'', ''News'', ''Medical'', ''Manosphere'', ''Extremist'']),
     (''Financial'', [''Cryptocurrency'', ''Money'', ''Gambling'']),
     (''Other'', [''Not at-risk''])]"

definition broad_colors :: "(string \<times> string) list" where
  "broad_colors =
    [(''Ideological'', ''#FF6B6B''),
     (''Financial'', ''#4ECDC4''),
     (''Other'', ''#BDC3C7'')]"

definition topic_colors :: "(string \<times> string) list" where
  "topic_colors =
    [(''Cryptocurrency'', ''#45B7D1''),
     (''Money'', ''#85C1E9''),
     (''Gambling'', ''#5DADE2''),
     (''Extremist'', ''#F8C471''),
     (''Manosphere'', ''#BB8FCE''),
     (''Medical'', ''#F7DC6F''),
     (''News'', ''#D7BDE2''),
     (''Political'', ''#EC7063''),
     (''Religious'', ''#F9E79F''),
     (''Not at-risk'', ''#BDC3C7'')]"

definition invisible_nodes :: "string set" where
  "invisible_nodes = {''Other'', ''Not at-risk''}"

definition specific_y_positions :: "(string \<times> rat) list" where
  "specific_y_positions =
    [(''Political'', 1 / 10),
     (''News'', 2 / 10),
     (''Religious'', 3 / 10),
     (''Medical'', 4 / 10),
     (''Manosphere'', 45 / 100),
     (''Extremist'', 5 / 10),
     (''Cryptocurrency'', 6 / 10),
     (''Money'', 68 / 100),
     (''Gambling'', 75 / 100),
     (''Not at-risk'', 1 / 10000)]"

subsection \<open>Flow aggregation\<close>

text \<open>A row of a per-topic flow frame: columns \<^verbatim>\<open>fameswap_category\<close>, \<^verbatim>\<open>count\<close>, \<^verbatim>\<open>specific_topic\<close>.\<close>

record topic_flow =
  flow_category :: string
  flow_count :: rat
  specific_topic :: string

text \<open>A row of \<^verbatim>\<open>all_flows\<close>: the column \<^verbatim>\<open>broad_category\<close> is added; \<open>None\<close> is NaN.\<close>

record flow = topic_flow +
  broad_category :: "string option"

text \<open>
  The grouped frame with its columns named \<^verbatim>\<open>fameswap_category\<close> and \<^verbatim>\<open>count\<close> and the
  column \<^verbatim>\<open>specific_topic\<close> set to the label of the topic.
\<close>

definition mk_flows :: "string \<Rightarrow> (string \<times> rat) list \<Rightarrow> topic_flow list" where
  "mk_flows lab grouped =
     map (\<lambda>(k, v). \<lparr>flow_category = k, flow_count = v, specific_topic = lab\<rparr>) grouped"

text \<open>
  Proportional mode. \<^verbatim>\<open>topic_sums\<close> is computed once, before the column loop; the loop
  over \<^verbatim>\<open>topic_columns\<close> rewrites one cell of the row per column. Each assignment of the
  source works row by row, so the model runs the column loop on every row. The two
  \<^verbatim>\<open>.loc\<close> assignments are modelled for columns that can hold the fraction written (see
  \<open>entity_row\<close>); the \<^verbatim>\<open>TypeError\<close> of pandas 3 on an int64 or bool column is not a branch
  of \<open>normalize_row\<close>.
\<close>

definition topic_sums :: "entity_row \<Rightarrow> rat" where
  "topic_sums r = sum_list (map (cell r) topic_columns)"

fun normalize_row :: "string list \<Rightarrow> rat \<Rightarrow> entity_row \<Rightarrow> entity_row" where
  "normalize_row [] s r = r"
| "normalize_row (topic_col # cols) s r =
     normalize_row cols s
       (r\<lparr>cell := (cell r)(topic_col := (if cell r topic_col = 1 \<and> s > 0 then 1 / s else 0))\<rparr>)"

definition df_normalized :: "dataframe \<Rightarrow> dataframe" where
  "df_normalized df_filtered = map (\<lambda>r. normalize_row topic_columns (topic_sums r) r) df_filtered"

fun proportional_flows ::
  "string list \<Rightarrow> dataframe \<Rightarrow> topic_flow list list \<Rightarrow> py_error + topic_flow list list" where
  "proportional_flows [] dfn topic_flows = Inr topic_flows"
| "proportional_flows (topic_col # cols) dfn topic_flows =
     (let topic_channels = filter (\<lambda>r. cell r topic_col > 0) dfn in
      if length topic_channels > 0 then
        (case dict_index TOPIC_LABELS topic_col of
           Inl e \<Rightarrow> Inl e
         | Inr lab \<Rightarrow>
             proportional_flows cols dfn
               (topic_flows @
                [mk_flows lab
                   (groupby_sum fameswap_category (\<lambda>r. cell r topic_col) topic_channels)]))
      else proportional_flows cols dfn topic_flows)"

fun binary_flows ::
  "string list \<Rightarrow> dataframe \<Rightarrow> topic_flow list list \<Rightarrow> py_error + topic_flow list list" where
  "binary_flows [] dff topic_flows = Inr topic_flows"
| "binary_flows (topic_col # cols) dff topic_flows =
     (let topic_channels = filter (\<lambda>r. cell r topic_col = 1) dff in
      if length topic_channels > 0 then
        (case dict_index TOPIC_LABELS topic_col of
           Inl e \<Rightarrow> Inl e
         | Inr lab \<Rightarrow>
             binary_flows cols dff
               (topic_flows @
                [mk_flows lab (groupby_size fameswap_category topic_channels)]))
      else binary_flows cols dff topic_flows)"

text \<open>The dict \<^verbatim>\<open>topic_to_broad\<close>, filled by the nested loop over \<^verbatim>\<open>broad_categories\<close>.\<close>

fun topic_to_broad_loop :: "(string \<times> string list) list \<Rightarrow> (string \<rightharpoonup> string) \<Rightarrow> (string \<rightharpoonup> string)" where
  "topic_to_broad_loop [] m = m"
| "topic_to_broad_loop ((broad_cat, topics) # rest) m =
     topic_to_broad_loop rest (fold (\<lambda>topic m'. m'(topic \<mapsto> broad_cat)) topics m)"

definition topic_to_broad :: "string \<rightharpoonup> string" where
  "topic_to_broad = topic_to_broad_loop broad_categories Map.empty"

definition add_broad_category :: "topic_flow list \<Rightarrow> flow list" where
  "add_broad_category fs =
     map (\<lambda>f. \<lparr>flow_category = flow_category f, flow_count = flow_count f,
               specific_topic = specific_topic f,
               broad_category = topic_to_broad (specific_topic f)\<rparr>) fs"

text \<open>Both \<^verbatim>\<open>groupby\<close> calls on \<^verbatim>\<open>all_flows\<close> drop the rows whose key is NaN.\<close>

definition dropna :: "flow list \<Rightarrow> flow list" where
  "dropna fs = filter (\<lambda>f. broad_category f \<noteq> None) fs"

definition broad_flows_of :: "flow list \<Rightarrow> ((string \<times> string) \<times> rat) list" where
  "broad_flows_of all_flows =
     groupby_sum (\<lambda>f. (flow_category f, the (broad_category f))) flow_count (dropna all_flows)"

definition specific_flows_of :: "flow list \<Rightarrow> ((string \<times> string) \<times> rat) list" where
  "specific_flows_of all_flows =
     groupby_sum (\<lambda>f. (the (broad_category f), specific_topic f)) flow_count (dropna all_flows)"

subsection \<open>Nodes, node indices and links\<close>

record node =
  node_label :: string
  node_color :: string
  node_x :: rat
  node_y :: rat

record link =
  link_source :: nat
  link_target :: nat
  link_value :: rat
  link_color :: string

text \<open>
  The four lists \<^verbatim>\<open>all_labels\<close>, \<^verbatim>\<open>all_colors\<close>, \<^verbatim>\<open>all_x_positions\<close>, \<^verbatim>\<open>all_y_positions\<close>
  grow by one element each in every branch, so they are kept as one list of \<^typ>\<open>node\<close>;
  likewise \<^verbatim>\<open>source\<close>, \<^verbatim>\<open>target\<close>, \<^verbatim>\<open>value\<close>, \<^verbatim>\<open>link_colors\<close> as one list of \<^typ>\<open>link\<close>.
  Position \<open>i\<close> of the record list is position \<open>i\<close> of each of the four lists.
\<close>

definition fameswap_nodes :: "string list \<Rightarrow> py_error + node list" where
  "fameswap_nodes fameswap_categories =
     (if length fameswap_categories = 0 then Inl ZeroDivisionError
      else
        (let fameswap_spacing = (9 / 10) / of_nat (length fameswap_categories) in
         Inr (map (\<lambda>(i, cat).
                \<lparr>node_label = dict_get FAMESWAP_LABELS cat cat,
                 node_color = ''#A1B2B9'',
                 node_x = 1 / 100,
                 node_y = 5 / 100 + of_nat i * fameswap_spacing\<rparr>)
              (enumerate 0 fameswap_categories))))"

text \<open>The counter \<^verbatim>\<open>visible_idx\<close> of the source is never read and is left out.\<close>

definition broad_nodes :: "string list \<Rightarrow> node list" where
  "broad_nodes broad_category_list =
     map (\<lambda>cat.
       if cat \<in> invisible_nodes then
         \<lparr>node_label = '''', node_color = ''rgba(0,0,0,0)'', node_x = 3 / 10, node_y = 1 / 1000\<rparr>
       else
         \<lparr>node_label = '''', node_color = dict_get broad_colors cat ''#BDC3C7'', node_x = 5 / 10,
          node_y = (if cat \<in> set [''Ideological''] then 3 / 10 else 7 / 10)\<rparr>)
     broad_category_list"

definition specific_nodes :: "string list \<Rightarrow> node list" where
  "specific_nodes specific_topics =
     map (\<lambda>cat.
       if cat \<in> invisible_nodes then
         \<lparr>node_label = '''', node_color = ''rgba(0,0,0,0)'', node_x = 2, node_y = 1 / 10000\<rparr>
       else
         \<lparr>node_label = cat, node_color = dict_get topic_colors cat ''#BDC3C7'', node_x = 8 / 10,
          node_y = dict_get specific_y_positions cat (5 / 10)\<rparr>)
     specific_topics"

text \<open>The three loops that fill \<^verbatim>\<open>node_mapping\<close>, over the state \<^verbatim>\<open>(node_mapping, idx)\<close>.\<close>

fun assign_indices :: "string list \<Rightarrow> (string \<rightharpoonup> nat) \<times> nat \<Rightarrow> (string \<rightharpoonup> nat) \<times> nat" where
  "assign_indices [] (m, idx) = (m, idx)"
| "assign_indices (cat # cats) (m, idx) = assign_indices cats (m(cat \<mapsto> idx), idx + 1)"

definition node_mapping_of :: "string list \<Rightarrow> string list \<Rightarrow> string list \<Rightarrow> (string \<rightharpoonup> nat)" where
  "node_mapping_of fameswap_categories broad_category_list specific_topics =
     fst (assign_indices specific_topics
           (assign_indices broad_category_list
             (assign_indices fameswap_categories (Map.empty, 0))))"

text \<open>
  The code of a value in \<^verbatim>\<open>pd.Categorical(values, categories, ordered=True)\<close>: its position
  in \<open>categories\<close>; a value outside \<open>categories\<close> is NaN, which \<^verbatim>\<open>sort_values\<close> puts last.
\<close>

definition cat_code :: "string list \<Rightarrow> string \<Rightarrow> nat" where
  "cat_code categories v = length (takeWhile (\<lambda>c. c \<noteq> v) categories)"

definition sort_flows :: "string list \<Rightarrow> string list \<Rightarrow> ((string \<times> string) \<times> rat) list \<Rightarrow> ((string \<times> string) \<times> rat) list" where
  "sort_flows source_categories target_categories flows =
     sort_key (\<lambda>((s, t), n). (cat_code source_categories s, cat_code target_categories t)) flows"

definition lookup_node :: "(string \<rightharpoonup> nat) \<Rightarrow> string \<Rightarrow> py_error + nat" where
  "lookup_node node_mapping k = (case node_mapping k of None \<Rightarrow> Inl (KeyError k) | Some i \<Rightarrow> Inr i)"

fun broad_links :: "(string \<rightharpoonup> nat) \<Rightarrow> ((string \<times> string) \<times> rat) list \<Rightarrow> py_error + link list" where
  "broad_links node_mapping [] = Inr []"
| "broad_links node_mapping (((fameswap_cat, broad_cat), cnt) # rows) =
     (case lookup_node node_mapping fameswap_cat of Inl e \<Rightarrow> Inl e | Inr s \<Rightarrow>
      case lookup_node node_mapping broad_cat of Inl e \<Rightarrow> Inl e | Inr t \<Rightarrow>
      case (if broad_cat \<in> invisible_nodes then Inr ''rgba(0,0,0,0)''
            else hex_to_rgba (dict_get broad_colors broad_cat ''#BDC3C7'') ''0.6'') of
        Inl e \<Rightarrow> Inl e
      | Inr c \<Rightarrow>
      case broad_links node_mapping rows of Inl e \<Rightarrow> Inl e | Inr ls \<Rightarrow>
        Inr (\<lparr>link_source = s, link_target = t, link_value = cnt, link_color = c\<rparr> # ls))"

fun specific_links :: "(string \<rightharpoonup> nat) \<Rightarrow> ((string \<times> string) \<times> rat) list \<Rightarrow> py_error + link list" where
  "specific_links node_mapping [] = Inr []"
| "specific_links node_mapping (((broad_cat, topic), cnt) # rows) =
     (case lookup_node node_mapping broad_cat of Inl e \<Rightarrow> Inl e | Inr s \<Rightarrow>
      case lookup_node node_mapping topic of Inl e \<Rightarrow> Inl e | Inr t \<Rightarrow>
      case (if topic \<in> invisible_nodes \<or> broad_cat \<in> invisible_nodes then Inr ''rgba(0,0,0,0)''
            else hex_to_rgba (dict_get topic_colors topic ''#BDC3C7'') ''0.6'') of
        Inl e \<Rightarrow> Inl e
      | Inr c \<Rightarrow>
      case specific_links node_mapping rows of Inl e \<Rightarrow> Inl e | Inr ls \<Rightarrow>
        Inr (\<lparr>link_source = s, link_target = t, link_value = cnt, link_color = c\<rparr> # ls))"

subsection \<open>\<^verbatim>\<open>create_sankey_diagram\<close>\<close>

text \<open>
  The model returns the local variables of the function at \<^verbatim>\<open>return fig\<close>. The figure
  handed to plotly is made of \<open>nodes\<close> (labels, colors, x and y positions) and \<open>links\<close>
  (sources, targets, values, colors); the other fields are the intermediate frames and
  lists the figure was built from. The links of the first loop (primary category to broad
  category) come first in \<open>links\<close>, one per row of \<open>broad_flows\<close>; those of the second loop
  (broad category to specific topic) follow.
\<close>

record sankey =
  df_filtered :: dataframe
  all_flows :: "flow list"
  broad_flows :: "((string \<times> string) \<times> rat) list"
  specific_flows :: "((string \<times> string) \<times> rat) list"
  fameswap_categories :: "string list"
  broad_category_list :: "string list"
  specific_topics :: "string list"
  nodes :: "node list"
  node_mapping :: "string \<rightharpoonup> nat"
  links :: "link list"

text \<open>
  The body of the function in four parts: the filter of line 132 (\<open>filter_beauty\<close>), the
  mode switch with its two topic loops (\<open>build_topic_flows\<close>), everything after the guard
  \<^verbatim>\<open>if not topic_flows\<close> (\<open>build_figure\<close>, with the two link loops in \<open>build_links\<close>), and
  the function itself. Inside \<open>build_figure\<close> the local variables \<^verbatim>\<open>broad_flows\<close>,
  \<^verbatim>\<open>specific_flows\<close>, \<^verbatim>\<open>fameswap_categories\<close>, \<^verbatim>\<open>broad_category_list\<close>, \<^verbatim>\<open>specific_topics\<close> and
  \<^verbatim>\<open>node_mapping\<close> are written \<open>bf\<close>, \<open>sf\<close>, \<open>fc\<close>, \<open>bl\<close>, \<open>st\<close> and \<open>nm\<close>; the fields of the
  result carry the names of the source. An exception of the source is a result \<open>Inl\<close>.
\<close>

definition filter_beauty :: "dataframe \<Rightarrow> dataframe" where
  "filter_beauty df = filter (\<lambda>r. fameswap_category r \<noteq> ''Beauty & Makeup'') df"

definition build_topic_flows :: "dataframe \<Rightarrow> bool \<Rightarrow> py_error + topic_flow list list" where
  "build_topic_flows dff proportional =
     (if proportional then proportional_flows topic_columns (df_normalized dff) []
      else binary_flows topic_columns dff [])"

definition build_links ::
  "(string \<rightharpoonup> nat) \<Rightarrow> ((string \<times> string) \<times> rat) list \<Rightarrow> ((string \<times> string) \<times> rat) list
     \<Rightarrow> py_error + link list" where
  "build_links nm broad_flows_sorted specific_flows_sorted =
     (case broad_links nm broad_flows_sorted of Inl e \<Rightarrow> Inl e | Inr ls1 \<Rightarrow>
      case specific_links nm specific_flows_sorted of Inl e \<Rightarrow> Inl e | Inr ls2 \<Rightarrow>
        Inr (ls1 @ ls2))"

definition build_figure :: "dataframe \<Rightarrow> dataframe \<Rightarrow> flow list \<Rightarrow> py_error + sankey" where
  "build_figure df dff flows =
     (let bf = broad_flows_of flows;
          sf = specific_flows_of flows;
          fc = filter (\<lambda>cat. cat \<noteq> ''Beauty & Makeup'')
                 (get_ordered_list (unique (map fameswap_category df)) FAMESWAP_ORDER);
          bl = get_ordered_list (unique (map (\<lambda>((s, t), n). t) bf)) BROAD_CATEGORY_ORDER;
          st = get_ordered_list (unique (map (\<lambda>((s, t), n). t) sf)) SPECIFIC_TOPIC_ORDER;
          nm = node_mapping_of fc bl st
      in case fameswap_nodes fc of Inl e \<Rightarrow> Inl e | Inr ns1 \<Rightarrow>
         case build_links nm (sort_flows fc bl bf) (sort_flows bl st sf) of
           Inl e \<Rightarrow> Inl e
         | Inr ls \<Rightarrow>
             Inr \<lparr>df_filtered = dff, all_flows = flows, broad_flows = bf, specific_flows = sf,
                  fameswap_categories = fc, broad_category_list = bl, specific_topics = st,
                  nodes = ns1 @ broad_nodes bl @ specific_nodes st,
                  node_mapping = nm, links = ls\<rparr>)"

definition create_sankey_diagram :: "dataframe \<Rightarrow> bool \<Rightarrow> py_error + sankey option" where
  "create_sankey_diagram df proportional =
     (case build_topic_flows (filter_beauty df) proportional of
        Inl e \<Rightarrow> Inl e
      | Inr topic_flows \<Rightarrow>
          if topic_flows = [] then Inr None
          else
            (case build_figure df (filter_beauty df) (add_broad_category (concat topic_flows)) of
               Inl e \<Rightarrow> Inl e
             | Inr fig \<Rightarrow> Inr (Some fig)))"

subsection \<open>Levels and visibility of nodes\<close>

text \<open>
  Node \<open>i\<close> of a figure was appended for the \<open>i\<close>-th label of the three ordered lists in
  a row: by the first loop (level 1) for a primary category, by the second (level 2) for
  a broad category, by the third (level 3) for a specific topic. It is invisible when the
  second or third loop took its branch \<^verbatim>\<open>cat in invisible_nodes\<close>.
\<close>

definition node_category :: "sankey \<Rightarrow> nat \<Rightarrow> string" where
  "node_category fig i =
     (fameswap_categories fig @ broad_category_list fig @ specific_topics fig) ! i"

definition node_level :: "sankey \<Rightarrow> nat \<Rightarrow> nat" where
  "node_level fig i =
     (if i < length (fameswap_categories fig) then 1
      else if i < length (fameswap_categories fig) + length (broad_category_list fig) then 2
      else 3)"

definition invisible_node :: "sankey \<Rightarrow> nat \<Rightarrow> bool" where
  "invisible_node fig i \<longleftrightarrow>
     length (fameswap_categories fig) \<le> i \<and> i < length (nodes fig)
     \<and> node_category fig i \<in> invisible_nodes"

subsection \<open>Weights read off a run\<close>

text \<open>
  The weight of the flow from a primary category to a specific topic in a run: the sum of
  \<^verbatim>\<open>count\<close> over the rows of \<^verbatim>\<open>all_flows\<close> with that \<^verbatim>\<open>fameswap_category\<close> and that
  \<^verbatim>\<open>specific_topic\<close>; it is 0 when the run returns no figure.
\<close>

definition flow_weight :: "py_error + sankey option \<Rightarrow> string \<Rightarrow> string \<Rightarrow> rat" where
  "flow_weight res cat topic =
     (case res of
        Inr (Some fig) \<Rightarrow>
          sum_list (map flow_count
            (filter (\<lambda>f. flow_category f = cat \<and> specific_topic f = topic) (all_flows fig)))
      | _ \<Rightarrow> 0)"

text \<open>
  The total value of the links of the second loop of a run, those from a broad category
  to a specific topic; it is 0 when the run returns no figure.
\<close>

definition specific_link_weight :: "py_error + sankey option \<Rightarrow> rat" where
  "specific_link_weight res =
     (case res of
        Inr (Some fig) \<Rightarrow> sum_list (map link_value (drop (length (broad_flows fig)) (links fig)))
      | _ \<Rightarrow> 0)"

subsection \<open>Closed forms used in the proofs\<close>

text \<open>
  The frame one pass of the topic loop appends for a column (empty when the loop appends
  nothing), in binary and in proportional mode.
\<close>

definition binary_col :: "dataframe \<Rightarrow> string \<Rightarrow> topic_flow list" where
  "binary_col dff c =
     mk_flows (dict_get TOPIC_LABELS c [])
       (groupby_size fameswap_category (filter (\<lambda>r. cell r c = 1) dff))"

definition proportional_col :: "dataframe \<Rightarrow> string \<Rightarrow> topic_flow list" where
  "proportional_col dfn c =
     mk_flows (dict_get TOPIC_LABELS c [])
       (groupby_sum fameswap_category (\<lambda>r. cell r c) (filter (\<lambda>r. cell r c > 0) dfn))"

definition col_flows :: "bool \<Rightarrow> dataframe \<Rightarrow> string \<Rightarrow> topic_flow list" where
  "col_flows proportional dff c =
     (if proportional then proportional_col (df_normalized dff) c else binary_col dff c)"

text \<open>What a link records of the row it was made from.\<close>

definition broad_link_of :: "(string \<rightharpoonup> nat) \<Rightarrow> (string \<times> string) \<times> rat \<Rightarrow> link \<Rightarrow> bool" where
  "broad_link_of nm row l \<longleftrightarrow>
     nm (fst (fst row)) = Some (link_source l) \<and> nm (snd (fst row)) = Some (link_target l)
     \<and> link_value l = snd row
     \<and> (snd (fst row) \<in> invisible_nodes \<longrightarrow> link_color l = ''rgba(0,0,0,0)'')
     \<and> (snd (fst row) \<notin> invisible_nodes \<longrightarrow>
          hex_to_rgba (dict_get broad_colors (snd (fst row)) ''#BDC3C7'') ''0.6'' = Inr (link_color l))"

definition specific_link_of :: "(string \<rightharpoonup> nat) \<Rightarrow> (string \<times> string) \<times> rat \<Rightarrow> link \<Rightarrow> bool" where
  "specific_link_of nm row l \<longleftrightarrow>
     nm (fst (fst row)) = Some (link_source l) \<and> nm (snd (fst row)) = Some (link_target l)
     \<and> link_value l = snd row
     \<and> (snd (fst row) \<in> invisible_nodes \<or> fst (fst row) \<in> invisible_nodes \<longrightarrow>
          link_color l = ''rgba(0,0,0,0)'')
     \<and> (\<not> (snd (fst row) \<in> invisible_nodes \<or> fst (fst row) \<in> invisible_nodes) \<longrightarrow>
          hex_to_rgba (dict_get topic_colors (snd (fst row)) ''#BDC3C7'') ''0.6'' = Inr (link_color l))"

text \<open>The frame \<^verbatim>\<open>all_flows\<close> as a function of the filtered frame and the mode.\<close>

definition flow_rows :: "bool \<Rightarrow> dataframe \<Rightarrow> flow list" where
  "flow_rows proportional dff =
     add_broad_category (concat (map (col_flows proportional dff) topic_columns))"

subsection \<open>Example frames\<close>

text \<open>A row whose listed columns are 1 and whose other columns are 0.\<close>

definition mk_row :: "string \<Rightarrow> string list \<Rightarrow> entity_row" where
  "mk_row cat active = \<lparr>fameswap_category = cat, cell = (\<lambda>c. if c \<in> set active then 1 else 0)\<rparr>"

text \<open>
  Three primary categories, one of them excluded; a row with two active topics, and a
  row whose only active column is \<^verbatim>\<open>unclassified\<close>.
\<close>

definition example_frame :: dataframe where
  "example_frame =
     [mk_row ''Humor & Memes'' [''political_content'', ''news_content''],
      mk_row ''Humor & Memes'' [''cryptocurrency_content''],
      mk_row ''Gaming & Entertainment'' [''unclassified''],
      mk_row ''Beauty & Makeup'' [''political_content'']]"

text \<open>A frame whose primary category \<^verbatim>\<open>Other\<close> is also the label of a broad category.\<close>

definition collision_frame :: dataframe where
  "collision_frame =
     [mk_row ''Other'' [''political_content''],
      mk_row ''Humor & Memes'' [''unclassified'']]"

text \<open>
  Three rows of one primary category: two of them with the same two active topics, one
  with no explicit topic (its \<^verbatim>\<open>unclassified\<close> column is 1).
\<close>

definition scenario_frame :: dataframe where
  "scenario_frame =
     [mk_row ''Humor & Memes'' [''political_content'', ''financial_content''],
      mk_row ''Humor & Memes'' [''political_content'', ''financial_content''],
      mk_row ''Humor & Memes'' [''unclassified'']]"

subsection \<open>Properties of \<^verbatim>\<open>get_ordered_list\<close>\<close>

lemma unique_Nil: "unique [] = []"
  by (simp add: unique_def)

lemma remdups_snoc: "remdups (xs @ [c]) = removeAll c (remdups xs) @ [c]"
  by (induction xs) auto

lemma rev_removeAll_eq: "rev (removeAll c xs) = removeAll c (rev xs)"
  by (simp add: removeAll_filter_not_eq rev_filter)

lemma filter_removeAll_eq: "filter P (removeAll c ys) = filter (\<lambda>x. P x \<and> x \<noteq> c) ys"
  by (induction ys) auto

lemma unique_Cons: "unique (c # cs) = c # removeAll c (unique cs)"
  by (simp add: unique_def remdups_snoc rev_removeAll_eq)

lemma set_unique: "set (unique xs) = set xs"
  by (simp add: unique_def)

lemma distinct_unique: "distinct (unique xs)"
  by (simp add: unique_def)

lemma unique_distinct: "distinct xs \<Longrightarrow> unique xs = xs"
  by (simp add: unique_def distinct_remdups_id)

lemma subseq_unique: "subseq (unique xs) xs"
proof (induction xs)
  case Nil
  show ?case by (simp add: unique_Nil)
next
  case (Cons c cs)
  have "subseq (removeAll c (unique cs)) (unique cs)"
    by (simp add: removeAll_filter_not_eq)
  with Cons have "subseq (removeAll c (unique cs)) cs"
    using subseq_order.order_trans by blast
  then show ?case by (simp add: unique_Cons)
qed

lemma ordered_loop_fst:
  "fst (ordered_loop cs (ord, rem)) = ord @ filter (\<lambda>x. x \<in> rem) (unique cs)"
proof (induction cs arbitrary: ord rem)
  case Nil
  show ?case by (simp add: unique_Nil)
next
  case (Cons c cs)
  show ?case
  proof (cases "c \<in> rem")
    case True
    have "filter (\<lambda>x. x \<in> rem - {c}) (unique cs) = filter (\<lambda>x. x \<in> rem) (removeAll c (unique cs))"
      by (simp add: filter_removeAll_eq)
    with True Cons show ?thesis by (simp add: unique_Cons)
  next
    case False
    have "filter (\<lambda>x. x \<in> rem) (removeAll c (unique cs)) = filter (\<lambda>x. x \<in> rem) (unique cs)"
      using False by (auto simp: filter_removeAll_eq intro: filter_cong)
    with False Cons show ?thesis by (simp add: unique_Cons)
  qed
qed

lemma ordered_loop_snd: "snd (ordered_loop cs (ord, rem)) = rem - set cs"
  by (induction cs arbitrary: ord rem) auto

lemma get_ordered_list_eq:
  "get_ordered_list xs cs =
     filter (\<lambda>x. x \<in> set xs) (unique cs) @ sorted_list_of_set (set xs - set cs)"
proof -
  obtain ord rem where loop: "ordered_loop cs ([], set xs) = (ord, rem)"
    by (cases "ordered_loop cs ([], set xs)")
  have "ord = filter (\<lambda>x. x \<in> set xs) (unique cs)"
    using ordered_loop_fst [of cs "[]" "set xs"] loop by simp
  moreover have "rem = set xs - set cs"
    using ordered_loop_snd [of cs "[]" "set xs"] loop by simp
  ultimately show ?thesis by (simp add: get_ordered_list_def loop)
qed

lemma set_get_ordered_list: "set (get_ordered_list xs cs) = set xs"
  by (auto simp: get_ordered_list_eq set_unique)

lemma distinct_get_ordered_list: "distinct (get_ordered_list xs cs)"
  by (auto simp: get_ordered_list_eq distinct_unique set_unique)

text \<open>
  C4. For every list of observed labels (whose set is S) and every canonical list,
  \<^verbatim>\<open>get_ordered_list\<close> returns a duplicate-free list whose elements are exactly S
  (a permutation of S). It consists of the labels of S that occur in the canonical list,
  in the order of their first occurrence there (a subsequence of the canonical list),
  followed by the remaining labels of S in ascending lexicographic order. Two
  enumerations of the same set give the same result.
\<close>

theorem get_ordered_list_order_law:
  fixes xs ys cs :: "string list"
  shows "distinct (get_ordered_list xs cs)
       \<and> set (get_ordered_list xs cs) = set xs
       \<and> mset (get_ordered_list xs cs) = mset_set (set xs)
       \<and> get_ordered_list xs cs =
           filter (\<lambda>x. x \<in> set xs) (unique cs) @ sorted_list_of_set (set xs - set cs)
       \<and> subseq (filter (\<lambda>x. x \<in> set xs) (unique cs)) cs
       \<and> set (filter (\<lambda>x. x \<in> set xs) (unique cs)) = set xs \<inter> set cs
       \<and> sorted (sorted_list_of_set (set xs - set cs))
       \<and> set (sorted_list_of_set (set xs - set cs)) = set xs - set cs
       \<and> (distinct cs \<longrightarrow> get_ordered_list xs cs =
             filter (\<lambda>x. x \<in> set xs) cs @ sorted_list_of_set (set xs - set cs))
       \<and> (set xs = set ys \<longrightarrow> get_ordered_list xs cs = get_ordered_list ys cs)"
proof -
  have perm: "mset (get_ordered_list xs cs) = mset_set (set xs)"
    using distinct_get_ordered_list [of xs cs] set_get_ordered_list [of xs cs]
    by (metis mset_set_set)
  have sub: "subseq (filter (\<lambda>x. x \<in> set xs) (unique cs)) cs"
    using subseq_filter_left [of "\<lambda>x. x \<in> set xs" "unique cs"] subseq_unique [of cs]
      subseq_order.order_trans by blast
  have canon: "set (filter (\<lambda>x. x \<in> set xs) (unique cs)) = set xs \<inter> set cs"
    by (auto simp: set_unique)
  have same: "set xs = set ys \<longrightarrow> get_ordered_list xs cs = get_ordered_list ys cs"
    by (simp add: get_ordered_list_eq)
  have dist: "distinct cs \<longrightarrow> get_ordered_list xs cs =
      filter (\<lambda>x. x \<in> set xs) cs @ sorted_list_of_set (set xs - set cs)"
    by (simp add: get_ordered_list_eq unique_distinct)
  have eq: "get_ordered_list xs cs =
      filter (\<lambda>x. x \<in> set xs) (unique cs) @ sorted_list_of_set (set xs - set cs)"
    by (rule get_ordered_list_eq)
  have srt: "sorted (sorted_list_of_set (set xs - set cs))
      \<and> set (sorted_list_of_set (set xs - set cs)) = set xs - set cs"
    by simp
  show ?thesis
    using perm sub canon same dist eq srt distinct_get_ordered_list [of xs cs]
      set_get_ordered_list [of xs cs]
    by blast
qed

theorem get_ordered_list_order_law_witness:
  "distinct BROAD_CATEGORY_ORDER
   \<and> set [''zeta'', ''Financial'', ''alpha'', ''Other''] = set [''Other'', ''alpha'', ''zeta'', ''Financial'', ''alpha'']
   \<and> get_ordered_list [''zeta'', ''Financial'', ''alpha'', ''Other''] BROAD_CATEGORY_ORDER
       = get_ordered_list [''Other'', ''alpha'', ''zeta'', ''Financial'', ''alpha''] BROAD_CATEGORY_ORDER
   \<and> get_ordered_list [''zeta'', ''Financial'', ''alpha'', ''Other''] BROAD_CATEGORY_ORDER
       = [''Other'', ''Financial'', ''alpha'', ''zeta'']"
proof -
  have d: "distinct BROAD_CATEGORY_ORDER"
    by (simp add: BROAD_CATEGORY_ORDER_def)
  have s: "set [''zeta'', ''Financial'', ''alpha'', ''Other''] = set [''Other'', ''alpha'', ''zeta'', ''Financial'', ''alpha'']"
    by auto
  have v: "filter (\<lambda>x. x \<in> set [''zeta'', ''Financial'', ''alpha'', ''Other'']) BROAD_CATEGORY_ORDER
        @ sorted_list_of_set (set [''zeta'', ''Financial'', ''alpha'', ''Other''] - set BROAD_CATEGORY_ORDER)
      = [''Other'', ''Financial'', ''alpha'', ''zeta'']"
    by code_simp
  show ?thesis
    using get_ordered_list_order_law [of "[''zeta'', ''Financial'', ''alpha'', ''Other'']"
        BROAD_CATEGORY_ORDER "[''Other'', ''alpha'', ''zeta'', ''Financial'', ''alpha'']"] d s v
    by metis
qed

subsection \<open>Grouping and summing\<close>

lemma sum_list_pos_nonempty:
  fixes xs :: "rat list"
  shows "xs \<noteq> [] \<Longrightarrow> (\<forall>x\<in>set xs. 0 < x) \<Longrightarrow> 0 < sum_list xs"
  by (induction xs) (auto intro: add_pos_nonneg sum_list_nonneg less_imp_le)

lemma groupby_size_eq: "groupby_size key rows = groupby_sum key (\<lambda>_. 1) rows"
  by (simp add: groupby_size_def groupby_sum_def sum_list_triv)

lemma map_fst_groupby_sum:
  "map fst (groupby_sum key val rows) = sorted_list_of_set (key ` set rows)"
  by (simp add: groupby_sum_def comp_def)

lemma distinct_groupby_sum: "distinct (map fst (groupby_sum key val rows))"
  by (simp add: map_fst_groupby_sum)

lemma groupby_sum_Nil_iff: "groupby_sum key val rows = [] \<longleftrightarrow> rows = []"
  by (simp add: groupby_sum_def sorted_list_of_set_eq_Nil_iff)

lemma in_groupby_sum_iff:
  "(k, v) \<in> set (groupby_sum key val rows) \<longleftrightarrow>
     k \<in> key ` set rows \<and> v = sum_list (map val (filter (\<lambda>r. key r = k) rows))"
  by (auto simp: groupby_sum_def)

lemma groupby_sum_pos:
  assumes "(k, v) \<in> set (groupby_sum key val rows)" and "\<forall>r\<in>set rows. 0 < val r"
  shows "0 < v"
proof -
  from assms(1) obtain r where r: "r \<in> set rows" "key r = k"
    and v: "v = sum_list (map val (filter (\<lambda>r. key r = k) rows))"
    by (auto simp: in_groupby_sum_iff)
  have "filter (\<lambda>r. key r = k) rows \<noteq> []"
    using r by (auto simp: filter_empty_conv)
  then show ?thesis
    unfolding v using assms(2) by (intro sum_list_pos_nonempty) auto
qed

lemma sum_group_sums:
  fixes val :: "'r \<Rightarrow> rat"
  assumes "finite A"
  shows "(\<Sum>k\<in>A. sum_list (map val (filter (\<lambda>r. key r = k) rows)))
       = sum_list (map val (filter (\<lambda>r. key r \<in> A) rows))"
proof (induction rows)
  case Nil
  show ?case by simp
next
  case (Cons r rows)
  have "(\<Sum>k\<in>A. sum_list (map val (filter (\<lambda>r. key r = k) (r # rows))))
      = (\<Sum>k\<in>A. (if k = key r then val r else 0) + sum_list (map val (filter (\<lambda>r. key r = k) rows)))"
    by (intro sum.cong) auto
  also have "\<dots> = (\<Sum>k\<in>A. if k = key r then val r else 0) + sum_list (map val (filter (\<lambda>r. key r \<in> A) rows))"
    by (simp add: sum.distrib Cons)
  also have "(\<Sum>k\<in>A. if k = key r then val r else 0) = (if key r \<in> A then val r else 0)"
    using assms by (simp add: sum.delta)
  finally show ?case by simp
qed

lemma groupby_sum_total:
  fixes val :: "'r \<Rightarrow> rat"
  shows "sum_list (map snd (filter (\<lambda>(k, v). P k) (groupby_sum key val rows)))
       = sum_list (map val (filter (\<lambda>r. P (key r)) rows))"
proof -
  let ?K = "sorted_list_of_set (key ` set rows)"
  let ?S = "\<lambda>k. sum_list (map val (filter (\<lambda>r. key r = k) rows))"
  have "filter (\<lambda>(k, v). P k) (groupby_sum key val rows) = map (\<lambda>k. (k, ?S k)) (filter P ?K)"
    by (simp add: groupby_sum_def filter_map comp_def)
  then have "sum_list (map snd (filter (\<lambda>(k, v). P k) (groupby_sum key val rows)))
      = sum_list (map ?S (filter P ?K))"
    by (simp add: comp_def)
  also have "\<dots> = sum ?S (set (filter P ?K))"
    by (intro sum_list_distinct_conv_sum_set) simp
  also have "\<dots> = sum_list (map val (filter (\<lambda>r. key r \<in> set (filter P ?K)) rows))"
    by (intro sum_group_sums) simp
  also have "filter (\<lambda>r. key r \<in> set (filter P ?K)) rows = filter (\<lambda>r. P (key r)) rows"
    by (intro filter_cong) auto
  finally show ?thesis .
qed


subsection \<open>The topic loops\<close>

lemma mk_flows_Nil_iff: "mk_flows lab g = [] \<longleftrightarrow> g = []"
  by (simp add: mk_flows_def)

lemma topic_columns_labelled:
  "c \<in> set topic_columns \<Longrightarrow> dict_index TOPIC_LABELS c = Inr (dict_get TOPIC_LABELS c [])"
  by (auto simp: topic_columns_def TOPIC_LABELS_def dict_index_def dict_get_def)

lemma binary_flows_closed:
  "set cols \<subseteq> set topic_columns \<Longrightarrow>
   binary_flows cols dff acc = Inr (acc @ filter (\<lambda>fs. fs \<noteq> []) (map (binary_col dff) cols))"
proof (induction cols arbitrary: acc)
  case Nil
  show ?case by simp
next
  case (Cons c cols)
  then have c: "dict_index TOPIC_LABELS c = Inr (dict_get TOPIC_LABELS c [])"
    and cols: "set cols \<subseteq> set topic_columns"
    by (auto intro: topic_columns_labelled)
  have e: "binary_col dff c = [] \<longleftrightarrow> filter (\<lambda>r. cell r c = 1) dff = []"
    by (simp add: binary_col_def mk_flows_Nil_iff groupby_size_eq groupby_sum_Nil_iff)
  show ?case
  proof (cases "filter (\<lambda>r. cell r c = 1) dff = []")
    case True
    with e Cons.IH [OF cols] show ?thesis by simp
  next
    case False
    with e have ne: "binary_col dff c \<noteq> []" by simp
    show ?thesis
      using False ne c Cons.IH [OF cols] by (simp add: binary_col_def)
  qed
qed

lemma proportional_flows_closed:
  "set cols \<subseteq> set topic_columns \<Longrightarrow>
   proportional_flows cols dfn acc = Inr (acc @ filter (\<lambda>fs. fs \<noteq> []) (map (proportional_col dfn) cols))"
proof (induction cols arbitrary: acc)
  case Nil
  show ?case by simp
next
  case (Cons c cols)
  then have c: "dict_index TOPIC_LABELS c = Inr (dict_get TOPIC_LABELS c [])"
    and cols: "set cols \<subseteq> set topic_columns"
    by (auto intro: topic_columns_labelled)
  have e: "proportional_col dfn c = [] \<longleftrightarrow> filter (\<lambda>r. cell r c > 0) dfn = []"
    by (simp add: proportional_col_def mk_flows_Nil_iff groupby_sum_Nil_iff)
  show ?case
  proof (cases "filter (\<lambda>r. cell r c > 0) dfn = []")
    case True
    with e Cons.IH [OF cols] show ?thesis by simp
  next
    case False
    with e have ne: "proportional_col dfn c \<noteq> []" by simp
    show ?thesis
      using False ne c Cons.IH [OF cols] by (simp add: proportional_col_def)
  qed
qed

lemma build_topic_flows_closed:
  "build_topic_flows dff p = Inr (filter (\<lambda>fs. fs \<noteq> []) (map (col_flows p dff) topic_columns))"
proof (cases p)
  case True
  then show ?thesis
    using proportional_flows_closed [of topic_columns "df_normalized dff" "[]"]
    by (simp add: build_topic_flows_def col_flows_def [abs_def])
next
  case False
  then show ?thesis
    using binary_flows_closed [of topic_columns dff "[]"]
    by (simp add: build_topic_flows_def col_flows_def [abs_def])
qed

lemma concat_filter_nonempty: "concat (filter (\<lambda>fs. fs \<noteq> []) xss) = concat xss"
  by (induction xss) auto

lemma filter_nonempty_Nil_iff: "filter (\<lambda>fs. fs \<noteq> []) xss = [] \<longleftrightarrow> concat xss = []"
  by (induction xss) auto


subsection \<open>Flows\<close>

lemma topic_to_broad_eq:
  "topic_to_broad =
     [''Political'' \<mapsto> ''Ideological'', ''Religious'' \<mapsto> ''Ideological'', ''News'' \<mapsto> ''Ideological'',
      ''Medical'' \<mapsto> ''Ideological'', ''Manosphere'' \<mapsto> ''Ideological'', ''Extremist'' \<mapsto> ''Ideological'',
      ''Cryptocurrency'' \<mapsto> ''Financial'', ''Money'' \<mapsto> ''Financial'', ''Gambling'' \<mapsto> ''Financial'',
      ''Not at-risk'' \<mapsto> ''Other'']"
  by (simp add: topic_to_broad_def broad_categories_def)

lemma topic_to_broad_label:
  "c \<in> set topic_columns \<Longrightarrow> topic_to_broad (dict_get TOPIC_LABELS c []) \<noteq> None"
  by (auto simp: topic_columns_def TOPIC_LABELS_def dict_get_def topic_to_broad_eq)

lemma topic_to_broad_range:
  "topic_to_broad t = Some b \<Longrightarrow> b \<in> {''Ideological'', ''Financial'', ''Other''}"
  by (auto simp: topic_to_broad_eq split: if_splits)

lemma topic_to_broad_dom:
  "topic_to_broad t = Some b \<Longrightarrow> t \<in> set SPECIFIC_TOPIC_ORDER"
  by (auto simp: topic_to_broad_eq SPECIFIC_TOPIC_ORDER_def split: if_splits)

lemma topic_to_broad_invisible:
  "topic_to_broad t = Some b \<Longrightarrow> (b = ''Other'') = (t = ''Not at-risk'')"
  by (auto simp: topic_to_broad_eq split: if_splits)

lemma normalize_row_category [simp]:
  "fameswap_category (normalize_row cols s r) = fameswap_category r"
  by (induction cols arbitrary: r) auto

lemma normalize_row_cell:
  "distinct cols \<Longrightarrow>
   cell (normalize_row cols s r) c =
     (if c \<in> set cols then (if cell r c = 1 \<and> 0 < s then 1 / s else 0) else cell r c)"
  by (induction cols arbitrary: r) auto

lemma distinct_topic_columns: "distinct topic_columns"
  by (simp add: topic_columns_def)

lemma df_normalized_cell:
  "c \<in> set topic_columns \<Longrightarrow>
   cell (normalize_row topic_columns (topic_sums r) r) c =
     (if cell r c = 1 \<and> 0 < topic_sums r then 1 / topic_sums r else 0)"
  by (simp add: normalize_row_cell distinct_topic_columns)

lemma category_df_normalized:
  "map fameswap_category (df_normalized dff) = map fameswap_category dff"
  by (simp add: df_normalized_def comp_def)

lemma in_mk_flows_iff:
  "f \<in> set (mk_flows lab g) \<longleftrightarrow>
     (\<exists>k v. (k, v) \<in> set g \<and> f = \<lparr>flow_category = k, flow_count = v, specific_topic = lab\<rparr>)"
  by (auto simp: mk_flows_def)

lemma col_flows_facts:
  assumes "f \<in> set (col_flows p dff c)"
  shows "flow_category f \<in> fameswap_category ` set dff"
    and "0 < flow_count f"
    and "specific_topic f = dict_get TOPIC_LABELS c []"
proof -
  show "specific_topic f = dict_get TOPIC_LABELS c []"
    using assms
    by (auto simp: col_flows_def binary_col_def proportional_col_def in_mk_flows_iff split: if_splits)
  show "flow_category f \<in> fameswap_category ` set dff"
  proof (cases p)
    case True
    with assms obtain k v where
      kv: "(k, v) \<in> set (groupby_sum fameswap_category (\<lambda>r. cell r c)
              (filter (\<lambda>r. cell r c > 0) (df_normalized dff)))"
      and f: "flow_category f = k"
      by (auto simp: col_flows_def proportional_col_def in_mk_flows_iff)
    from kv have "k \<in> fameswap_category ` set (df_normalized dff)"
      by (auto simp: in_groupby_sum_iff)
    also have "\<dots> = fameswap_category ` set dff"
      using category_df_normalized [of dff] by (metis set_map)
    finally show ?thesis using f by simp
  next
    case False
    with assms show ?thesis
      by (auto simp: col_flows_def binary_col_def in_mk_flows_iff groupby_size_eq in_groupby_sum_iff)
  qed
  show "0 < flow_count f"
  proof (cases p)
    case True
    with assms obtain k v where
      kv: "(k, v) \<in> set (groupby_sum fameswap_category (\<lambda>r. cell r c)
              (filter (\<lambda>r. cell r c > 0) (df_normalized dff)))"
      and f: "flow_count f = v"
      by (auto simp: col_flows_def proportional_col_def in_mk_flows_iff)
    from kv have "0 < v" by (rule groupby_sum_pos) simp
    then show ?thesis using f by simp
  next
    case False
    with assms obtain k v where
      kv: "(k, v) \<in> set (groupby_sum fameswap_category (\<lambda>_. 1) (filter (\<lambda>r. cell r c = 1) dff))"
      and f: "flow_count f = v"
      by (auto simp: col_flows_def binary_col_def in_mk_flows_iff groupby_size_eq)
    from kv have "0 < v" by (rule groupby_sum_pos) simp
    then show ?thesis using f by simp
  qed
qed

lemma create_sankey_diagram_eq:
  "create_sankey_diagram df p =
     (if concat (map (col_flows p (filter_beauty df)) topic_columns) = [] then Inr None
      else (case build_figure df (filter_beauty df)
                  (add_broad_category (concat (map (col_flows p (filter_beauty df)) topic_columns))) of
              Inl e \<Rightarrow> Inl e
            | Inr fig \<Rightarrow> Inr (Some fig)))"
  by (simp add: create_sankey_diagram_def build_topic_flows_closed filter_nonempty_Nil_iff
      concat_filter_nonempty)


subsection \<open>The node index map\<close>

lemma assign_indices_append:
  "assign_indices (xs @ ys) s = assign_indices ys (assign_indices xs s)"
  by (induction xs s rule: assign_indices.induct) auto

lemma assign_indices_snoc:
  "assign_indices (xs @ [x]) (m, i) =
     ((fst (assign_indices xs (m, i)))(x \<mapsto> snd (assign_indices xs (m, i))),
      snd (assign_indices xs (m, i)) + 1)"
  by (cases "assign_indices xs (m, i)") (simp add: assign_indices_append)

lemma assign_indices_snd: "snd (assign_indices xs (m, i)) = i + length xs"
  by (induction xs arbitrary: m i) auto

lemma node_mapping_of_eq:
  "node_mapping_of l1 l2 l3 = fst (assign_indices (l1 @ l2 @ l3) (Map.empty, 0))"
  by (simp add: node_mapping_of_def assign_indices_append)

lemma assign_indices_dom: "dom (fst (assign_indices xs (m, i))) = dom m \<union> set xs"
  by (induction xs arbitrary: m i) auto

lemma assign_indices_last:
  "k \<in> set xs \<Longrightarrow>
   \<exists>p. fst (assign_indices xs (m, i)) k = Some (i + p) \<and> p < length xs \<and> xs ! p = k
       \<and> k \<notin> set (drop (Suc p) xs)"
proof (induction xs rule: rev_induct)
  case Nil
  then show ?case by simp
next
  case (snoc x xs)
  show ?case
  proof (cases "k = x")
    case True
    have "fst (assign_indices (xs @ [x]) (m, i)) k = Some (i + length xs)"
      using True by (simp add: assign_indices_snoc assign_indices_snd)
    then show ?thesis using True by (intro exI [of _ "length xs"]) simp
  next
    case False
    with snoc obtain p where p: "fst (assign_indices xs (m, i)) k = Some (i + p)"
      "p < length xs" "xs ! p = k" "k \<notin> set (drop (Suc p) xs)"
      by auto
    have "fst (assign_indices (xs @ [x]) (m, i)) k = Some (i + p)"
      using False p(1) by (simp add: assign_indices_snoc)
    then show ?thesis
      using p False by (intro exI [of _ p]) (simp add: nth_append)
  qed
qed

lemma node_mapping_of_dom: "dom (node_mapping_of l1 l2 l3) = set (l1 @ l2 @ l3)"
  by (simp add: node_mapping_of_eq assign_indices_dom)

lemma drop_keeps_suffix: "n \<le> length xs \<Longrightarrow> set ys \<subseteq> set (drop n (xs @ ys))"
  by simp

lemma nth_append3_mid:
  "length l1 \<le> j \<Longrightarrow> j < length l1 + length l2 \<Longrightarrow> (l1 @ l2 @ l3) ! j = l2 ! (j - length l1)"
proof -
  assume a: "length l1 \<le> j" "j < length l1 + length l2"
  then have "\<not> j < length l1" "j - length l1 < length l2" by auto
  then show ?thesis by (simp add: nth_append)
qed

lemma nth_append3_last:
  "length l1 + length l2 \<le> j \<Longrightarrow> (l1 @ l2 @ l3) ! j = l3 ! (j - length l1 - length l2)"
proof -
  assume a: "length l1 + length l2 \<le> j"
  then have "\<not> j < length l1" "\<not> j - length l1 < length l2" by auto
  then show ?thesis by (simp add: nth_append)
qed

lemma node_mapping_of_last:
  assumes "node_mapping_of l1 l2 l3 k = Some j"
  shows "j < length (l1 @ l2 @ l3) \<and> (l1 @ l2 @ l3) ! j = k \<and> k \<notin> set (drop (Suc j) (l1 @ l2 @ l3))"
proof -
  from assms have "k \<in> dom (node_mapping_of l1 l2 l3)" by blast
  then have "k \<in> set (l1 @ l2 @ l3)" by (simp only: node_mapping_of_dom)
  from assign_indices_last [OF this, of Map.empty 0] assms show ?thesis
    by (auto simp: node_mapping_of_eq)
qed

lemma node_mapping_of_inj:
  "node_mapping_of l1 l2 l3 k = Some j \<Longrightarrow> node_mapping_of l1 l2 l3 k' = Some j \<Longrightarrow> k = k'"
  using node_mapping_of_last by blast

lemma node_mapping_of_distinct:
  assumes "distinct (l1 @ l2 @ l3)" and "p < length (l1 @ l2 @ l3)"
  shows "node_mapping_of l1 l2 l3 ((l1 @ l2 @ l3) ! p) = Some p"
proof -
  have "(l1 @ l2 @ l3) ! p \<in> dom (node_mapping_of l1 l2 l3)"
    using assms(2) unfolding node_mapping_of_dom by (rule nth_mem)
  then obtain j where j: "node_mapping_of l1 l2 l3 ((l1 @ l2 @ l3) ! p) = Some j" by blast
  from node_mapping_of_last [OF j] have "j < length (l1 @ l2 @ l3)" "(l1 @ l2 @ l3) ! j = (l1 @ l2 @ l3) ! p"
    by auto
  with assms have "j = p" by (simp add: nth_eq_iff_index_eq)
  with j show ?thesis by simp
qed

text \<open>A label of a deeper list is mapped into the index range of the deepest list holding it.\<close>

lemma node_mapping_of_level3:
  assumes "k \<in> set l3" and "node_mapping_of l1 l2 l3 k = Some j"
  shows "length l1 + length l2 \<le> j \<and> j < length l1 + length l2 + length l3
       \<and> l3 ! (j - length l1 - length l2) = k"
proof -
  from node_mapping_of_last [OF assms(2)]
  have j: "j < length (l1 @ l2 @ l3)" "(l1 @ l2 @ l3) ! j = k"
    "k \<notin> set (drop (Suc j) (l1 @ l2 @ l3))" by auto
  have ge: "length l1 + length l2 \<le> j"
  proof (rule ccontr)
    assume "\<not> length l1 + length l2 \<le> j"
    then have "Suc j \<le> length (l1 @ l2)" by simp
    from drop_keeps_suffix [OF this, of l3] have "set l3 \<subseteq> set (drop (Suc j) (l1 @ l2 @ l3))"
      unfolding append_assoc .
    with j(3) assms(1) show False by blast
  qed
  moreover have "(l1 @ l2 @ l3) ! j = l3 ! (j - length l1 - length l2)"
    using ge by (rule nth_append3_last)
  ultimately show ?thesis using j by simp
qed

lemma node_mapping_of_level2:
  assumes "k \<in> set l2" and "k \<notin> set l3" and "node_mapping_of l1 l2 l3 k = Some j"
  shows "length l1 \<le> j \<and> j < length l1 + length l2 \<and> l2 ! (j - length l1) = k"
proof -
  from node_mapping_of_last [OF assms(3)]
  have j: "j < length (l1 @ l2 @ l3)" "(l1 @ l2 @ l3) ! j = k"
    "k \<notin> set (drop (Suc j) (l1 @ l2 @ l3))" by auto
  have ge: "length l1 \<le> j"
  proof (rule ccontr)
    assume "\<not> length l1 \<le> j"
    then have "Suc j \<le> length l1" by simp
    from drop_keeps_suffix [OF this, of "l2 @ l3"] have "set (l2 @ l3) \<subseteq> set (drop (Suc j) (l1 @ l2 @ l3))" .
    with j(3) assms(1) show False by auto
  qed
  have lt: "j < length l1 + length l2"
  proof (rule ccontr)
    assume "\<not> j < length l1 + length l2"
    then have le: "length l1 + length l2 \<le> j" by simp
    have "j - length l1 - length l2 < length l3"
      using j(1) le by auto
    moreover have "(l1 @ l2 @ l3) ! j = l3 ! (j - length l1 - length l2)"
      using le by (rule nth_append3_last)
    ultimately show False using j(2) assms(2) by (metis nth_mem)
  qed
  have "(l1 @ l2 @ l3) ! j = l2 ! (j - length l1)"
    using ge lt by (rule nth_append3_mid)
  with ge lt j show ?thesis by simp
qed

lemma node_mapping_of_level1:
  assumes "k \<notin> set l2" and "k \<notin> set l3" and "node_mapping_of l1 l2 l3 k = Some j"
  shows "j < length l1 \<and> l1 ! j = k"
proof -
  from node_mapping_of_last [OF assms(3)]
  have j: "j < length (l1 @ l2 @ l3)" "(l1 @ l2 @ l3) ! j = k" by auto
  have "j < length l1"
  proof (rule ccontr)
    assume "\<not> j < length l1"
    then have "(l1 @ l2 @ l3) ! j = (l2 @ l3) ! (j - length l1)" "j - length l1 < length (l2 @ l3)"
      using j(1) by (auto simp: nth_append)
    with j(2) have "k \<in> set (l2 @ l3)" by (metis nth_mem)
    with assms show False by simp
  qed
  with j show ?thesis by (simp add: nth_append)
qed


subsection \<open>Links\<close>

lemma hex_colors_ok:
  "list_all (\<lambda>h. \<not> isl (hex_to_rgba h ''0.6''))
     (''#BDC3C7'' # map snd broad_colors @ map snd topic_colors)"
  by code_simp

lemma dict_get_cases: "dict_get d k dflt = dflt \<or> dict_get d k dflt \<in> snd ` set d"
  by (auto simp: dict_get_def split: option.splits dest!: map_of_SomeD intro: rev_image_eqI)

lemma hex_broad_ok: "\<exists>c. hex_to_rgba (dict_get broad_colors b ''#BDC3C7'') ''0.6'' = Inr c"
proof -
  have "dict_get broad_colors b ''#BDC3C7'' \<in> set (''#BDC3C7'' # map snd broad_colors @ map snd topic_colors)"
    using dict_get_cases [of broad_colors b "''#BDC3C7''"] by auto
  with hex_colors_ok have "\<not> isl (hex_to_rgba (dict_get broad_colors b ''#BDC3C7'') ''0.6'')"
    unfolding list_all_iff by blast
  then show ?thesis by (cases "hex_to_rgba (dict_get broad_colors b ''#BDC3C7'') ''0.6''") auto
qed

lemma hex_topic_ok: "\<exists>c. hex_to_rgba (dict_get topic_colors t ''#BDC3C7'') ''0.6'' = Inr c"
proof -
  have "dict_get topic_colors t ''#BDC3C7'' \<in> set (''#BDC3C7'' # map snd broad_colors @ map snd topic_colors)"
    using dict_get_cases [of topic_colors t "''#BDC3C7''"] by auto
  with hex_colors_ok have "\<not> isl (hex_to_rgba (dict_get topic_colors t ''#BDC3C7'') ''0.6'')"
    unfolding list_all_iff by blast
  then show ?thesis by (cases "hex_to_rgba (dict_get topic_colors t ''#BDC3C7'') ''0.6''") auto
qed

lemma lookup_node_Inr: "lookup_node nm k = Inr i \<longleftrightarrow> nm k = Some i"
  by (simp add: lookup_node_def split: option.splits)

lemma broad_links_total:
  "(\<forall>row\<in>set rows. fst (fst row) \<in> dom nm \<and> snd (fst row) \<in> dom nm) \<Longrightarrow>
   \<exists>ls. broad_links nm rows = Inr ls"
proof (induction rows)
  case Nil
  show ?case by simp
next
  case (Cons row rows)
  obtain s t n where row: "row = ((s, t), n)" by (metis surj_pair)
  from Cons.prems row obtain i j where i: "nm s = Some i" and j: "nm t = Some j" by auto
  from Cons obtain ls where ls: "broad_links nm rows = Inr ls" by auto
  obtain c where c: "hex_to_rgba (dict_get broad_colors t ''#BDC3C7'') ''0.6'' = Inr c"
    using hex_broad_ok by blast
  show ?case by (simp add: row i j ls c lookup_node_def)
qed

lemma specific_links_total:
  "(\<forall>row\<in>set rows. fst (fst row) \<in> dom nm \<and> snd (fst row) \<in> dom nm) \<Longrightarrow>
   \<exists>ls. specific_links nm rows = Inr ls"
proof (induction rows)
  case Nil
  show ?case by simp
next
  case (Cons row rows)
  obtain s t n where row: "row = ((s, t), n)" by (metis surj_pair)
  from Cons.prems row obtain i j where i: "nm s = Some i" and j: "nm t = Some j" by auto
  from Cons obtain ls where ls: "specific_links nm rows = Inr ls" by auto
  obtain c where c: "hex_to_rgba (dict_get topic_colors t ''#BDC3C7'') ''0.6'' = Inr c"
    using hex_topic_ok by blast
  show ?case by (simp add: row i j ls c lookup_node_def)
qed

lemma broad_links_rel:
  "broad_links nm rows = Inr ls \<Longrightarrow> list_all2 (broad_link_of nm) rows ls"
proof (induction rows arbitrary: ls)
  case Nil
  then show ?case by simp
next
  case (Cons row rows)
  obtain s t n where row: "row = ((s, t), n)" by (metis surj_pair)
  from Cons.prems obtain i j c ls' where
    i: "nm s = Some i" and j: "nm t = Some j"
    and c: "(if t \<in> invisible_nodes then Inr ''rgba(0,0,0,0)''
             else hex_to_rgba (dict_get broad_colors t ''#BDC3C7'') ''0.6'') = Inr c"
    and ls': "broad_links nm rows = Inr ls'"
    and ls: "ls = \<lparr>link_source = i, link_target = j, link_value = n, link_color = c\<rparr> # ls'"
    unfolding row by (auto simp: lookup_node_def split: option.splits sum.splits)
  have "broad_link_of nm row \<lparr>link_source = i, link_target = j, link_value = n, link_color = c\<rparr>"
    using i j c by (auto simp: broad_link_of_def row split: if_splits)
  with Cons.IH [OF ls'] ls show ?case by simp
qed

lemma specific_links_rel:
  "specific_links nm rows = Inr ls \<Longrightarrow> list_all2 (specific_link_of nm) rows ls"
proof (induction rows arbitrary: ls)
  case Nil
  then show ?case by simp
next
  case (Cons row rows)
  obtain s t n where row: "row = ((s, t), n)" by (metis surj_pair)
  from Cons.prems obtain i j c ls' where
    i: "nm s = Some i" and j: "nm t = Some j"
    and c: "(if t \<in> invisible_nodes \<or> s \<in> invisible_nodes then Inr ''rgba(0,0,0,0)''
             else hex_to_rgba (dict_get topic_colors t ''#BDC3C7'') ''0.6'') = Inr c"
    and ls': "specific_links nm rows = Inr ls'"
    and ls: "ls = \<lparr>link_source = i, link_target = j, link_value = n, link_color = c\<rparr> # ls'"
    unfolding row by (auto simp: lookup_node_def split: option.splits sum.splits)
  have "specific_link_of nm row \<lparr>link_source = i, link_target = j, link_value = n, link_color = c\<rparr>"
    using i j c by (auto simp: specific_link_of_def row split: if_splits)
  with Cons.IH [OF ls'] ls show ?case by simp
qed

lemma mset_sort_flows: "mset (sort_flows a b fl) = mset fl"
  by (simp add: sort_flows_def)

lemma set_sort_flows: "set (sort_flows a b fl) = set fl"
  by (simp add: sort_flows_def)

lemma length_sort_flows: "length (sort_flows a b fl) = length fl"
  by (simp add: sort_flows_def)


subsection \<open>The figure\<close>

lemma build_figure_fields:
  assumes "build_figure df dff flows = Inr fig"
  shows "df_filtered fig = dff"
    and "all_flows fig = flows"
    and "broad_flows fig = broad_flows_of flows"
    and "specific_flows fig = specific_flows_of flows"
    and "fameswap_categories fig =
           filter (\<lambda>cat. cat \<noteq> ''Beauty & Makeup'')
             (get_ordered_list (unique (map fameswap_category df)) FAMESWAP_ORDER)"
    and "broad_category_list fig =
           get_ordered_list (unique (map (\<lambda>((s, t), n). t) (broad_flows fig))) BROAD_CATEGORY_ORDER"
    and "specific_topics fig =
           get_ordered_list (unique (map (\<lambda>((s, t), n). t) (specific_flows fig))) SPECIFIC_TOPIC_ORDER"
    and "node_mapping fig =
           node_mapping_of (fameswap_categories fig) (broad_category_list fig) (specific_topics fig)"
    and "\<exists>ns1. fameswap_nodes (fameswap_categories fig) = Inr ns1
           \<and> nodes fig = ns1 @ broad_nodes (broad_category_list fig) @ specific_nodes (specific_topics fig)"
    and "\<exists>ls1 ls2.
           broad_links (node_mapping fig)
             (sort_flows (fameswap_categories fig) (broad_category_list fig) (broad_flows fig)) = Inr ls1
           \<and> specific_links (node_mapping fig)
             (sort_flows (broad_category_list fig) (specific_topics fig) (specific_flows fig)) = Inr ls2
           \<and> links fig = ls1 @ ls2"
  using assms
  by (auto simp: build_figure_def build_links_def Let_def split: sum.splits)


subsection \<open>Totality of the build\<close>

lemma flow_rows_Nil_iff:
  "flow_rows p dff = [] \<longleftrightarrow> concat (map (col_flows p dff) topic_columns) = []"
  by (simp add: flow_rows_def add_broad_category_def)

lemma flow_rows_facts:
  assumes "f \<in> set (flow_rows p dff)"
  shows "flow_category f \<in> fameswap_category ` set dff"
    and "0 < flow_count f"
    and "\<exists>c\<in>set topic_columns. specific_topic f = dict_get TOPIC_LABELS c []"
    and "broad_category f = topic_to_broad (specific_topic f)"
    and "broad_category f \<noteq> None"
proof -
  from assms obtain c g where c: "c \<in> set topic_columns" and g: "g \<in> set (col_flows p dff c)"
    and f: "f = \<lparr>flow_category = flow_category g, flow_count = flow_count g,
                 specific_topic = specific_topic g,
                 broad_category = topic_to_broad (specific_topic g)\<rparr>"
    by (auto simp: flow_rows_def add_broad_category_def)
  note facts = col_flows_facts [OF g]
  show "flow_category f \<in> fameswap_category ` set dff" using facts(1) f by simp
  show "0 < flow_count f" using facts(2) f by simp
  show "\<exists>c\<in>set topic_columns. specific_topic f = dict_get TOPIC_LABELS c []"
    using facts(3) f c by auto
  show "broad_category f = topic_to_broad (specific_topic f)" using f by simp
  show "broad_category f \<noteq> None"
    using f facts(3) topic_to_broad_label [OF c] by simp
qed

lemma dropna_flow_rows: "dropna (flow_rows p dff) = flow_rows p dff"
  unfolding dropna_def by (rule filter_True) (simp add: flow_rows_facts(5))

lemma create_sankey_diagram_flow_rows:
  "create_sankey_diagram df p =
     (if flow_rows p (filter_beauty df) = [] then Inr None
      else (case build_figure df (filter_beauty df) (flow_rows p (filter_beauty df)) of
              Inl e \<Rightarrow> Inl e
            | Inr fig \<Rightarrow> Inr (Some fig)))"
  by (simp add: create_sankey_diagram_eq flow_rows_Nil_iff) (simp add: flow_rows_def)

lemma set_filter_beauty:
  "fameswap_category ` set (filter_beauty df) = fameswap_category ` set df - {''Beauty & Makeup''}"
  by (auto simp: filter_beauty_def)

lemma set_fameswap_categories:
  "set (filter (\<lambda>cat. cat \<noteq> ''Beauty & Makeup'')
          (get_ordered_list (unique (map fameswap_category df)) FAMESWAP_ORDER))
   = fameswap_category ` set df - {''Beauty & Makeup''}"
  by (auto simp: set_get_ordered_list set_unique)

lemma keys_broad_flows_of:
  "fst ` set (broad_flows_of flows)
     = (\<lambda>f. (flow_category f, the (broad_category f))) ` set (dropna flows)"
proof -
  have "fst ` set (broad_flows_of flows) = set (map fst (broad_flows_of flows))" by simp
  also have "\<dots> = (\<lambda>f. (flow_category f, the (broad_category f))) ` set (dropna flows)"
    unfolding broad_flows_of_def map_fst_groupby_sum by simp
  finally show ?thesis .
qed

lemma keys_specific_flows_of:
  "fst ` set (specific_flows_of flows)
     = (\<lambda>f. (the (broad_category f), specific_topic f)) ` set (dropna flows)"
proof -
  have "fst ` set (specific_flows_of flows) = set (map fst (specific_flows_of flows))" by simp
  also have "\<dots> = (\<lambda>f. (the (broad_category f), specific_topic f)) ` set (dropna flows)"
    unfolding specific_flows_of_def map_fst_groupby_sum by simp
  finally show ?thesis .
qed

lemma snd_key_eq: "(\<lambda>((s, t), n). t) = (\<lambda>row. snd (fst row))"
  by (auto simp: fun_eq_iff)

lemma fameswap_nodes_total: "cats \<noteq> [] \<Longrightarrow> \<exists>ns. fameswap_nodes cats = Inr ns \<and> length ns = length cats"
  by (simp add: fameswap_nodes_def Let_def)

lemma fameswap_nodes_length: "fameswap_nodes cats = Inr ns \<Longrightarrow> length ns = length cats"
  by (auto simp: fameswap_nodes_def Let_def split: if_splits)

lemma build_figure_total:
  assumes ne: "flow_rows p (filter_beauty df) \<noteq> []"
  shows "\<exists>fig. build_figure df (filter_beauty df) (flow_rows p (filter_beauty df)) = Inr fig"
proof -
  let ?dff = "filter_beauty df"
  let ?fl = "flow_rows p ?dff"
  let ?bf = "broad_flows_of ?fl"
  let ?sf = "specific_flows_of ?fl"
  let ?fc = "filter (\<lambda>cat. cat \<noteq> ''Beauty & Makeup'')
               (get_ordered_list (unique (map fameswap_category df)) FAMESWAP_ORDER)"
  let ?bl = "get_ordered_list (unique (map (\<lambda>((s, t), n). t) ?bf)) BROAD_CATEGORY_ORDER"
  let ?st = "get_ordered_list (unique (map (\<lambda>((s, t), n). t) ?sf)) SPECIFIC_TOPIC_ORDER"
  let ?nm = "node_mapping_of ?fc ?bl ?st"
  have fc: "set ?fc = fameswap_category ` set ?dff"
    by (simp only: set_fameswap_categories set_filter_beauty)
  have bl: "set ?bl = (\<lambda>row. snd (fst row)) ` set ?bf"
    by (simp add: set_get_ordered_list set_unique snd_key_eq)
  have st: "set ?st = (\<lambda>row. snd (fst row)) ` set ?sf"
    by (simp add: set_get_ordered_list set_unique snd_key_eq)
  have dom: "dom ?nm = set ?fc \<union> set ?bl \<union> set ?st"
    by (simp only: node_mapping_of_dom set_append Un_assoc)
  from ne obtain f where f: "f \<in> set ?fl" by (cases ?fl) auto
  have "flow_category f \<in> set ?fc" unfolding fc by (rule flow_rows_facts(1) [OF f])
  then have "?fc \<noteq> []" by (metis empty_iff list.set(1))
  then obtain ns1 where ns1: "fameswap_nodes ?fc = Inr ns1"
    using fameswap_nodes_total by blast
  have "\<forall>row\<in>set (sort_flows ?fc ?bl ?bf). fst (fst row) \<in> dom ?nm \<and> snd (fst row) \<in> dom ?nm"
  proof
    fix row assume "row \<in> set (sort_flows ?fc ?bl ?bf)"
    then have row: "row \<in> set ?bf" by (simp add: set_sort_flows)
    then have "fst row \<in> fst ` set ?bf" by blast
    then obtain g where g: "g \<in> set ?fl" and k: "fst row = (flow_category g, the (broad_category g))"
      unfolding keys_broad_flows_of dropna_flow_rows by auto
    have "fst (fst row) \<in> set ?fc"
      using flow_rows_facts(1) [OF g] k unfolding fc by simp
    moreover have "snd (fst row) \<in> set ?bl" unfolding bl using row by blast
    ultimately show "fst (fst row) \<in> dom ?nm \<and> snd (fst row) \<in> dom ?nm"
      unfolding dom by blast
  qed
  then obtain ls1 where ls1: "broad_links ?nm (sort_flows ?fc ?bl ?bf) = Inr ls1"
    using broad_links_total by blast
  have "\<forall>row\<in>set (sort_flows ?bl ?st ?sf). fst (fst row) \<in> dom ?nm \<and> snd (fst row) \<in> dom ?nm"
  proof
    fix row assume "row \<in> set (sort_flows ?bl ?st ?sf)"
    then have row: "row \<in> set ?sf" by (simp add: set_sort_flows)
    then have "fst row \<in> fst ` set ?sf" by blast
    then obtain g where g: "g \<in> set ?fl" and k: "fst row = (the (broad_category g), specific_topic g)"
      unfolding keys_specific_flows_of dropna_flow_rows by auto
    have "(flow_category g, the (broad_category g)) \<in> fst ` set ?bf"
      unfolding keys_broad_flows_of dropna_flow_rows using g by blast
    then have "the (broad_category g) \<in> set ?bl" unfolding bl by force
    then have "fst (fst row) \<in> set ?bl" using k by simp
    moreover have "snd (fst row) \<in> set ?st" unfolding st using row by blast
    ultimately show "fst (fst row) \<in> dom ?nm \<and> snd (fst row) \<in> dom ?nm"
      unfolding dom by blast
  qed
  then obtain ls2 where ls2: "specific_links ?nm (sort_flows ?bl ?st ?sf) = Inr ls2"
    using specific_links_total by blast
  show ?thesis
    unfolding build_figure_def Let_def build_links_def
    by (simp only: ns1 ls1 ls2 sum.case) blast
qed

lemma create_sankey_diagram_None_iff:
  "create_sankey_diagram df p = Inr None \<longleftrightarrow> flow_rows p (filter_beauty df) = []"
  by (auto simp: create_sankey_diagram_flow_rows split: sum.splits)

lemma create_sankey_diagram_Some:
  "create_sankey_diagram df p = Inr (Some fig) \<longleftrightarrow>
     flow_rows p (filter_beauty df) \<noteq> []
     \<and> build_figure df (filter_beauty df) (flow_rows p (filter_beauty df)) = Inr fig"
  by (auto simp: create_sankey_diagram_flow_rows split: sum.splits)

lemma create_sankey_diagram_total: "\<exists>res. create_sankey_diagram df p = Inr res"
proof (cases "flow_rows p (filter_beauty df) = []")
  case True
  then show ?thesis by (simp add: create_sankey_diagram_flow_rows)
next
  case False
  from build_figure_total [OF this] obtain fig where
    "build_figure df (filter_beauty df) (flow_rows p (filter_beauty df)) = Inr fig" by blast
  with False show ?thesis by (simp add: create_sankey_diagram_flow_rows)
qed


subsection \<open>The empty build\<close>

lemma col_flows_Nil_iff:
  assumes "c \<in> set topic_columns"
  shows "col_flows p dff c = [] \<longleftrightarrow>
     (\<forall>r\<in>set dff. \<not> (cell r c = 1 \<and> (p \<longrightarrow> 0 < topic_sums r)))"
proof (cases p)
  case True
  have "col_flows p dff c = [] \<longleftrightarrow> filter (\<lambda>r. cell r c > 0) (df_normalized dff) = []"
    using True by (simp add: col_flows_def proportional_col_def mk_flows_Nil_iff groupby_sum_Nil_iff)
  also have "\<dots> \<longleftrightarrow> (\<forall>r\<in>set dff. \<not> 0 < cell (normalize_row topic_columns (topic_sums r) r) c)"
    by (auto simp: filter_empty_conv df_normalized_def)
  also have "\<dots> \<longleftrightarrow> (\<forall>r\<in>set dff. \<not> (cell r c = 1 \<and> 0 < topic_sums r))"
    by (simp add: df_normalized_cell [OF assms])
  finally show ?thesis using True by simp
next
  case False
  then show ?thesis
    by (simp add: col_flows_def binary_col_def mk_flows_Nil_iff groupby_size_eq groupby_sum_Nil_iff
        filter_empty_conv)
qed

lemma flow_rows_Nil_cond:
  "flow_rows p dff = [] \<longleftrightarrow>
     (\<forall>r\<in>set dff. \<forall>c\<in>set topic_columns. \<not> (cell r c = 1 \<and> (p \<longrightarrow> 0 < topic_sums r)))"
proof -
  have "flow_rows p dff = [] \<longleftrightarrow> (\<forall>c\<in>set topic_columns. col_flows p dff c = [])"
    by (simp add: flow_rows_Nil_iff)
  also have "\<dots> \<longleftrightarrow> (\<forall>c\<in>set topic_columns. \<forall>r\<in>set dff. \<not> (cell r c = 1 \<and> (p \<longrightarrow> 0 < topic_sums r)))"
    by (simp add: col_flows_Nil_iff)
  finally show ?thesis by blast
qed

text \<open>
  C7 (as stated, refuted). With no row at all the build yields no figure: the guard
  \<^verbatim>\<open>if not topic_flows\<close> returns \<^verbatim>\<open>None\<close> instead of an empty diagram.
\<close>

theorem empty_frame_returns_None: "create_sankey_diagram [] False = Inr None"
  by (simp add: create_sankey_diagram_None_iff flow_rows_Nil_cond filter_beauty_def)

text \<open>
  C7 (amended). When no row that survives the exclusion of \<^verbatim>\<open>Beauty & Makeup\<close> has a topic
  column equal to 1 (in particular when no row survives), the build raises nothing and
  returns \<^verbatim>\<open>None\<close>, in either mode: there is no figure, not an empty one.
\<close>

theorem no_active_topic_returns_None:
  assumes "\<forall>r\<in>set df. fameswap_category r \<noteq> ''Beauty & Makeup'' \<longrightarrow>
             (\<forall>c\<in>set topic_columns. cell r c \<noteq> 1)"
  shows "create_sankey_diagram df proportional = Inr None"
  using assms
  by (simp add: create_sankey_diagram_None_iff flow_rows_Nil_cond filter_beauty_def)

theorem no_active_topic_returns_None_witness:
  "fameswap_category (mk_row ''Beauty & Makeup'' [''news_content'']) = ''Beauty & Makeup''
   \<and> cell (mk_row ''Beauty & Makeup'' [''news_content'']) ''news_content'' = 1
   \<and> cell (mk_row ''Humor & Memes'' []) ''news_content'' = 0
   \<and> create_sankey_diagram
         [mk_row ''Beauty & Makeup'' [''news_content''], mk_row ''Humor & Memes'' []] True = Inr None"
proof -
  have h: "\<forall>r\<in>set [mk_row ''Beauty & Makeup'' [''news_content''], mk_row ''Humor & Memes'' []].
      fameswap_category r \<noteq> ''Beauty & Makeup'' \<longrightarrow> (\<forall>c\<in>set topic_columns. cell r c \<noteq> 1)"
    by (simp add: mk_row_def)
  have r: "fameswap_category (mk_row ''Beauty & Makeup'' [''news_content'']) = ''Beauty & Makeup''"
    "cell (mk_row ''Beauty & Makeup'' [''news_content'']) ''news_content'' = 1"
    "cell (mk_row ''Humor & Memes'' []) ''news_content'' = 0"
    by (simp_all add: mk_row_def)
  from no_active_topic_returns_None [OF h, of True] r show ?thesis by simp
qed


subsection \<open>Positive link values\<close>

lemma broad_flows_of_pos:
  assumes "\<forall>f\<in>set flows. 0 < flow_count f" and "row \<in> set (broad_flows_of flows)"
  shows "0 < snd row"
proof -
  obtain k v where row: "row = (k, v)" by (cases row)
  have "\<forall>f\<in>set (dropna flows). 0 < flow_count f" using assms(1) by (simp add: dropna_def)
  with assms(2) show ?thesis
    unfolding row broad_flows_of_def by (auto dest: groupby_sum_pos)
qed

lemma specific_flows_of_pos:
  assumes "\<forall>f\<in>set flows. 0 < flow_count f" and "row \<in> set (specific_flows_of flows)"
  shows "0 < snd row"
proof -
  obtain k v where row: "row = (k, v)" by (cases row)
  have "\<forall>f\<in>set (dropna flows). 0 < flow_count f" using assms(1) by (simp add: dropna_def)
  with assms(2) show ?thesis
    unfolding row specific_flows_of_def by (auto dest: groupby_sum_pos)
qed

lemma broad_links_value:
  assumes "broad_links nm rows = Inr ls" and "l \<in> set ls"
  shows "\<exists>row\<in>set rows. broad_link_of nm row l"
  using broad_links_rel [OF assms(1)] assms(2)
  by (metis in_set_conv_nth list_all2_conv_all_nth)

lemma specific_links_value:
  assumes "specific_links nm rows = Inr ls" and "l \<in> set ls"
  shows "\<exists>row\<in>set rows. specific_link_of nm row l"
  using specific_links_rel [OF assms(1)] assms(2)
  by (metis in_set_conv_nth list_all2_conv_all_nth)

text \<open>The parts of a successful build, gathered once.\<close>

lemma create_Some_parts:
  assumes "create_sankey_diagram df p = Inr (Some fig)"
  shows "df_filtered fig = filter_beauty df"
    and "all_flows fig = flow_rows p (filter_beauty df)"
    and "all_flows fig \<noteq> []"
    and "broad_flows fig = broad_flows_of (all_flows fig)"
    and "specific_flows fig = specific_flows_of (all_flows fig)"
    and "fameswap_categories fig =
           filter (\<lambda>cat. cat \<noteq> ''Beauty & Makeup'')
             (get_ordered_list (unique (map fameswap_category df)) FAMESWAP_ORDER)"
    and "broad_category_list fig =
           get_ordered_list (unique (map (\<lambda>((s, t), n). t) (broad_flows fig))) BROAD_CATEGORY_ORDER"
    and "specific_topics fig =
           get_ordered_list (unique (map (\<lambda>((s, t), n). t) (specific_flows fig))) SPECIFIC_TOPIC_ORDER"
    and "node_mapping fig =
           node_mapping_of (fameswap_categories fig) (broad_category_list fig) (specific_topics fig)"
    and "\<exists>ns1. fameswap_nodes (fameswap_categories fig) = Inr ns1
           \<and> nodes fig = ns1 @ broad_nodes (broad_category_list fig) @ specific_nodes (specific_topics fig)"
    and "\<exists>ls1 ls2.
           broad_links (node_mapping fig)
             (sort_flows (fameswap_categories fig) (broad_category_list fig) (broad_flows fig)) = Inr ls1
           \<and> specific_links (node_mapping fig)
             (sort_flows (broad_category_list fig) (specific_topics fig) (specific_flows fig)) = Inr ls2
           \<and> links fig = ls1 @ ls2"
proof -
  from assms have ne: "flow_rows p (filter_beauty df) \<noteq> []"
    and b: "build_figure df (filter_beauty df) (flow_rows p (filter_beauty df)) = Inr fig"
    by (simp_all add: create_sankey_diagram_Some)
  note f = build_figure_fields [OF b]
  show "df_filtered fig = filter_beauty df" by (rule f(1))
  show "all_flows fig = flow_rows p (filter_beauty df)" by (rule f(2))
  show "all_flows fig \<noteq> []" using f(2) ne by simp
  show "broad_flows fig = broad_flows_of (all_flows fig)" using f(2) f(3) by simp
  show "specific_flows fig = specific_flows_of (all_flows fig)" using f(2) f(4) by simp
  show "fameswap_categories fig =
           filter (\<lambda>cat. cat \<noteq> ''Beauty & Makeup'')
             (get_ordered_list (unique (map fameswap_category df)) FAMESWAP_ORDER)" by (rule f(5))
  show "broad_category_list fig =
           get_ordered_list (unique (map (\<lambda>((s, t), n). t) (broad_flows fig))) BROAD_CATEGORY_ORDER"
    by (rule f(6))
  show "specific_topics fig =
           get_ordered_list (unique (map (\<lambda>((s, t), n). t) (specific_flows fig))) SPECIFIC_TOPIC_ORDER"
    by (rule f(7))
  show "node_mapping fig =
           node_mapping_of (fameswap_categories fig) (broad_category_list fig) (specific_topics fig)"
    by (rule f(8))
  show "\<exists>ns1. fameswap_nodes (fameswap_categories fig) = Inr ns1
           \<and> nodes fig = ns1 @ broad_nodes (broad_category_list fig) @ specific_nodes (specific_topics fig)"
    by (rule f(9))
  show "\<exists>ls1 ls2.
           broad_links (node_mapping fig)
             (sort_flows (fameswap_categories fig) (broad_category_list fig) (broad_flows fig)) = Inr ls1
           \<and> specific_links (node_mapping fig)
             (sort_flows (broad_category_list fig) (specific_topics fig) (specific_flows fig)) = Inr ls2
           \<and> links fig = ls1 @ ls2"
    by (rule f(10))
qed

lemma create_Some_flow_pos:
  assumes "create_sankey_diagram df p = Inr (Some fig)"
  shows "\<forall>f\<in>set (all_flows fig). 0 < flow_count f"
  using create_Some_parts(2) [OF assms] flow_rows_facts(2) by simp

text \<open>
  On the frames of this model, whose primary category is a column of strings, every link
  of a built figure has a strictly positive value in either mode, and so have all rows of
  the aggregated frames the links are made from: every group \<^verbatim>\<open>groupby\<close> forms there holds a
  row. The source itself drops no row by its \<^verbatim>\<open>count\<close>; the groups of value 0 that
  \<^verbatim>\<open>groupby\<close> forms on a column of dtype category (pandas up to version 2) are not frames
  of this model, and the theorem says nothing of them.
\<close>

theorem link_values_positive:
  assumes "create_sankey_diagram df proportional = Inr (Some fig)"
  shows "(\<forall>l\<in>set (links fig). 0 < link_value l)
       \<and> (\<forall>row\<in>set (broad_flows fig). 0 < snd row)
       \<and> (\<forall>row\<in>set (specific_flows fig). 0 < snd row)
       \<and> (\<forall>f\<in>set (all_flows fig). 0 < flow_count f)"
proof -
  note parts = create_Some_parts [OF assms]
  have pos: "\<forall>f\<in>set (all_flows fig). 0 < flow_count f"
    by (rule create_Some_flow_pos [OF assms])
  have bf: "\<forall>row\<in>set (broad_flows fig). 0 < snd row"
    unfolding parts(4) using broad_flows_of_pos [OF pos] by blast
  have sf: "\<forall>row\<in>set (specific_flows fig). 0 < snd row"
    unfolding parts(5) using specific_flows_of_pos [OF pos] by blast
  from parts(11) obtain ls1 ls2 where
    ls1: "broad_links (node_mapping fig)
             (sort_flows (fameswap_categories fig) (broad_category_list fig) (broad_flows fig)) = Inr ls1"
    and ls2: "specific_links (node_mapping fig)
             (sort_flows (broad_category_list fig) (specific_topics fig) (specific_flows fig)) = Inr ls2"
    and ls: "links fig = ls1 @ ls2" by blast
  have "\<forall>l\<in>set (links fig). 0 < link_value l"
  proof
    fix l assume "l \<in> set (links fig)"
    then consider "l \<in> set ls1" | "l \<in> set ls2" unfolding ls by auto
    then show "0 < link_value l"
    proof cases
      case 1
      from broad_links_value [OF ls1 1] obtain row where
        "row \<in> set (broad_flows fig)" "link_value l = snd row"
        by (auto simp: set_sort_flows broad_link_of_def)
      with bf show ?thesis by simp
    next
      case 2
      from specific_links_value [OF ls2 2] obtain row where
        "row \<in> set (specific_flows fig)" "link_value l = snd row"
        by (auto simp: set_sort_flows specific_link_of_def)
      with sf show ?thesis by simp
    qed
  qed
  with bf sf pos show ?thesis by blast
qed


lemma map_sum_SomeD:
  "map_sum id (map_option f) r = Inr (Some v) \<Longrightarrow> \<exists>fig. r = Inr (Some fig) \<and> f fig = v"
  by (cases r) auto

text \<open>The links of the example frame in binary mode, evaluated.\<close>

lemma example_binary_links:
  "map_sum id (map_option links) (create_sankey_diagram example_frame False) =
     Inr (Some
       [\<lparr>link_source = 0, link_target = 3, link_value = 2, link_color = ''rgba(255, 107, 107, 0.6)''\<rparr>,
        \<lparr>link_source = 0, link_target = 4, link_value = 1, link_color = ''rgba(78, 205, 196, 0.6)''\<rparr>,
        \<lparr>link_source = 1, link_target = 2, link_value = 1, link_color = ''rgba(0,0,0,0)''\<rparr>,
        \<lparr>link_source = 2, link_target = 5, link_value = 1, link_color = ''rgba(0,0,0,0)''\<rparr>,
        \<lparr>link_source = 3, link_target = 6, link_value = 1, link_color = ''rgba(236, 112, 99, 0.6)''\<rparr>,
        \<lparr>link_source = 3, link_target = 7, link_value = 1, link_color = ''rgba(215, 189, 226, 0.6)''\<rparr>,
        \<lparr>link_source = 4, link_target = 8, link_value = 1, link_color = ''rgba(69, 183, 209, 0.6)''\<rparr>])"
  by code_simp

theorem link_values_positive_witness:
  "\<exists>fig. create_sankey_diagram example_frame False = Inr (Some fig)
     \<and> links fig ! 0 \<in> set (links fig)
     \<and> link_value (links fig ! 0) = 2
     \<and> 0 < link_value (links fig ! 0)"
proof -
  from map_sum_SomeD [OF example_binary_links] obtain fig where
    fig: "create_sankey_diagram example_frame False = Inr (Some fig)"
    and ls: "links fig =
       [\<lparr>link_source = 0, link_target = 3, link_value = 2, link_color = ''rgba(255, 107, 107, 0.6)''\<rparr>,
        \<lparr>link_source = 0, link_target = 4, link_value = 1, link_color = ''rgba(78, 205, 196, 0.6)''\<rparr>,
        \<lparr>link_source = 1, link_target = 2, link_value = 1, link_color = ''rgba(0,0,0,0)''\<rparr>,
        \<lparr>link_source = 2, link_target = 5, link_value = 1, link_color = ''rgba(0,0,0,0)''\<rparr>,
        \<lparr>link_source = 3, link_target = 6, link_value = 1, link_color = ''rgba(236, 112, 99, 0.6)''\<rparr>,
        \<lparr>link_source = 3, link_target = 7, link_value = 1, link_color = ''rgba(215, 189, 226, 0.6)''\<rparr>,
        \<lparr>link_source = 4, link_target = 8, link_value = 1, link_color = ''rgba(69, 183, 209, 0.6)''\<rparr>]"
    by blast
  have mem: "links fig ! 0 \<in> set (links fig)" by (simp add: ls)
  have val: "link_value (links fig ! 0) = 2" by (simp add: ls)
  from link_values_positive [OF fig] mem have "0 < link_value (links fig ! 0)" by blast
  with fig mem val show ?thesis by blast
qed


subsection \<open>Proportional weights of one row\<close>


lemma sum_list_if_const:
  fixes w :: rat
  shows "sum_list (map (\<lambda>c. if P c then w else 0) cols) = of_nat (length (filter P cols)) * w"
  by (induction cols) (auto simp: algebra_simps)



lemma nth_df_normalized:
  "i < length dff \<Longrightarrow>
   df_normalized dff ! i = normalize_row topic_columns (topic_sums (dff ! i)) (dff ! i)"
  by (simp add: df_normalized_def)

lemma sum_list_filter_pos:
  fixes v :: "'r \<Rightarrow> rat"
  assumes "\<forall>r\<in>set rows. 0 \<le> v r"
  shows "sum_list (map v (filter (\<lambda>r. P r) (filter (\<lambda>r. 0 < v r) rows)))
       = sum_list (map v (filter P rows))"
  using assms by (induction rows) (auto simp: less_le)

lemma df_normalized_cell_nonneg:
  assumes "c \<in> set topic_columns" and "nr \<in> set (df_normalized dff)"
  shows "0 \<le> cell nr c"
proof -
  from assms(2) obtain r where "nr = normalize_row topic_columns (topic_sums r) r"
    by (auto simp: df_normalized_def)
  then show ?thesis by (simp add: df_normalized_cell [OF assms(1)])
qed

text \<open>
  In proportional mode the weight of a flow is the sum, over the rows of its primary
  category, of the normalized cells of its topic column.
\<close>

lemma proportional_flow_weight:
  assumes c: "c \<in> set topic_columns" and f: "f \<in> set (col_flows True dff c)"
  shows "flow_count f =
     sum_list (map (\<lambda>nr. cell nr c)
       (filter (\<lambda>nr. fameswap_category nr = flow_category f) (df_normalized dff)))"
proof -
  from f obtain k v where
    kv: "(k, v) \<in> set (groupby_sum fameswap_category (\<lambda>r. cell r c)
            (filter (\<lambda>r. cell r c > 0) (df_normalized dff)))"
    and fk: "flow_category f = k" and fv: "flow_count f = v"
    by (auto simp: col_flows_def proportional_col_def in_mk_flows_iff)
  from kv have "v = sum_list (map (\<lambda>r. cell r c)
      (filter (\<lambda>r. fameswap_category r = k) (filter (\<lambda>r. cell r c > 0) (df_normalized dff))))"
    by (simp add: in_groupby_sum_iff)
  also have "\<dots> = sum_list (map (\<lambda>r. cell r c)
      (filter (\<lambda>r. fameswap_category r = k) (df_normalized dff)))"
    by (rule sum_list_filter_pos) (simp add: df_normalized_cell_nonneg [OF c])
  finally show ?thesis by (simp add: fk fv)
qed


subsection \<open>Nodes\<close>

lemma fameswap_nodes_nth:
  assumes "fameswap_nodes cats = Inr ns" and "i < length cats"
  shows "node_x (ns ! i) = 1 / 100"
    and "node_color (ns ! i) = ''#A1B2B9''"
    and "node_label (ns ! i) = dict_get FAMESWAP_LABELS (cats ! i) (cats ! i)"
  using assms
  by (auto simp: fameswap_nodes_def Let_def nth_enumerate_eq split: if_splits)

lemma length_broad_nodes [simp]: "length (broad_nodes bl) = length bl"
  by (simp add: broad_nodes_def)

lemma length_specific_nodes [simp]: "length (specific_nodes st) = length st"
  by (simp add: specific_nodes_def)

lemma broad_nodes_nth:
  assumes "i < length bl"
  shows "node_x (broad_nodes bl ! i) = (if bl ! i \<in> invisible_nodes then 3 / 10 else 1 / 2)"
    and "bl ! i \<in> invisible_nodes \<Longrightarrow>
           node_label (broad_nodes bl ! i) = [] \<and> node_color (broad_nodes bl ! i) = ''rgba(0,0,0,0)''"
  using assms by (simp_all add: broad_nodes_def)

lemma specific_nodes_nth:
  assumes "i < length st"
  shows "node_x (specific_nodes st ! i) = (if st ! i \<in> invisible_nodes then 2 else 4 / 5)"
    and "st ! i \<in> invisible_nodes \<Longrightarrow>
           node_label (specific_nodes st ! i) = [] \<and> node_color (specific_nodes st ! i) = ''rgba(0,0,0,0)''"
  using assms by (simp_all add: specific_nodes_def)

text \<open>The node at an index, by the loop that appended it.\<close>

lemma create_Some_nodes:
  assumes "create_sankey_diagram df p = Inr (Some fig)"
  shows "length (nodes fig) =
           length (fameswap_categories fig) + length (broad_category_list fig)
             + length (specific_topics fig)"
    and "i < length (fameswap_categories fig) \<Longrightarrow>
           node_x (nodes fig ! i) = 1 / 100"
    and "length (fameswap_categories fig) \<le> i \<Longrightarrow>
         i < length (fameswap_categories fig) + length (broad_category_list fig) \<Longrightarrow>
           nodes fig ! i = broad_nodes (broad_category_list fig) ! (i - length (fameswap_categories fig))
           \<and> node_category fig i = broad_category_list fig ! (i - length (fameswap_categories fig))"
    and "length (fameswap_categories fig) + length (broad_category_list fig) \<le> i \<Longrightarrow>
         i < length (nodes fig) \<Longrightarrow>
           nodes fig ! i = specific_nodes (specific_topics fig)
              ! (i - length (fameswap_categories fig) - length (broad_category_list fig))
           \<and> node_category fig i = specific_topics fig
              ! (i - length (fameswap_categories fig) - length (broad_category_list fig))"
proof -
  let ?fc = "fameswap_categories fig" and ?bl = "broad_category_list fig"
    and ?st = "specific_topics fig"
  from create_Some_parts(10) [OF assms] obtain ns1 where
    ns1: "fameswap_nodes ?fc = Inr ns1"
    and ns: "nodes fig = ns1 @ broad_nodes ?bl @ specific_nodes ?st" by blast
  have len1: "length ns1 = length ?fc" using ns1 by (rule fameswap_nodes_length)
  show len: "length (nodes fig) = length ?fc + length ?bl + length ?st"
    by (simp add: ns len1)
  show "node_x (nodes fig ! i) = 1 / 100" if "i < length ?fc"
    using that fameswap_nodes_nth(1) [OF ns1 that] by (simp add: ns nth_append len1)
  show "nodes fig ! i = broad_nodes ?bl ! (i - length ?fc)
      \<and> node_category fig i = ?bl ! (i - length ?fc)"
    if "length ?fc \<le> i" "i < length ?fc + length ?bl"
  proof -
    have "nodes fig ! i = broad_nodes ?bl ! (i - length ns1)"
      unfolding ns using that len1 by (intro nth_append3_mid) simp_all
    moreover have "node_category fig i = ?bl ! (i - length ?fc)"
      unfolding node_category_def using that by (rule nth_append3_mid)
    ultimately show ?thesis by (simp add: len1)
  qed
  show "nodes fig ! i = specific_nodes ?st ! (i - length ?fc - length ?bl)
      \<and> node_category fig i = ?st ! (i - length ?fc - length ?bl)"
    if "length ?fc + length ?bl \<le> i" "i < length (nodes fig)"
  proof -
    have "nodes fig ! i = specific_nodes ?st ! (i - length ns1 - length (broad_nodes ?bl))"
      unfolding ns using that len1 by (intro nth_append3_last) simp
    moreover have "node_category fig i = ?st ! (i - length ?fc - length ?bl)"
      unfolding node_category_def using that(1) by (rule nth_append3_last)
    ultimately show ?thesis by (simp add: len1)
  qed
qed

text \<open>
  C8 (as stated, refuted). The example frame in binary mode yields nine nodes whose x
  positions take five values: the invisible node of the middle column is at 0.3 and the
  visible ones at 0.5, the invisible node of the right column at 2 and the visible ones
  at 0.8.
\<close>

theorem example_x_positions:
  "map_sum id (map_option (map node_x \<circ> nodes)) (create_sankey_diagram example_frame False) =
     Inr (Some [1 / 100, 1 / 100, 3 / 10, 1 / 2, 1 / 2, 2, 4 / 5, 4 / 5, 4 / 5])"
  by code_simp

text \<open>
  C8 (amended). In every built figure a level-1 node is at x = 0.01; a level-2 node is at
  0.5, or at 0.3 when it is invisible; a level-3 node is at 0.8, or at 2 when it is
  invisible. So x takes up to five values, not three, and the invisible nodes do not share
  the column of the visible nodes of their level; but x is strictly increasing by level:
  a node of a lower level always lies left of a node of a higher level.
\<close>

theorem node_x_by_level:
  assumes "create_sankey_diagram df proportional = Inr (Some fig)"
    and "i < length (nodes fig)"
  shows "node_x (nodes fig ! i) =
           (if node_level fig i = 1 then 1 / 100
            else if node_level fig i = 2 then (if invisible_node fig i then 3 / 10 else 5 / 10)
            else (if invisible_node fig i then 2 else 8 / 10))
       \<and> (\<forall>j. j < length (nodes fig) \<and> node_level fig i < node_level fig j \<longrightarrow>
              node_x (nodes fig ! i) < node_x (nodes fig ! j))"
proof -
  let ?n1 = "length (fameswap_categories fig)" and ?n2 = "length (broad_category_list fig)"
  let ?X = "\<lambda>i. if node_level fig i = 1 then 1 / 100
            else if node_level fig i = 2 then (if invisible_node fig i then 3 / 10 else 5 / 10)
            else (if invisible_node fig i then 2 else (8 / 10 :: rat))"
  note n = create_Some_nodes [OF assms(1)]
  have x: "node_x (nodes fig ! k) = ?X k" if k: "k < length (nodes fig)" for k
  proof -
    consider "k < ?n1" | "?n1 \<le> k" "k < ?n1 + ?n2" | "?n1 + ?n2 \<le> k" by linarith
    then show ?thesis
    proof cases
      case 1
      then show ?thesis using n(2) [OF 1] by (simp add: node_level_def)
    next
      case 2
      have idx: "k - ?n1 < ?n2" using 2 by simp
      from n(3) [OF 2] broad_nodes_nth(1) [OF idx] 2 k show ?thesis
        by (simp add: node_level_def invisible_node_def)
    next
      case 3
      have idx: "k - ?n1 - ?n2 < length (specific_topics fig)" using 3 k n(1) by simp
      from n(4) [OF 3 k] specific_nodes_nth(1) [OF idx] 3 k show ?thesis
        by (simp add: node_level_def invisible_node_def)
    qed
  qed
  have "node_x (nodes fig ! i) < node_x (nodes fig ! j)"
    if "j < length (nodes fig)" "node_level fig i < node_level fig j" for j
    using that x [OF assms(2)] x [OF that(1)]
    by (simp add: node_level_def split: if_splits)
  with x [OF assms(2)] show ?thesis by blast
qed


text \<open>The example frame in binary mode: its ordered lists, sizes and one node index.\<close>

lemma example_binary_eval:
  "map_sum id
     (map_option (\<lambda>fig. (fameswap_categories fig, broad_category_list fig, specific_topics fig,
        length (nodes fig), length (broad_flows fig), node_mapping fig ''Humor & Memes'')))
     (create_sankey_diagram example_frame False) =
   Inr (Some ([''Humor & Memes'', ''Gaming & Entertainment''],
              [''Other'', ''Ideological'', ''Financial''],
              [''Not at-risk'', ''Political'', ''News'', ''Cryptocurrency''],
              9, 3, Some 0))"
  by code_simp

lemma example_binary_fig:
  "\<exists>fig. create_sankey_diagram example_frame False = Inr (Some fig)
     \<and> fameswap_categories fig = [''Humor & Memes'', ''Gaming & Entertainment'']
     \<and> broad_category_list fig = [''Other'', ''Ideological'', ''Financial'']
     \<and> specific_topics fig = [''Not at-risk'', ''Political'', ''News'', ''Cryptocurrency'']
     \<and> length (nodes fig) = 9
     \<and> length (broad_flows fig) = 3
     \<and> node_mapping fig ''Humor & Memes'' = Some 0
     \<and> links fig =
       [\<lparr>link_source = 0, link_target = 3, link_value = 2, link_color = ''rgba(255, 107, 107, 0.6)''\<rparr>,
        \<lparr>link_source = 0, link_target = 4, link_value = 1, link_color = ''rgba(78, 205, 196, 0.6)''\<rparr>,
        \<lparr>link_source = 1, link_target = 2, link_value = 1, link_color = ''rgba(0,0,0,0)''\<rparr>,
        \<lparr>link_source = 2, link_target = 5, link_value = 1, link_color = ''rgba(0,0,0,0)''\<rparr>,
        \<lparr>link_source = 3, link_target = 6, link_value = 1, link_color = ''rgba(236, 112, 99, 0.6)''\<rparr>,
        \<lparr>link_source = 3, link_target = 7, link_value = 1, link_color = ''rgba(215, 189, 226, 0.6)''\<rparr>,
        \<lparr>link_source = 4, link_target = 8, link_value = 1, link_color = ''rgba(69, 183, 209, 0.6)''\<rparr>]"
proof -
  from map_sum_SomeD [OF example_binary_eval] obtain fig where
    fig: "create_sankey_diagram example_frame False = Inr (Some fig)"
    and e: "(fameswap_categories fig, broad_category_list fig, specific_topics fig,
        length (nodes fig), length (broad_flows fig), node_mapping fig ''Humor & Memes'') =
      ([''Humor & Memes'', ''Gaming & Entertainment''],
       [''Other'', ''Ideological'', ''Financial''],
       [''Not at-risk'', ''Political'', ''News'', ''Cryptocurrency''],
       9, 3, Some 0)"
    by blast
  from example_binary_links fig have "links fig =
       [\<lparr>link_source = 0, link_target = 3, link_value = 2, link_color = ''rgba(255, 107, 107, 0.6)''\<rparr>,
        \<lparr>link_source = 0, link_target = 4, link_value = 1, link_color = ''rgba(78, 205, 196, 0.6)''\<rparr>,
        \<lparr>link_source = 1, link_target = 2, link_value = 1, link_color = ''rgba(0,0,0,0)''\<rparr>,
        \<lparr>link_source = 2, link_target = 5, link_value = 1, link_color = ''rgba(0,0,0,0)''\<rparr>,
        \<lparr>link_source = 3, link_target = 6, link_value = 1, link_color = ''rgba(236, 112, 99, 0.6)''\<rparr>,
        \<lparr>link_source = 3, link_target = 7, link_value = 1, link_color = ''rgba(215, 189, 226, 0.6)''\<rparr>,
        \<lparr>link_source = 4, link_target = 8, link_value = 1, link_color = ''rgba(69, 183, 209, 0.6)''\<rparr>]"
    by simp
  with fig e show ?thesis by (intro exI [of _ fig]) simp
qed

theorem node_x_by_level_witness:
  "\<exists>fig. create_sankey_diagram example_frame False = Inr (Some fig)
     \<and> 2 < length (nodes fig) \<and> 3 < length (nodes fig)
     \<and> node_level fig 2 = 2 \<and> invisible_node fig 2
     \<and> node_x (nodes fig ! 2) = 3 / 10
     \<and> node_level fig 3 = 2 \<and> \<not> invisible_node fig 3
     \<and> node_x (nodes fig ! 3) = 1 / 2
     \<and> node_level fig 0 < node_level fig 2
     \<and> node_x (nodes fig ! 0) < node_x (nodes fig ! 2)"
proof -
  from example_binary_fig obtain fig where
    fig: "create_sankey_diagram example_frame False = Inr (Some fig)"
    and fc: "fameswap_categories fig = [''Humor & Memes'', ''Gaming & Entertainment'']"
    and bl: "broad_category_list fig = [''Other'', ''Ideological'', ''Financial'']"
    and st: "specific_topics fig = [''Not at-risk'', ''Political'', ''News'', ''Cryptocurrency'']"
    and len: "length (nodes fig) = 9"
    by blast
  have i0: "0 < length (nodes fig)" and i2: "2 < length (nodes fig)" and i3: "3 < length (nodes fig)"
    by (simp_all add: len)
  have l0: "node_level fig 0 = 1" and l2: "node_level fig 2 = 2" and l3: "node_level fig 3 = 2"
    by (simp_all add: node_level_def fc bl)
  have v2: "invisible_node fig 2" and v3: "\<not> invisible_node fig 3"
    by (simp_all add: invisible_node_def node_category_def fc bl st len invisible_nodes_def)
  from node_x_by_level [OF fig i2] l2 v2 have x2: "node_x (nodes fig ! 2) = 3 / 10" by simp
  from node_x_by_level [OF fig i3] l3 v3 have x3: "node_x (nodes fig ! 3) = 1 / 2" by simp
  from node_x_by_level [OF fig i0] i2 l0 l2
  have lt: "node_x (nodes fig ! 0) < node_x (nodes fig ! 2)" by simp
  from fig i2 i3 l2 v2 x2 l3 v3 x3 l0 lt show ?thesis
    by (intro exI [of _ fig]) simp
qed


subsection \<open>The excluded category\<close>

lemma filter_sorted_list_of_set:
  "finite A \<Longrightarrow> filter P (sorted_list_of_set A) = sorted_list_of_set {x \<in> A. P x}"
  by (intro sorted_distinct_set_unique) (auto intro: sorted_filter [where f = "\<lambda>x. x", simplified])

lemma fameswap_categories_filter_beauty:
  "filter (\<lambda>cat. cat \<noteq> ''Beauty & Makeup'')
     (get_ordered_list (unique (map fameswap_category (filter_beauty df))) FAMESWAP_ORDER)
   = filter (\<lambda>cat. cat \<noteq> ''Beauty & Makeup'')
     (get_ordered_list (unique (map fameswap_category df)) FAMESWAP_ORDER)"
proof -
  let ?S = "fameswap_category ` set df" and ?B = "''Beauty & Makeup''"
  have S': "set (unique (map fameswap_category (filter_beauty df))) = ?S - {?B}"
    by (simp add: set_unique set_filter_beauty del: image_set)
  have S: "set (unique (map fameswap_category df)) = ?S"
    by (simp add: set_unique)
  have a: "filter (\<lambda>cat. cat \<noteq> ?B) (filter (\<lambda>x. x \<in> ?S - {?B}) (unique FAMESWAP_ORDER))
      = filter (\<lambda>cat. cat \<noteq> ?B) (filter (\<lambda>x. x \<in> ?S) (unique FAMESWAP_ORDER))"
    by (auto intro: filter_cong)
  have b: "filter (\<lambda>cat. cat \<noteq> ?B) (sorted_list_of_set (?S - {?B} - set FAMESWAP_ORDER))
      = filter (\<lambda>cat. cat \<noteq> ?B) (sorted_list_of_set (?S - set FAMESWAP_ORDER))"
    by (simp add: filter_sorted_list_of_set) (rule arg_cong [where f = sorted_list_of_set], auto)
  show ?thesis
    unfolding get_ordered_list_eq S S' by (simp only: filter_append a b)
qed

lemma filter_beauty_idem: "filter_beauty (filter_beauty df) = filter_beauty df"
  by (simp add: filter_beauty_def)

lemma build_figure_filter_beauty:
  "build_figure (filter_beauty df) dff flows = build_figure df dff flows"
  unfolding build_figure_def by (simp only: fameswap_categories_filter_beauty)

lemma create_sankey_diagram_filter_beauty:
  "create_sankey_diagram (filter_beauty df) p = create_sankey_diagram df p"
  unfolding create_sankey_diagram_def
  by (simp only: filter_beauty_idem build_figure_filter_beauty)

text \<open>The labels that occur in the aggregated frames and in the three ordered lists.\<close>

lemma create_Some_labels:
  assumes "create_sankey_diagram df p = Inr (Some fig)"
  shows "set (fameswap_categories fig) = fameswap_category ` set df - {''Beauty & Makeup''}"
    and "set (broad_category_list fig) = (\<lambda>row. snd (fst row)) ` set (broad_flows fig)"
    and "set (specific_topics fig) = (\<lambda>row. snd (fst row)) ` set (specific_flows fig)"
    and "row \<in> set (broad_flows fig) \<Longrightarrow>
           fst (fst row) \<in> set (fameswap_categories fig) \<and> snd (fst row) \<in> set (broad_category_list fig)"
    and "row \<in> set (specific_flows fig) \<Longrightarrow>
           fst (fst row) \<in> set (broad_category_list fig) \<and> snd (fst row) \<in> set (specific_topics fig)"
    and "set (broad_category_list fig) \<subseteq> {''Ideological'', ''Financial'', ''Other''}"
    and "set (specific_topics fig) \<subseteq> set SPECIFIC_TOPIC_ORDER"
proof -
  note parts = create_Some_parts [OF assms]
  let ?fl = "flow_rows p (filter_beauty df)"
  show fc: "set (fameswap_categories fig) = fameswap_category ` set df - {''Beauty & Makeup''}"
    unfolding parts(6) by (rule set_fameswap_categories)
  show bl: "set (broad_category_list fig) = (\<lambda>row. snd (fst row)) ` set (broad_flows fig)"
    unfolding parts(7) by (simp add: set_get_ordered_list set_unique snd_key_eq)
  show st: "set (specific_topics fig) = (\<lambda>row. snd (fst row)) ` set (specific_flows fig)"
    unfolding parts(8) by (simp add: set_get_ordered_list set_unique snd_key_eq)
  have bk: "\<exists>g\<in>set ?fl. fst row = (flow_category g, the (broad_category g))"
    if "row \<in> set (broad_flows fig)" for row
  proof -
    from that have "fst row \<in> fst ` set (broad_flows_of ?fl)"
      unfolding parts(4) parts(2) by blast
    then show ?thesis unfolding keys_broad_flows_of dropna_flow_rows by auto
  qed
  have sk: "\<exists>g\<in>set ?fl. fst row = (the (broad_category g), specific_topic g)"
    if "row \<in> set (specific_flows fig)" for row
  proof -
    from that have "fst row \<in> fst ` set (specific_flows_of ?fl)"
      unfolding parts(5) parts(2) by blast
    then show ?thesis unfolding keys_specific_flows_of dropna_flow_rows by auto
  qed
  have in_bl: "the (broad_category g) \<in> set (broad_category_list fig)" if "g \<in> set ?fl" for g
  proof -
    have "(flow_category g, the (broad_category g)) \<in> fst ` set (broad_flows_of ?fl)"
      unfolding keys_broad_flows_of dropna_flow_rows using that by blast
    then show ?thesis unfolding bl parts(4) parts(2) by force
  qed
  show "fst (fst row) \<in> set (fameswap_categories fig) \<and> snd (fst row) \<in> set (broad_category_list fig)"
    if "row \<in> set (broad_flows fig)"
  proof -
    from bk [OF that] obtain g where g: "g \<in> set ?fl"
      and k: "fst row = (flow_category g, the (broad_category g))" by blast
    have "flow_category g \<in> fameswap_category ` set df - {''Beauty & Makeup''}"
      using flow_rows_facts(1) [OF g] by (simp only: set_filter_beauty)
    then have "fst (fst row) \<in> set (fameswap_categories fig)" unfolding fc using k by simp
    moreover have "snd (fst row) \<in> set (broad_category_list fig)" unfolding bl using that by blast
    ultimately show ?thesis by blast
  qed
  show "fst (fst row) \<in> set (broad_category_list fig) \<and> snd (fst row) \<in> set (specific_topics fig)"
    if "row \<in> set (specific_flows fig)"
  proof -
    from sk [OF that] obtain g where g: "g \<in> set ?fl"
      and k: "fst row = (the (broad_category g), specific_topic g)" by blast
    from in_bl [OF g] k have "fst (fst row) \<in> set (broad_category_list fig)" by simp
    moreover have "snd (fst row) \<in> set (specific_topics fig)" unfolding st using that by blast
    ultimately show ?thesis by blast
  qed
  show "set (broad_category_list fig) \<subseteq> {''Ideological'', ''Financial'', ''Other''}"
  proof
    fix b assume "b \<in> set (broad_category_list fig)"
    then obtain row where row: "row \<in> set (broad_flows fig)" and b: "b = snd (fst row)"
      unfolding bl by blast
    from bk [OF row] obtain g where g: "g \<in> set ?fl"
      and k: "fst row = (flow_category g, the (broad_category g))" by blast
    from flow_rows_facts(4,5) [OF g] obtain b' where "topic_to_broad (specific_topic g) = Some b'"
      "broad_category g = Some b'" by auto
    with topic_to_broad_range [of "specific_topic g" b'] k b
    show "b \<in> {''Ideological'', ''Financial'', ''Other''}" by simp
  qed
  show "set (specific_topics fig) \<subseteq> set SPECIFIC_TOPIC_ORDER"
  proof
    fix t assume "t \<in> set (specific_topics fig)"
    then obtain row where row: "row \<in> set (specific_flows fig)" and t: "t = snd (fst row)"
      unfolding st by blast
    from sk [OF row] obtain g where g: "g \<in> set ?fl"
      and k: "fst row = (the (broad_category g), specific_topic g)" by blast
    from flow_rows_facts(4,5) [OF g] obtain b' where "topic_to_broad (specific_topic g) = Some b'"
      by auto
    from topic_to_broad_dom [OF this] k t show "t \<in> set SPECIFIC_TOPIC_ORDER" by simp
  qed
qed


text \<open>
  C9. The rows of \<^verbatim>\<open>Beauty & Makeup\<close> have no effect on the result: the build of a frame
  equals the build of the frame without those rows, so every flow, node and link made from
  the rows of the other primary categories is what it would be if the excluded rows were
  absent. In a built figure the excluded category is no level-1 node (nor any node), it has
  no node index, and no row of \<^verbatim>\<open>all_flows\<close>, \<^verbatim>\<open>broad_flows\<close> or \<^verbatim>\<open>specific_flows\<close>, hence no
  link, names it.
\<close>

theorem excluded_category_removed:
  "create_sankey_diagram df proportional = create_sankey_diagram (filter_beauty df) proportional
   \<and> (create_sankey_diagram df proportional = Inr (Some fig) \<longrightarrow>
        ''Beauty & Makeup'' \<notin> set (fameswap_categories fig)
      \<and> ''Beauty & Makeup'' \<notin> set (broad_category_list fig)
      \<and> ''Beauty & Makeup'' \<notin> set (specific_topics fig)
      \<and> node_mapping fig ''Beauty & Makeup'' = None
      \<and> (\<forall>r\<in>set (df_filtered fig). fameswap_category r \<noteq> ''Beauty & Makeup'')
      \<and> (\<forall>f\<in>set (all_flows fig). flow_category f \<noteq> ''Beauty & Makeup'')
      \<and> (\<forall>row\<in>set (broad_flows fig).
            fst (fst row) \<noteq> ''Beauty & Makeup'' \<and> snd (fst row) \<noteq> ''Beauty & Makeup'')
      \<and> (\<forall>row\<in>set (specific_flows fig).
            fst (fst row) \<noteq> ''Beauty & Makeup'' \<and> snd (fst row) \<noteq> ''Beauty & Makeup''))"
proof (intro conjI impI)
  show "create_sankey_diagram df proportional = create_sankey_diagram (filter_beauty df) proportional"
    by (simp only: create_sankey_diagram_filter_beauty)
next
  assume fig: "create_sankey_diagram df proportional = Inr (Some fig)"
  note parts = create_Some_parts [OF fig] and labels = create_Some_labels [OF fig]
  let ?B = "''Beauty & Makeup''"
  show fc: "?B \<notin> set (fameswap_categories fig)" unfolding labels(1) by simp
  show bl: "?B \<notin> set (broad_category_list fig)" using labels(6) by auto
  show st: "?B \<notin> set (specific_topics fig)"
    using labels(7) by (auto simp: SPECIFIC_TOPIC_ORDER_def)
  have "?B \<notin> dom (node_mapping fig)"
    unfolding parts(9) node_mapping_of_dom using fc bl st by simp
  then show "node_mapping fig ?B = None" by blast
  show "\<forall>r\<in>set (df_filtered fig). fameswap_category r \<noteq> ?B"
    unfolding parts(1) by (simp add: filter_beauty_def)
  show "\<forall>f\<in>set (all_flows fig). flow_category f \<noteq> ?B"
  proof
    fix f assume "f \<in> set (all_flows fig)"
    then have "flow_category f \<in> fameswap_category ` set (filter_beauty df)"
      unfolding parts(2) by (rule flow_rows_facts(1))
    then show "flow_category f \<noteq> ?B" by (simp only: set_filter_beauty) blast
  qed
  show "\<forall>row\<in>set (broad_flows fig). fst (fst row) \<noteq> ?B \<and> snd (fst row) \<noteq> ?B"
    using labels(4) fc bl by metis
  show "\<forall>row\<in>set (specific_flows fig). fst (fst row) \<noteq> ?B \<and> snd (fst row) \<noteq> ?B"
    using labels(5) bl st by metis
qed

theorem excluded_category_removed_witness:
  "\<exists>fig. mk_row ''Beauty & Makeup'' [''political_content''] \<in> set example_frame
     \<and> create_sankey_diagram example_frame False = Inr (Some fig)
     \<and> create_sankey_diagram (filter_beauty example_frame) False = Inr (Some fig)
     \<and> fameswap_categories fig = [''Humor & Memes'', ''Gaming & Entertainment'']
     \<and> ''Beauty & Makeup'' \<notin> set (fameswap_categories fig)
     \<and> node_mapping fig ''Beauty & Makeup'' = None"
proof -
  from example_binary_fig obtain fig where
    fig: "create_sankey_diagram example_frame False = Inr (Some fig)"
    and fc: "fameswap_categories fig = [''Humor & Memes'', ''Gaming & Entertainment'']"
    by blast
  have r: "mk_row ''Beauty & Makeup'' [''political_content''] \<in> set example_frame"
    by (simp add: example_frame_def)
  from excluded_category_removed [of example_frame False fig] fig
  have "create_sankey_diagram (filter_beauty example_frame) False = Inr (Some fig)"
    and "''Beauty & Makeup'' \<notin> set (fameswap_categories fig)"
    and "node_mapping fig ''Beauty & Makeup'' = None"
    by simp_all
  with r fig fc show ?thesis by (intro exI [of _ fig]) simp
qed


subsection \<open>Links and node indices\<close>

lemma create_Some_links:
  assumes "create_sankey_diagram df p = Inr (Some fig)"
  shows "list_all2 (broad_link_of (node_mapping fig))
           (sort_flows (fameswap_categories fig) (broad_category_list fig) (broad_flows fig))
           (take (length (broad_flows fig)) (links fig))"
    and "list_all2 (specific_link_of (node_mapping fig))
           (sort_flows (broad_category_list fig) (specific_topics fig) (specific_flows fig))
           (drop (length (broad_flows fig)) (links fig))"
proof -
  from create_Some_parts(11) [OF assms] obtain ls1 ls2 where
    ls1: "broad_links (node_mapping fig)
             (sort_flows (fameswap_categories fig) (broad_category_list fig) (broad_flows fig)) = Inr ls1"
    and ls2: "specific_links (node_mapping fig)
             (sort_flows (broad_category_list fig) (specific_topics fig) (specific_flows fig)) = Inr ls2"
    and ls: "links fig = ls1 @ ls2" by blast
  note r1 = broad_links_rel [OF ls1] and r2 = specific_links_rel [OF ls2]
  from r1 have "length ls1 = length (broad_flows fig)"
    by (simp add: list_all2_lengthD [symmetric] length_sort_flows)
  then have "take (length (broad_flows fig)) (links fig) = ls1"
    and "drop (length (broad_flows fig)) (links fig) = ls2"
    by (simp_all add: ls)
  with r1 r2 show "list_all2 (broad_link_of (node_mapping fig))
           (sort_flows (fameswap_categories fig) (broad_category_list fig) (broad_flows fig))
           (take (length (broad_flows fig)) (links fig))"
    and "list_all2 (specific_link_of (node_mapping fig))
           (sort_flows (broad_category_list fig) (specific_topics fig) (specific_flows fig))
           (drop (length (broad_flows fig)) (links fig))"
    by simp_all
qed

lemma list_all2_witness:
  "list_all2 R xs ys \<Longrightarrow> y \<in> set ys \<Longrightarrow> \<exists>x\<in>set xs. R x y"
  by (metis in_set_conv_nth list_all2_conv_all_nth)

lemma create_Some_level1_link:
  assumes "create_sankey_diagram df p = Inr (Some fig)"
    and "l \<in> set (take (length (broad_flows fig)) (links fig))"
  shows "\<exists>row\<in>set (broad_flows fig). broad_link_of (node_mapping fig) row l"
  using list_all2_witness [OF create_Some_links(1) [OF assms(1)] assms(2)]
  by (simp add: set_sort_flows)

lemma create_Some_level2_link:
  assumes "create_sankey_diagram df p = Inr (Some fig)"
    and "l \<in> set (drop (length (broad_flows fig)) (links fig))"
  shows "\<exists>row\<in>set (specific_flows fig). specific_link_of (node_mapping fig) row l"
  using list_all2_witness [OF create_Some_links(2) [OF assms(1)] assms(2)]
  by (simp add: set_sort_flows)

lemma create_Some_distinct:
  assumes "create_sankey_diagram df p = Inr (Some fig)"
  shows "distinct (fameswap_categories fig)"
    and "distinct (broad_category_list fig)"
    and "distinct (specific_topics fig)"
    and "set (broad_category_list fig) \<inter> set (specific_topics fig) = {}"
proof -
  note parts = create_Some_parts [OF assms] and labels = create_Some_labels [OF assms]
  show "distinct (fameswap_categories fig)"
    unfolding parts(6) by (intro distinct_filter distinct_get_ordered_list)
  show "distinct (broad_category_list fig)"
    unfolding parts(7) by (rule distinct_get_ordered_list)
  show "distinct (specific_topics fig)"
    unfolding parts(8) by (rule distinct_get_ordered_list)
  have "{''Ideological'', ''Financial'', ''Other''} \<inter> set SPECIFIC_TOPIC_ORDER = {}"
    by (simp add: SPECIFIC_TOPIC_ORDER_def)
  with labels(6,7) show "set (broad_category_list fig) \<inter> set (specific_topics fig) = {}"
    by blast
qed

text \<open>Where the node index of a label lies, by the deepest list that holds the label.\<close>

lemma create_Some_index:
  assumes "create_sankey_diagram df p = Inr (Some fig)"
    and "node_mapping fig k = Some j"
  shows "j < length (nodes fig)"
    and "node_category fig j = k"
    and "k \<in> set (specific_topics fig) \<Longrightarrow> node_level fig j = 3"
    and "k \<in> set (broad_category_list fig) \<Longrightarrow> node_level fig j = 2"
    and "k \<notin> set (broad_category_list fig) \<Longrightarrow> k \<notin> set (specific_topics fig) \<Longrightarrow>
           node_level fig j = 1"
proof -
  let ?fc = "fameswap_categories fig" and ?bl = "broad_category_list fig"
    and ?st = "specific_topics fig"
  note parts = create_Some_parts [OF assms(1)]
  from assms(2) have nm: "node_mapping_of ?fc ?bl ?st k = Some j" by (simp only: parts(9))
  from node_mapping_of_last [OF nm]
  have "j < length (?fc @ ?bl @ ?st)" and c: "(?fc @ ?bl @ ?st) ! j = k" by auto
  then show "j < length (nodes fig)" by (simp add: create_Some_nodes(1) [OF assms(1)])
  show "node_category fig j = k" unfolding node_category_def by (rule c)
  show "node_level fig j = 3" if "k \<in> set ?st"
    using node_mapping_of_level3 [OF that nm] by (simp add: node_level_def)
  show "node_level fig j = 2" if "k \<in> set ?bl"
  proof -
    from that create_Some_distinct(4) [OF assms(1)] have "k \<notin> set ?st" by blast
    from node_mapping_of_level2 [OF that this nm] show ?thesis by (simp add: node_level_def)
  qed
  show "node_level fig j = 1" if "k \<notin> set ?bl" "k \<notin> set ?st"
    using node_mapping_of_level1 [OF that nm] by (simp add: node_level_def)
qed


text \<open>The collision frame in binary mode, evaluated.\<close>

lemma collision_eval:
  "map_sum id
     (map_option (\<lambda>fig. (fameswap_categories fig, broad_category_list fig, specific_topics fig,
        length (nodes fig), length (broad_flows fig), node_mapping fig ''Other'')))
     (create_sankey_diagram collision_frame False) =
   Inr (Some ([''Humor & Memes'', ''Other''], [''Other'', ''Ideological''],
              [''Not at-risk'', ''Political''], 6, 2, Some 2))"
  by code_simp

text \<open>
  C5. The law fails on the collision frame, in binary mode. The primary category \<^verbatim>\<open>Other\<close>
  has a flow to \<^verbatim>\<open>Ideological\<close>, whose link should leave the node of that primary category,
  node 1. The dictionary \<^verbatim>\<open>node_mapping\<close> is keyed by label and the loop over the broad
  categories has overwritten the entry of \<^verbatim>\<open>Other\<close> with 2, the index of the invisible
  level-2 node \<^verbatim>\<open>Other\<close> (empty label, transparent fill). The second link therefore starts
  at node 2, an invisible node, and its color, chosen from the label of its target alone,
  is \<^verbatim>\<open>rgba(255, 107, 107, 0.6)\<close>, not the transparent one.
\<close>

theorem collision_link_not_transparent:
  "map_sum id (map_option links) (create_sankey_diagram collision_frame False) =
     Inr (Some
       [\<lparr>link_source = 0, link_target = 2, link_value = 1, link_color = ''rgba(0,0,0,0)''\<rparr>,
        \<lparr>link_source = 2, link_target = 3, link_value = 1, link_color = ''rgba(255, 107, 107, 0.6)''\<rparr>,
        \<lparr>link_source = 2, link_target = 4, link_value = 1, link_color = ''rgba(0,0,0,0)''\<rparr>,
        \<lparr>link_source = 3, link_target = 5, link_value = 1, link_color = ''rgba(236, 112, 99, 0.6)''\<rparr>])
   \<and> map_sum id (map_option nodes) (create_sankey_diagram collision_frame False) =
     Inr (Some
       [\<lparr>node_label = ''Memes'', node_color = ''#A1B2B9'', node_x = 1 / 100, node_y = 1 / 20\<rparr>,
        \<lparr>node_label = ''Other'', node_color = ''#A1B2B9'', node_x = 1 / 100, node_y = 1 / 2\<rparr>,
        \<lparr>node_label = [], node_color = ''rgba(0,0,0,0)'', node_x = 3 / 10, node_y = 1 / 1000\<rparr>,
        \<lparr>node_label = [], node_color = ''#FF6B6B'', node_x = 1 / 2, node_y = 3 / 10\<rparr>,
        \<lparr>node_label = [], node_color = ''rgba(0,0,0,0)'', node_x = 2, node_y = 1 / 10000\<rparr>,
        \<lparr>node_label = ''Political'', node_color = ''#EC7063'', node_x = 4 / 5, node_y = 1 / 10\<rparr>])
   \<and> map_sum id (map_option broad_category_list) (create_sankey_diagram collision_frame False) =
     Inr (Some [''Other'', ''Ideological''])"
  by code_simp

text \<open>
  The rest of the law holds in every built figure: every invisible node has the empty
  label and the fill \<^verbatim>\<open>rgba(0,0,0,0)\<close>; every link of the second loop whose source or target
  is an invisible node, and every link of the first loop whose target is an invisible
  node, has the color \<^verbatim>\<open>rgba(0,0,0,0)\<close>. The law holds in full when no primary category is
  itself named \<^verbatim>\<open>Other\<close> or \<^verbatim>\<open>Not at-risk\<close>: then every link whose source or target is an
  invisible node has that color.
\<close>

theorem invisible_nodes_transparent:
  assumes "create_sankey_diagram df proportional = Inr (Some fig)"
  shows "(\<forall>i. invisible_node fig i \<longrightarrow>
            node_label (nodes fig ! i) = [] \<and> node_color (nodes fig ! i) = ''rgba(0,0,0,0)'')
       \<and> (\<forall>l\<in>set (drop (length (broad_flows fig)) (links fig)).
            invisible_node fig (link_source l) \<or> invisible_node fig (link_target l) \<longrightarrow>
              link_color l = ''rgba(0,0,0,0)'')
       \<and> (\<forall>l\<in>set (take (length (broad_flows fig)) (links fig)).
            invisible_node fig (link_target l) \<longrightarrow> link_color l = ''rgba(0,0,0,0)'')
       \<and> (set (fameswap_categories fig) \<inter> invisible_nodes = {} \<longrightarrow>
            (\<forall>l\<in>set (links fig).
               invisible_node fig (link_source l) \<or> invisible_node fig (link_target l) \<longrightarrow>
                 link_color l = ''rgba(0,0,0,0)''))"
proof -
  let ?n1 = "length (fameswap_categories fig)" and ?n2 = "length (broad_category_list fig)"
  let ?n = "length (broad_flows fig)"
  note n = create_Some_nodes [OF assms]
  have nodes: "node_label (nodes fig ! i) = [] \<and> node_color (nodes fig ! i) = ''rgba(0,0,0,0)''"
    if inv: "invisible_node fig i" for i
  proof -
    from inv have ge: "?n1 \<le> i" and lt: "i < length (nodes fig)"
      and c: "node_category fig i \<in> invisible_nodes"
      by (simp_all add: invisible_node_def)
    show ?thesis
    proof (cases "i < ?n1 + ?n2")
      case True
      have idx: "i - ?n1 < ?n2" using True ge by simp
      from n(3) [OF ge True] c broad_nodes_nth(2) [OF idx] show ?thesis by simp
    next
      case False
      then have ge2: "?n1 + ?n2 \<le> i" by simp
      have idx: "i - ?n1 - ?n2 < length (specific_topics fig)" using ge2 lt n(1) by simp
      from n(4) [OF ge2 lt] c specific_nodes_nth(2) [OF idx] show ?thesis by simp
    qed
  qed
  have cat: "k \<in> invisible_nodes" if "node_mapping fig k = Some j" "invisible_node fig j" for k j
    using create_Some_index(2) [OF assms that(1)] that(2) by (simp add: invisible_node_def)
  have l2: "link_color l = ''rgba(0,0,0,0)''"
    if l: "l \<in> set (drop ?n (links fig))"
      and inv: "invisible_node fig (link_source l) \<or> invisible_node fig (link_target l)" for l
  proof -
    from create_Some_level2_link [OF assms l] obtain row where
      r: "specific_link_of (node_mapping fig) row l" by blast
    then have "fst (fst row) \<in> invisible_nodes \<or> snd (fst row) \<in> invisible_nodes"
      using inv cat unfolding specific_link_of_def by blast
    with r show ?thesis unfolding specific_link_of_def by blast
  qed
  have l1t: "link_color l = ''rgba(0,0,0,0)''"
    if l: "l \<in> set (take ?n (links fig))" and inv: "invisible_node fig (link_target l)" for l
  proof -
    from create_Some_level1_link [OF assms l] obtain row where
      r: "broad_link_of (node_mapping fig) row l" by blast
    then have "snd (fst row) \<in> invisible_nodes"
      using inv cat unfolding broad_link_of_def by blast
    with r show ?thesis unfolding broad_link_of_def by blast
  qed
  have l1s: "\<not> invisible_node fig (link_source l)"
    if l: "l \<in> set (take ?n (links fig))"
      and dis: "set (fameswap_categories fig) \<inter> invisible_nodes = {}" for l
  proof
    assume inv: "invisible_node fig (link_source l)"
    from create_Some_level1_link [OF assms l] obtain row where
      row: "row \<in> set (broad_flows fig)" and r: "broad_link_of (node_mapping fig) row l" by blast
    from r inv cat have "fst (fst row) \<in> invisible_nodes" unfolding broad_link_of_def by blast
    moreover have "fst (fst row) \<in> set (fameswap_categories fig)"
      using create_Some_labels(4) [OF assms row] by blast
    ultimately show False using dis by blast
  qed
  have all: "link_color l = ''rgba(0,0,0,0)''"
    if dis: "set (fameswap_categories fig) \<inter> invisible_nodes = {}"
      and l: "l \<in> set (links fig)"
      and inv: "invisible_node fig (link_source l) \<or> invisible_node fig (link_target l)" for l
  proof -
    have "set (links fig) = set (take ?n (links fig)) \<union> set (drop ?n (links fig))"
      by (metis append_take_drop_id set_append)
    with l consider "l \<in> set (take ?n (links fig))" | "l \<in> set (drop ?n (links fig))" by blast
    then show ?thesis
    proof cases
      case 1
      with l1s [OF 1 dis] inv l1t [OF 1] show ?thesis by blast
    next
      case 2
      with l2 inv show ?thesis by blast
    qed
  qed
  from nodes l2 l1t all show ?thesis by blast
qed

theorem invisible_nodes_transparent_witness:
  "\<exists>fig. create_sankey_diagram example_frame False = Inr (Some fig)
     \<and> set (fameswap_categories fig) \<inter> invisible_nodes = {}
     \<and> links fig ! 2 \<in> set (links fig)
     \<and> link_target (links fig ! 2) = 2
     \<and> invisible_node fig 2
     \<and> link_color (links fig ! 2) = ''rgba(0,0,0,0)''
     \<and> node_label (nodes fig ! 2) = []
     \<and> node_color (nodes fig ! 2) = ''rgba(0,0,0,0)''"
proof -
  from example_binary_fig obtain fig where
    fig: "create_sankey_diagram example_frame False = Inr (Some fig)"
    and fc: "fameswap_categories fig = [''Humor & Memes'', ''Gaming & Entertainment'']"
    and bl: "broad_category_list fig = [''Other'', ''Ideological'', ''Financial'']"
    and st: "specific_topics fig = [''Not at-risk'', ''Political'', ''News'', ''Cryptocurrency'']"
    and len: "length (nodes fig) = 9"
    and ls: "links fig =
       [\<lparr>link_source = 0, link_target = 3, link_value = 2, link_color = ''rgba(255, 107, 107, 0.6)''\<rparr>,
        \<lparr>link_source = 0, link_target = 4, link_value = 1, link_color = ''rgba(78, 205, 196, 0.6)''\<rparr>,
        \<lparr>link_source = 1, link_target = 2, link_value = 1, link_color = ''rgba(0,0,0,0)''\<rparr>,
        \<lparr>link_source = 2, link_target = 5, link_value = 1, link_color = ''rgba(0,0,0,0)''\<rparr>,
        \<lparr>link_source = 3, link_target = 6, link_value = 1, link_color = ''rgba(236, 112, 99, 0.6)''\<rparr>,
        \<lparr>link_source = 3, link_target = 7, link_value = 1, link_color = ''rgba(215, 189, 226, 0.6)''\<rparr>,
        \<lparr>link_source = 4, link_target = 8, link_value = 1, link_color = ''rgba(69, 183, 209, 0.6)''\<rparr>]"
    by blast
  have dis: "set (fameswap_categories fig) \<inter> invisible_nodes = {}"
    by (simp add: fc invisible_nodes_def)
  have mem: "links fig ! 2 \<in> set (links fig)" and tgt: "link_target (links fig ! 2) = 2"
    by (simp_all add: ls)
  have inv: "invisible_node fig 2"
    by (simp add: invisible_node_def node_category_def fc bl st len invisible_nodes_def)
  from invisible_nodes_transparent [OF fig] dis mem tgt inv
  have "link_color (links fig ! 2) = ''rgba(0,0,0,0)''"
    and "node_label (nodes fig ! 2) = [] \<and> node_color (nodes fig ! 2) = ''rgba(0,0,0,0)''"
    by auto
  with fig dis mem tgt inv show ?thesis by (intro exI [of _ fig]) simp
qed


lemma collision_links:
  "map_sum id (map_option links) (create_sankey_diagram collision_frame False) =
     Inr (Some
       [\<lparr>link_source = 0, link_target = 2, link_value = 1, link_color = ''rgba(0,0,0,0)''\<rparr>,
        \<lparr>link_source = 2, link_target = 3, link_value = 1, link_color = ''rgba(255, 107, 107, 0.6)''\<rparr>,
        \<lparr>link_source = 2, link_target = 4, link_value = 1, link_color = ''rgba(0,0,0,0)''\<rparr>,
        \<lparr>link_source = 3, link_target = 5, link_value = 1, link_color = ''rgba(236, 112, 99, 0.6)''\<rparr>])"
  by code_simp

lemma collision_fig:
  "\<exists>fig. create_sankey_diagram collision_frame False = Inr (Some fig)
     \<and> fameswap_categories fig = [''Humor & Memes'', ''Other'']
     \<and> broad_category_list fig = [''Other'', ''Ideological'']
     \<and> specific_topics fig = [''Not at-risk'', ''Political'']
     \<and> length (broad_flows fig) = 2
     \<and> node_mapping fig ''Other'' = Some 2
     \<and> map link_source (links fig) = [0, 2, 2, 3]
     \<and> map link_target (links fig) = [2, 3, 4, 5]"
proof -
  from map_sum_SomeD [OF collision_eval] obtain fig where
    fig: "create_sankey_diagram collision_frame False = Inr (Some fig)"
    and e: "(fameswap_categories fig, broad_category_list fig, specific_topics fig,
        length (nodes fig), length (broad_flows fig), node_mapping fig ''Other'') =
      ([''Humor & Memes'', ''Other''], [''Other'', ''Ideological''],
       [''Not at-risk'', ''Political''], 6, 2, Some 2)"
    by blast
  from collision_links fig have "map link_source (links fig) = [0, 2, 2, 3]"
    and "map link_target (links fig) = [2, 3, 4, 5]"
    by auto
  with fig e show ?thesis by (intro exI [of _ fig]) simp
qed



lemma collision_example:
  "\<exists>fig'. create_sankey_diagram collision_frame False = Inr (Some fig')
        \<and> ''Other'' \<in> set (fameswap_categories fig') \<inter> set (broad_category_list fig')
        \<and> node_mapping fig' ''Other'' = Some 2
        \<and> node_level fig' 2 = 2
        \<and> map link_source (take (length (broad_flows fig')) (links fig')) = [0, 2]"
proof -
  obtain fig' where
    fig': "create_sankey_diagram collision_frame False = Inr (Some fig')"
    and fc: "fameswap_categories fig' = [''Humor & Memes'', ''Other'']"
    and bl: "broad_category_list fig' = [''Other'', ''Ideological'']"
    and n: "length (broad_flows fig') = 2"
    and nm: "node_mapping fig' ''Other'' = Some 2"
    and src: "map link_source (links fig') = [0, 2, 2, 3]"
    by (insert collision_fig, elim exE conjE, rule that)
  have "map link_source (take 2 (links fig')) = take 2 (map link_source (links fig'))"
    by (simp only: take_map)
  also have "\<dots> = [0, 2]" by (simp add: src)
  finally have t: "map link_source (take (length (broad_flows fig')) (links fig')) = [0, 2]"
    by (simp only: n)
  have lv: "node_level fig' 2 = 2" by (simp add: node_level_def fc bl)
  have mem: "''Other'' \<in> set (fameswap_categories fig') \<inter> set (broad_category_list fig')"
    by (simp add: fc bl)
  show ?thesis by (rule exI [of _ fig']) (intro conjI fig' mem nm lv t)
qed

lemma link_indices_from_node_mapping:
  assumes fig: "create_sankey_diagram df p = Inr (Some fig)"
  shows "list_all2 (\<lambda>row l. node_mapping fig (fst (fst row)) = Some (link_source l)
                        \<and> node_mapping fig (snd (fst row)) = Some (link_target l))
        (sort_flows (fameswap_categories fig) (broad_category_list fig) (broad_flows fig))
        (take (length (broad_flows fig)) (links fig))"
    and "list_all2 (\<lambda>row l. node_mapping fig (fst (fst row)) = Some (link_source l)
                        \<and> node_mapping fig (snd (fst row)) = Some (link_target l))
        (sort_flows (broad_category_list fig) (specific_topics fig) (specific_flows fig))
        (drop (length (broad_flows fig)) (links fig))"
proof -
  show "list_all2 (\<lambda>row l. node_mapping fig (fst (fst row)) = Some (link_source l)
                        \<and> node_mapping fig (snd (fst row)) = Some (link_target l))
        (sort_flows (fameswap_categories fig) (broad_category_list fig) (broad_flows fig))
        (take (length (broad_flows fig)) (links fig))"
    using create_Some_links(1) [OF fig]
    by (rule list_all2_mono) (simp add: broad_link_of_def)
  show "list_all2 (\<lambda>row l. node_mapping fig (fst (fst row)) = Some (link_source l)
                        \<and> node_mapping fig (snd (fst row)) = Some (link_target l))
        (sort_flows (broad_category_list fig) (specific_topics fig) (specific_flows fig))
        (drop (length (broad_flows fig)) (links fig))"
    using create_Some_links(2) [OF fig]
    by (rule list_all2_mono) (simp add: specific_link_of_def)
qed

lemma colliding_label_index:
  assumes fig: "create_sankey_diagram df p = Inr (Some fig)"
    and k: "k \<in> set (fameswap_categories fig)"
      "k \<in> set (broad_category_list fig) \<union> set (specific_topics fig)"
  shows "\<exists>j. node_mapping fig k = Some j \<and> node_category fig j = k
            \<and> node_level fig j = (if k \<in> set (specific_topics fig) then 3 else 2)"
proof -
  note parts = create_Some_parts [OF fig]
  have "k \<in> set (fameswap_categories fig @ broad_category_list fig @ specific_topics fig)"
    using k(1) by simp
  then have "k \<in> dom (node_mapping fig)"
    unfolding parts(9) node_mapping_of_dom .
  then obtain j where j: "node_mapping fig k = Some j" by blast
  note idx = create_Some_index [OF fig j]
  have "node_level fig j = (if k \<in> set (specific_topics fig) then 3 else 2)"
  proof (cases "k \<in> set (specific_topics fig)")
    case True
    with idx(3) show ?thesis by simp
  next
    case False
    with k(2) have "k \<in> set (broad_category_list fig)" by blast
    with idx(4) False show ?thesis by simp
  qed
  with j idx(2) show ?thesis by blast
qed


lemma disjoint_levels:
  assumes fig: "create_sankey_diagram df p = Inr (Some fig)"
    and dis: "set (fameswap_categories fig)
          \<inter> (set (broad_category_list fig) \<union> set (specific_topics fig)) = {}"
  shows "\<forall>i<length (nodes fig). node_mapping fig (node_category fig i) = Some i"
    and "\<forall>l\<in>set (take (length (broad_flows fig)) (links fig)).
          node_level fig (link_source l) = 1 \<and> node_level fig (link_target l) = 2"
proof -
  let ?fc = "fameswap_categories fig" and ?bl = "broad_category_list fig"
    and ?st = "specific_topics fig" and ?n = "length (broad_flows fig)"
  note parts = create_Some_parts [OF fig] and labels = create_Some_labels [OF fig]
    and dist = create_Some_distinct [OF fig]
  have d: "distinct (?fc @ ?bl @ ?st)"
    using dist dis by auto
  have len: "length (nodes fig) = length (?fc @ ?bl @ ?st)"
    by (simp add: create_Some_nodes(1) [OF fig])
  show "\<forall>i<length (nodes fig). node_mapping fig (node_category fig i) = Some i"
    unfolding parts(9) node_category_def len using node_mapping_of_distinct [OF d] by blast
  show "\<forall>l\<in>set (take ?n (links fig)).
          node_level fig (link_source l) = 1 \<and> node_level fig (link_target l) = 2"
  proof
    fix l assume l: "l \<in> set (take ?n (links fig))"
    from create_Some_level1_link [OF fig l] obtain row where
      row: "row \<in> set (broad_flows fig)"
      and s: "node_mapping fig (fst (fst row)) = Some (link_source l)"
      and t: "node_mapping fig (snd (fst row)) = Some (link_target l)"
      unfolding broad_link_of_def by blast
    from labels(4) [OF row] have inl: "fst (fst row) \<in> set ?fc" "snd (fst row) \<in> set ?bl"
      by simp_all
    with dis have "fst (fst row) \<notin> set ?bl" "fst (fst row) \<notin> set ?st" by auto
    from create_Some_index(5) [OF fig s this] create_Some_index(4) [OF fig t inl(2)]
    show "node_level fig (link_source l) = 1 \<and> node_level fig (link_target l) = 2" by simp
  qed
qed

lemma level2_links_levels:
  assumes fig: "create_sankey_diagram df p = Inr (Some fig)"
  shows "\<forall>l\<in>set (drop (length (broad_flows fig)) (links fig)).
          node_level fig (link_source l) = 2 \<and> node_level fig (link_target l) = 3"
proof
  fix l assume l: "l \<in> set (drop (length (broad_flows fig)) (links fig))"
  from create_Some_level2_link [OF fig l] obtain row where
    row: "row \<in> set (specific_flows fig)"
    and s: "node_mapping fig (fst (fst row)) = Some (link_source l)"
    and t: "node_mapping fig (snd (fst row)) = Some (link_target l)"
    unfolding specific_link_of_def by blast
  from create_Some_labels(5) [OF fig row]
  have inl: "fst (fst row) \<in> set (broad_category_list fig)" "snd (fst row) \<in> set (specific_topics fig)"
    by simp_all
  from create_Some_index(4) [OF fig s inl(1)] create_Some_index(3) [OF fig t inl(2)]
  show "node_level fig (link_source l) = 2 \<and> node_level fig (link_target l) = 3" by simp
qed


text \<open>
  C10. \<^verbatim>\<open>node_mapping\<close> is one dictionary keyed by label, filled level by level, and every
  link takes its source and target from it. The index of a label is a position of that
  label in the concatenation of the three ordered lists. When no primary category is also
  a broad category or a specific topic (the three lists are then pairwise disjoint), every
  label has the index of its own position, and the links of the first loop go from a
  level-1 node to a level-2 node; those of the second loop always go from a level-2 node
  to a level-3 node. A primary category that is also a label of a deeper list has the
  index of the deeper node, so the links that name it start there. The collision frame is
  such an input: its primary category \<^verbatim>\<open>Other\<close> has index 2, the level-2 node, and the
  link of its flow to \<^verbatim>\<open>Ideological\<close> starts at node 2.
\<close>

theorem node_mapping_single_dictionary:
  "(create_sankey_diagram df proportional = Inr (Some fig) \<longrightarrow>
      list_all2 (\<lambda>row l. node_mapping fig (fst (fst row)) = Some (link_source l)
                        \<and> node_mapping fig (snd (fst row)) = Some (link_target l))
        (sort_flows (fameswap_categories fig) (broad_category_list fig) (broad_flows fig))
        (take (length (broad_flows fig)) (links fig))
    \<and> list_all2 (\<lambda>row l. node_mapping fig (fst (fst row)) = Some (link_source l)
                        \<and> node_mapping fig (snd (fst row)) = Some (link_target l))
        (sort_flows (broad_category_list fig) (specific_topics fig) (specific_flows fig))
        (drop (length (broad_flows fig)) (links fig))
    \<and> (\<forall>k j. node_mapping fig k = Some j \<longrightarrow> j < length (nodes fig) \<and> node_category fig j = k)
    \<and> (\<forall>l\<in>set (drop (length (broad_flows fig)) (links fig)).
          node_level fig (link_source l) = 2 \<and> node_level fig (link_target l) = 3)
    \<and> (set (fameswap_categories fig)
          \<inter> (set (broad_category_list fig) \<union> set (specific_topics fig)) = {} \<longrightarrow>
          (\<forall>i<length (nodes fig). node_mapping fig (node_category fig i) = Some i)
        \<and> (\<forall>l\<in>set (take (length (broad_flows fig)) (links fig)).
              node_level fig (link_source l) = 1 \<and> node_level fig (link_target l) = 2))
    \<and> (\<forall>k\<in>set (fameswap_categories fig)
              \<inter> (set (broad_category_list fig) \<union> set (specific_topics fig)).
          \<exists>j. node_mapping fig k = Some j \<and> node_category fig j = k
            \<and> node_level fig j = (if k \<in> set (specific_topics fig) then 3 else 2)))
   \<and> (\<exists>fig'. create_sankey_diagram collision_frame False = Inr (Some fig')
        \<and> ''Other'' \<in> set (fameswap_categories fig') \<inter> set (broad_category_list fig')
        \<and> node_mapping fig' ''Other'' = Some 2
        \<and> node_level fig' 2 = 2
        \<and> map link_source (take (length (broad_flows fig')) (links fig')) = [0, 2])"
proof (rule conjI [OF _ collision_example], rule impI)
  assume fig: "create_sankey_diagram df proportional = Inr (Some fig)"
  note a = link_indices_from_node_mapping [OF fig]
  have b: "\<forall>k j. node_mapping fig k = Some j \<longrightarrow> j < length (nodes fig) \<and> node_category fig j = k"
    using create_Some_index(1,2) [OF fig] by blast
  note c = level2_links_levels [OF fig]
  have d: "set (fameswap_categories fig)
          \<inter> (set (broad_category_list fig) \<union> set (specific_topics fig)) = {} \<longrightarrow>
          (\<forall>i<length (nodes fig). node_mapping fig (node_category fig i) = Some i)
        \<and> (\<forall>l\<in>set (take (length (broad_flows fig)) (links fig)).
              node_level fig (link_source l) = 1 \<and> node_level fig (link_target l) = 2)"
    using disjoint_levels [OF fig] by blast
  have e: "\<forall>k\<in>set (fameswap_categories fig)
              \<inter> (set (broad_category_list fig) \<union> set (specific_topics fig)).
          \<exists>j. node_mapping fig k = Some j \<and> node_category fig j = k
            \<and> node_level fig j = (if k \<in> set (specific_topics fig) then 3 else 2)"
    using colliding_label_index [OF fig] by blast
  show "list_all2 (\<lambda>row l. node_mapping fig (fst (fst row)) = Some (link_source l)
                        \<and> node_mapping fig (snd (fst row)) = Some (link_target l))
        (sort_flows (fameswap_categories fig) (broad_category_list fig) (broad_flows fig))
        (take (length (broad_flows fig)) (links fig))
    \<and> list_all2 (\<lambda>row l. node_mapping fig (fst (fst row)) = Some (link_source l)
                        \<and> node_mapping fig (snd (fst row)) = Some (link_target l))
        (sort_flows (broad_category_list fig) (specific_topics fig) (specific_flows fig))
        (drop (length (broad_flows fig)) (links fig))
    \<and> (\<forall>k j. node_mapping fig k = Some j \<longrightarrow> j < length (nodes fig) \<and> node_category fig j = k)
    \<and> (\<forall>l\<in>set (drop (length (broad_flows fig)) (links fig)).
          node_level fig (link_source l) = 2 \<and> node_level fig (link_target l) = 3)
    \<and> (set (fameswap_categories fig)
          \<inter> (set (broad_category_list fig) \<union> set (specific_topics fig)) = {} \<longrightarrow>
          (\<forall>i<length (nodes fig). node_mapping fig (node_category fig i) = Some i)
        \<and> (\<forall>l\<in>set (take (length (broad_flows fig)) (links fig)).
              node_level fig (link_source l) = 1 \<and> node_level fig (link_target l) = 2))
    \<and> (\<forall>k\<in>set (fameswap_categories fig)
              \<inter> (set (broad_category_list fig) \<union> set (specific_topics fig)).
          \<exists>j. node_mapping fig k = Some j \<and> node_category fig j = k
            \<and> node_level fig j = (if k \<in> set (specific_topics fig) then 3 else 2))"
    by (intro conjI a b c d e)
qed

theorem node_mapping_single_dictionary_witness:
  "\<exists>fig. create_sankey_diagram example_frame False = Inr (Some fig)
     \<and> set (fameswap_categories fig)
          \<inter> (set (broad_category_list fig) \<union> set (specific_topics fig)) = {}
     \<and> 3 < length (nodes fig)
     \<and> node_category fig 3 = ''Ideological''
     \<and> node_mapping fig ''Ideological'' = Some 3
     \<and> links fig ! 0 \<in> set (take (length (broad_flows fig)) (links fig))
     \<and> link_source (links fig ! 0) = 0 \<and> link_target (links fig ! 0) = 3
     \<and> node_level fig 0 = 1 \<and> node_level fig 3 = 2"
proof -
  obtain fig where
    fig: "create_sankey_diagram example_frame False = Inr (Some fig)"
    and fc: "fameswap_categories fig = [''Humor & Memes'', ''Gaming & Entertainment'']"
    and bl: "broad_category_list fig = [''Other'', ''Ideological'', ''Financial'']"
    and st: "specific_topics fig = [''Not at-risk'', ''Political'', ''News'', ''Cryptocurrency'']"
    and len: "length (nodes fig) = 9"
    and n: "length (broad_flows fig) = 3"
    and hm: "node_mapping fig ''Humor & Memes'' = Some 0"
    and ls: "links fig =
       [\<lparr>link_source = 0, link_target = 3, link_value = 2, link_color = ''rgba(255, 107, 107, 0.6)''\<rparr>,
        \<lparr>link_source = 0, link_target = 4, link_value = 1, link_color = ''rgba(78, 205, 196, 0.6)''\<rparr>,
        \<lparr>link_source = 1, link_target = 2, link_value = 1, link_color = ''rgba(0,0,0,0)''\<rparr>,
        \<lparr>link_source = 2, link_target = 5, link_value = 1, link_color = ''rgba(0,0,0,0)''\<rparr>,
        \<lparr>link_source = 3, link_target = 6, link_value = 1, link_color = ''rgba(236, 112, 99, 0.6)''\<rparr>,
        \<lparr>link_source = 3, link_target = 7, link_value = 1, link_color = ''rgba(215, 189, 226, 0.6)''\<rparr>,
        \<lparr>link_source = 4, link_target = 8, link_value = 1, link_color = ''rgba(69, 183, 209, 0.6)''\<rparr>]"
    by (insert example_binary_fig, elim exE conjE, rule that)
  have dis: "set (fameswap_categories fig)
          \<inter> (set (broad_category_list fig) \<union> set (specific_topics fig)) = {}"
    by (simp add: fc bl st)
  have i3: "3 < length (nodes fig)" by (simp add: len)
  have c3: "node_category fig 3 = ''Ideological''"
    by (simp add: node_category_def fc bl st)
  have mem: "links fig ! 0 \<in> set (take (length (broad_flows fig)) (links fig))"
    by (simp add: ls n)
  have src: "link_source (links fig ! 0) = 0" and tgt: "link_target (links fig ! 0) = 3"
    by (simp_all add: ls)
  note t = node_mapping_single_dictionary [of example_frame False fig]
  from t fig dis i3 have "node_mapping fig (node_category fig 3) = Some 3" by blast
  then have nm3: "node_mapping fig ''Ideological'' = Some 3" by (simp only: c3)
  from t fig dis mem
  have "node_level fig (link_source (links fig ! 0)) = 1
      \<and> node_level fig (link_target (links fig ! 0)) = 2" by blast
  then have lv: "node_level fig 0 = 1" "node_level fig 3 = 2" by (simp_all add: src tgt)
  show ?thesis
    by (rule exI [of _ fig]) (intro conjI fig dis i3 c3 nm3 mem src tgt lv)
qed


subsection \<open>Binary mode: the weight leaving a primary category\<close>

lemma list_all2_sum_filter:
  fixes f :: "'a \<Rightarrow> rat"
  assumes "list_all2 R xs ys" and "\<And>x y. R x y \<Longrightarrow> (P x \<longleftrightarrow> Q y) \<and> f x = g y"
  shows "sum_list (map f (filter P xs)) = sum_list (map g (filter Q ys))"
  using assms by (induction rule: list_all2_induct) auto


lemma sum_filter_mset_cong:
  fixes f :: "'a \<Rightarrow> rat"
  assumes "mset xs = mset ys"
  shows "sum_list (map f (filter P xs)) = sum_list (map f (filter P ys))"
proof -
  have "sum_list (map f (filter P zs)) = sum_mset (image_mset f (filter_mset P (mset zs)))" for zs
    by (metis mset_filter mset_map sum_mset_sum_list)
  then show ?thesis using assms by simp
qed


lemma sum_filter_concat:
  fixes g :: "'a \<Rightarrow> rat"
  shows "sum_list (map g (filter P (concat xss)))
       = sum_list (map (\<lambda>xs. sum_list (map g (filter P xs))) xss)"
  by (induction xss) auto


lemma sum_category_add_broad_category:
  "sum_list (map flow_count (filter (\<lambda>f. flow_category f = cat) (add_broad_category xs)))
   = sum_list (map flow_count (filter (\<lambda>f. flow_category f = cat) xs))"
  by (induction xs) (auto simp: add_broad_category_def)


lemma sum_category_mk_flows:
  "sum_list (map flow_count (filter (\<lambda>f. flow_category f = cat) (mk_flows lab g)))
   = sum_list (map snd (filter (\<lambda>(k, v). k = cat) g))"
  by (induction g) (auto simp: mk_flows_def)


lemma sum_category_binary_col:
  "sum_list (map flow_count (filter (\<lambda>f. flow_category f = cat) (binary_col dff c)))
   = of_nat (length (filter (\<lambda>r. fameswap_category r = cat \<and> cell r c = 1) dff))"
proof -
  have "sum_list (map flow_count (filter (\<lambda>f. flow_category f = cat) (binary_col dff c)))
      = sum_list (map snd (filter (\<lambda>(k, v). k = cat)
          (groupby_sum fameswap_category (\<lambda>_. 1) (filter (\<lambda>r. cell r c = 1) dff))))"
    by (simp only: binary_col_def sum_category_mk_flows groupby_size_eq)
  also have "\<dots> = sum_list (map (\<lambda>_. 1)
      (filter (\<lambda>r. fameswap_category r = cat) (filter (\<lambda>r. cell r c = 1) dff)))"
    by (rule groupby_sum_total)
  also have "\<dots> = of_nat (length (filter (\<lambda>r. fameswap_category r = cat \<and> cell r c = 1) dff))"
    by (simp add: sum_list_triv conj_commute)
  finally show ?thesis .
qed


lemma double_count:
  "sum_list (map (\<lambda>c. of_nat (length (filter (\<lambda>r. Q r \<and> A r c) rows)) :: rat) cols)
   = sum_list (map (\<lambda>r. of_nat (length (filter (A r) cols))) (filter Q rows))"
proof (induction rows)
  case Nil
  show ?case by simp
next
  case (Cons r rows)
  have split: "sum_list (map (\<lambda>c. of_nat (length (filter (\<lambda>r. Q r \<and> A r c) (r # rows))) :: rat) cols)
      = sum_list (map (\<lambda>c. (if Q r \<and> A r c then 1 else 0) :: rat) cols)
        + sum_list (map (\<lambda>c. of_nat (length (filter (\<lambda>r. Q r \<and> A r c) rows))) cols)"
    by (induction cols) auto
  have one: "sum_list (map (\<lambda>c. (if Q r \<and> A r c then 1 else 0) :: rat) cols)
      = (if Q r then of_nat (length (filter (A r) cols)) else 0)"
    by (induction cols) auto
  show ?case unfolding split one Cons.IH by simp
qed


lemma flow_rows_category_sum:
  "sum_list (map flow_count (filter (\<lambda>f. flow_category f = cat) (flow_rows False dff)))
   = sum_list (map (\<lambda>r. of_nat (length (filter (\<lambda>c. cell r c = 1) topic_columns)))
       (filter (\<lambda>r. fameswap_category r = cat) dff))"
proof -
  have "sum_list (map flow_count (filter (\<lambda>f. flow_category f = cat) (flow_rows False dff)))
      = sum_list (map (\<lambda>c. sum_list (map flow_count
          (filter (\<lambda>f. flow_category f = cat) (binary_col dff c)))) topic_columns)"
    by (simp add: flow_rows_def sum_category_add_broad_category sum_filter_concat
        col_flows_def comp_def)
  also have "\<dots> = sum_list (map (\<lambda>c. of_nat (length
      (filter (\<lambda>r. fameswap_category r = cat \<and> cell r c = 1) dff))) topic_columns)"
    by (simp only: sum_category_binary_col)
  also have "\<dots> = sum_list (map (\<lambda>r. of_nat (length (filter (\<lambda>c. cell r c = 1) topic_columns)))
       (filter (\<lambda>r. fameswap_category r = cat) dff))"
    by (rule double_count)
  finally show ?thesis .
qed


lemma broad_flows_category_sum:
  "sum_list (map snd (filter (\<lambda>row. fst (fst row) = cat) (broad_flows_of fl)))
   = sum_list (map flow_count (filter (\<lambda>f. flow_category f = cat) (dropna fl)))"
proof -
  have "(\<lambda>row :: (string \<times> string) \<times> rat. fst (fst row) = cat) = (\<lambda>(k, v). fst k = cat)"
    by (auto simp: fun_eq_iff)
  then have "sum_list (map snd (filter (\<lambda>row. fst (fst row) = cat) (broad_flows_of fl)))
      = sum_list (map snd (filter (\<lambda>(k, v). fst k = cat) (broad_flows_of fl)))"
    by simp
  also have "\<dots> = sum_list (map flow_count
      (filter (\<lambda>f. fst (flow_category f, the (broad_category f)) = cat) (dropna fl)))"
    unfolding broad_flows_of_def by (rule groupby_sum_total)
  finally show ?thesis by simp
qed


lemma level1_links_sum:
  assumes fig: "create_sankey_diagram df p = Inr (Some fig)"
    and i: "node_mapping fig cat = Some i"
  shows "sum_list (map link_value (filter (\<lambda>l. link_source l = i)
            (take (length (broad_flows fig)) (links fig))))
       = sum_list (map snd (filter (\<lambda>row. fst (fst row) = cat) (broad_flows fig)))"
proof -
  let ?sorted = "sort_flows (fameswap_categories fig) (broad_category_list fig) (broad_flows fig)"
  have inj: "k = cat" if "node_mapping fig k = Some i" for k
    using that i unfolding create_Some_parts(9) [OF fig] by (rule node_mapping_of_inj)
  have "sum_list (map snd (filter (\<lambda>row. fst (fst row) = cat) ?sorted))
      = sum_list (map link_value (filter (\<lambda>l. link_source l = i)
            (take (length (broad_flows fig)) (links fig))))"
  proof (rule list_all2_sum_filter [OF create_Some_links(1) [OF fig]])
    fix row l assume "broad_link_of (node_mapping fig) row l"
    then have s: "node_mapping fig (fst (fst row)) = Some (link_source l)"
      and v: "link_value l = snd row"
      by (simp_all add: broad_link_of_def)
    have "fst (fst row) = cat \<longleftrightarrow> link_source l = i"
    proof
      assume "fst (fst row) = cat"
      with s i show "link_source l = i" by simp
    next
      assume "link_source l = i"
      with s have "node_mapping fig (fst (fst row)) = Some i" by simp
      then show "fst (fst row) = cat" by (rule inj)
    qed
    with v show "(fst (fst row) = cat \<longleftrightarrow> link_source l = i) \<and> snd row = link_value l"
      by simp
  qed
  moreover have "sum_list (map snd (filter (\<lambda>row. fst (fst row) = cat) ?sorted))
      = sum_list (map snd (filter (\<lambda>row. fst (fst row) = cat) (broad_flows fig)))"
    by (rule sum_filter_mset_cong) (rule mset_sort_flows)
  ultimately show ?thesis by simp
qed



lemma count_le_sum:
  "length (filter (\<lambda>r. 0 < k r) rows) \<le> sum_list (map k rows)" for k :: "'r \<Rightarrow> nat"
  by (induction rows) auto

lemma sum_eq_count_iff:
  fixes k :: "'r \<Rightarrow> nat"
  shows "sum_list (map k rows) = length (filter (\<lambda>r. 0 < k r) rows) \<longleftrightarrow> (\<forall>r\<in>set rows. k r \<le> 1)"
proof (induction rows)
  case Nil
  show ?case by simp
next
  case (Cons r rows)
  have le: "length (filter (\<lambda>r. 0 < k r) rows) \<le> sum_list (map k rows)"
    by (rule count_le_sum)
  show ?case
  proof (cases "0 < k r")
    case True
    with le Cons show ?thesis by (auto simp: le_Suc_eq)
  next
    case False
    with le Cons show ?thesis by auto
  qed
qed

lemma sum_of_nat_eq_count_iff:
  fixes k :: "'r \<Rightarrow> nat"
  shows "sum_list (map (\<lambda>r. of_nat (k r) :: rat) rows) = of_nat (length (filter (\<lambda>r. 0 < k r) rows))
     \<longleftrightarrow> (\<forall>r\<in>set rows. k r \<le> 1)"
proof -
  have "sum_list (map (\<lambda>r. of_nat (k r) :: rat) rows) = of_nat (sum_list (map k rows))"
    by (induction rows) auto
  then show ?thesis by (simp only: of_nat_eq_iff sum_eq_count_iff)
qed

lemma length_filter_pos_iff: "0 < length (filter P xs) \<longleftrightarrow> (\<exists>x\<in>set xs. P x)"
  by (simp add: filter_empty_conv)

text \<open>
  C1 (amended). In binary mode, every primary category present after the exclusion has a
  node index, and the values of the links of the first loop that start at that index add
  up to the number of cells equal to 1 in the ten processed columns (\<^verbatim>\<open>unclassified\<close>
  included) of the surviving rows of that category: a row with \<open>m\<close> active columns counts
  \<open>m\<close> times. That total is the number of the category's rows with at least one active
  column if and only if no row of the category has more than one active column.
\<close>

theorem binary_outgoing_weight:
  assumes "create_sankey_diagram df False = Inr (Some fig)"
    and "cat \<in> set (fameswap_categories fig)"
  shows "\<exists>i. node_mapping fig cat = Some i
     \<and> sum_list (map link_value (filter (\<lambda>l. link_source l = i)
            (take (length (broad_flows fig)) (links fig))))
         = sum_list (map (\<lambda>r. of_nat (length (filter (\<lambda>c. cell r c = 1) topic_columns)))
             (filter (\<lambda>r. fameswap_category r = cat) (filter_beauty df)))
     \<and> ((\<forall>r\<in>set (filter_beauty df). fameswap_category r = cat \<longrightarrow>
              length (filter (\<lambda>c. cell r c = 1) topic_columns) \<le> 1) \<longleftrightarrow>
          sum_list (map link_value (filter (\<lambda>l. link_source l = i)
            (take (length (broad_flows fig)) (links fig))))
          = of_nat (length (filter
              (\<lambda>r. fameswap_category r = cat \<and> (\<exists>c\<in>set topic_columns. cell r c = 1))
              (filter_beauty df))))"
proof -
  note parts = create_Some_parts [OF assms(1)]
  let ?dff = "filter_beauty df"
  let ?k = "\<lambda>r. length (filter (\<lambda>c. cell r c = 1) topic_columns)"
  have "cat \<in> set (fameswap_categories fig @ broad_category_list fig @ specific_topics fig)"
    using assms(2) by simp
  then have "cat \<in> dom (node_mapping fig)"
    unfolding parts(9) node_mapping_of_dom .
  then obtain i where i: "node_mapping fig cat = Some i" by blast
  let ?S = "sum_list (map link_value (filter (\<lambda>l. link_source l = i)
            (take (length (broad_flows fig)) (links fig))))"
  have "?S = sum_list (map snd (filter (\<lambda>row. fst (fst row) = cat) (broad_flows fig)))"
    by (rule level1_links_sum [OF assms(1) i])
  also have "\<dots> = sum_list (map flow_count
      (filter (\<lambda>f. flow_category f = cat) (dropna (flow_rows False ?dff))))"
    unfolding parts(4) parts(2) by (rule broad_flows_category_sum)
  also have "\<dots> = sum_list (map (\<lambda>r. of_nat (?k r)) (filter (\<lambda>r. fameswap_category r = cat) ?dff))"
    unfolding dropna_flow_rows by (rule flow_rows_category_sum)
  finally have main: "?S = sum_list (map (\<lambda>r. of_nat (?k r))
      (filter (\<lambda>r. fameswap_category r = cat) ?dff))" .
  have rows: "filter (\<lambda>r. 0 < ?k r) (filter (\<lambda>r. fameswap_category r = cat) ?dff)
        = filter (\<lambda>r. fameswap_category r = cat \<and> (\<exists>c\<in>set topic_columns. cell r c = 1)) ?dff"
    by (simp only: filter_filter length_filter_pos_iff conj_commute)
  have "(\<forall>r\<in>set ?dff. fameswap_category r = cat \<longrightarrow> ?k r \<le> 1)
      \<longleftrightarrow> (\<forall>r\<in>set (filter (\<lambda>r. fameswap_category r = cat) ?dff). ?k r \<le> 1)"
    by auto
  also have "\<dots> \<longleftrightarrow> sum_list (map (\<lambda>r. of_nat (?k r) :: rat) (filter (\<lambda>r. fameswap_category r = cat) ?dff))
        = of_nat (length (filter (\<lambda>r. 0 < ?k r) (filter (\<lambda>r. fameswap_category r = cat) ?dff)))"
    by (rule sum_of_nat_eq_count_iff [symmetric])
  also have "\<dots> \<longleftrightarrow> ?S = of_nat (length (filter
      (\<lambda>r. fameswap_category r = cat \<and> (\<exists>c\<in>set topic_columns. cell r c = 1)) ?dff))"
    by (simp only: rows main)
  finally have special: "(\<forall>r\<in>set ?dff. fameswap_category r = cat \<longrightarrow> ?k r \<le> 1)
      \<longleftrightarrow> ?S = of_nat (length (filter
      (\<lambda>r. fameswap_category r = cat \<and> (\<exists>c\<in>set topic_columns. cell r c = 1)) ?dff))" .
  from i main special show ?thesis by (intro exI [of _ i] conjI)
qed


theorem binary_outgoing_weight_witness:
  "\<exists>fig. create_sankey_diagram example_frame False = Inr (Some fig)
     \<and> ''Humor & Memes'' \<in> set (fameswap_categories fig)
     \<and> node_mapping fig ''Humor & Memes'' = Some 0
     \<and> sum_list (map link_value (filter (\<lambda>l. link_source l = 0)
            (take (length (broad_flows fig)) (links fig)))) = 3
     \<and> ''Gaming & Entertainment'' \<in> set (fameswap_categories fig)
     \<and> (\<exists>i. node_mapping fig ''Gaming & Entertainment'' = Some i
          \<and> sum_list (map link_value (filter (\<lambda>l. link_source l = i)
            (take (length (broad_flows fig)) (links fig)))) = 1)"
proof -
  obtain fig where
    fig: "create_sankey_diagram example_frame False = Inr (Some fig)"
    and fc: "fameswap_categories fig = [''Humor & Memes'', ''Gaming & Entertainment'']"
    and bl: "broad_category_list fig = [''Other'', ''Ideological'', ''Financial'']"
    and st: "specific_topics fig = [''Not at-risk'', ''Political'', ''News'', ''Cryptocurrency'']"
    and len: "length (nodes fig) = 9"
    and n: "length (broad_flows fig) = 3"
    and hm: "node_mapping fig ''Humor & Memes'' = Some 0"
    and ls: "links fig =
       [\<lparr>link_source = 0, link_target = 3, link_value = 2, link_color = ''rgba(255, 107, 107, 0.6)''\<rparr>,
        \<lparr>link_source = 0, link_target = 4, link_value = 1, link_color = ''rgba(78, 205, 196, 0.6)''\<rparr>,
        \<lparr>link_source = 1, link_target = 2, link_value = 1, link_color = ''rgba(0,0,0,0)''\<rparr>,
        \<lparr>link_source = 2, link_target = 5, link_value = 1, link_color = ''rgba(0,0,0,0)''\<rparr>,
        \<lparr>link_source = 3, link_target = 6, link_value = 1, link_color = ''rgba(236, 112, 99, 0.6)''\<rparr>,
        \<lparr>link_source = 3, link_target = 7, link_value = 1, link_color = ''rgba(215, 189, 226, 0.6)''\<rparr>,
        \<lparr>link_source = 4, link_target = 8, link_value = 1, link_color = ''rgba(69, 183, 209, 0.6)''\<rparr>]"
    by (insert example_binary_fig, elim exE conjE, rule that)
  have m1: "''Humor & Memes'' \<in> set (fameswap_categories fig)"
    and m2: "''Gaming & Entertainment'' \<in> set (fameswap_categories fig)"
    by (simp_all add: fc)
  have r1: "sum_list (map (\<lambda>r. of_nat (length (filter (\<lambda>c. cell r c = 1) topic_columns)))
             (filter (\<lambda>r. fameswap_category r = ''Humor & Memes'') (filter_beauty example_frame)))
           = (3 :: rat)"
    by (simp add: filter_beauty_def example_frame_def mk_row_def topic_columns_def)
  have h2: "\<forall>r\<in>set (filter_beauty example_frame).
      fameswap_category r = ''Gaming & Entertainment'' \<longrightarrow>
        length (filter (\<lambda>c. cell r c = 1) topic_columns) \<le> 1"
    by (simp add: filter_beauty_def example_frame_def mk_row_def topic_columns_def)
  have r2: "length (filter
      (\<lambda>r. fameswap_category r = ''Gaming & Entertainment'' \<and> (\<exists>c\<in>set topic_columns. cell r c = 1))
      (filter_beauty example_frame)) = 1"
    by (simp add: filter_beauty_def example_frame_def mk_row_def topic_columns_def)
  from binary_outgoing_weight [OF fig m1] hm r1
  have s1: "sum_list (map link_value (filter (\<lambda>l. link_source l = 0)
            (take (length (broad_flows fig)) (links fig)))) = 3"
    by auto
  from binary_outgoing_weight [OF fig m2] h2 r2
  have s2: "\<exists>i. node_mapping fig ''Gaming & Entertainment'' = Some i
          \<and> sum_list (map link_value (filter (\<lambda>l. link_source l = i)
            (take (length (broad_flows fig)) (links fig)))) = 1"
    by auto
  show ?thesis
    by (rule exI [of _ fig]) (intro conjI fig m1 hm s1 m2 s2)
qed

text \<open>
  C1 (as stated, refuted). The frame has three rows of one primary category: two with the
  same two active topics and one with only \<^verbatim>\<open>unclassified\<close>. The three links that leave
  its node (index 0) have the values 1, 2 and 2, in total 5; without the link to the
  no-signal node the total is 4. The category has 3 rows, 2 of them with an active
  explicit topic.
\<close>

theorem scenario_weight_exceeds_entities:
  "map_sum id (map_option (map link_value \<circ> links)) (create_sankey_diagram scenario_frame False) =
     Inr (Some [1, 2, 2, 1, 2, 2])
   \<and> map_sum id (map_option (map link_source \<circ> links)) (create_sankey_diagram scenario_frame False) =
     Inr (Some [0, 0, 0, 1, 2, 3])
   \<and> map_sum id (map_option (sum_list \<circ> map link_value \<circ> take 3 \<circ> links))
       (create_sankey_diagram scenario_frame False) = Inr (Some 5)
   \<and> map_sum id (map_option fameswap_categories) (create_sankey_diagram scenario_frame False) =
     Inr (Some [''Humor & Memes''])
   \<and> map_sum id (map_option (length \<circ> broad_flows)) (create_sankey_diagram scenario_frame False) =
     Inr (Some 3)
   \<and> map fameswap_category (filter_beauty scenario_frame) =
     [''Humor & Memes'', ''Humor & Memes'', ''Humor & Memes'']"
  by code_simp


subsection \<open>Proportional mode: what one row adds to the flows\<close>

lemma distinct_topic_labels:
  "distinct (map (\<lambda>c. dict_get TOPIC_LABELS c []) topic_columns)"
  by (simp add: topic_columns_def dict_get_def TOPIC_LABELS_def)

lemma topic_label_inj:
  assumes "c \<in> set topic_columns" and "c' \<in> set topic_columns"
    and "dict_get TOPIC_LABELS c [] = dict_get TOPIC_LABELS c' []"
  shows "c = c'"
  using distinct_topic_labels assms by (simp add: distinct_map inj_on_def)

lemma sum_list_single_notin:
  fixes g :: "'a \<Rightarrow> rat"
  shows "c \<notin> set cols \<Longrightarrow> sum_list (map (\<lambda>c'. if c' = c then g c' else 0) cols) = 0"
  by (induction cols) auto

lemma sum_list_single:
  fixes g :: "'a \<Rightarrow> rat"
  assumes "distinct cols" and "c \<in> set cols"
  shows "sum_list (map (\<lambda>c'. if c' = c then g c' else 0) cols) = g c"
  using assms by (induction cols) (auto simp: sum_list_single_notin)

lemma sum_pair_add_broad_category:
  "sum_list (map flow_count (filter (\<lambda>f. P (flow_category f) (specific_topic f)) (add_broad_category xs)))
   = sum_list (map flow_count (filter (\<lambda>f. P (flow_category f) (specific_topic f)) xs))"
  by (induction xs) (auto simp: add_broad_category_def)

lemma sum_topic_col_flows:
  "sum_list (map flow_count
      (filter (\<lambda>f. flow_category f = cat \<and> specific_topic f = lab) (col_flows p dff c)))
   = (if lab = dict_get TOPIC_LABELS c []
      then sum_list (map flow_count (filter (\<lambda>f. flow_category f = cat) (col_flows p dff c)))
      else 0)"
proof -
  have "filter (\<lambda>f. flow_category f = cat \<and> specific_topic f = lab) (col_flows p dff c)
      = (if lab = dict_get TOPIC_LABELS c []
         then filter (\<lambda>f. flow_category f = cat) (col_flows p dff c) else [])"
  proof (cases "lab = dict_get TOPIC_LABELS c []")
    case True
    have "filter (\<lambda>f. flow_category f = cat \<and> specific_topic f = lab) (col_flows p dff c)
        = filter (\<lambda>f. flow_category f = cat) (col_flows p dff c)"
      by (rule filter_cong) (simp_all add: True col_flows_facts(3))
    with True show ?thesis by simp
  next
    case False
    have "filter (\<lambda>f. flow_category f = cat \<and> specific_topic f = lab) (col_flows p dff c) = []"
      unfolding filter_empty_conv using False by (auto simp: col_flows_facts(3))
    with False show ?thesis by simp
  qed
  then show ?thesis by simp
qed

lemma flow_rows_topic_weight:
  assumes c: "c \<in> set topic_columns"
  shows "sum_list (map flow_count
      (filter (\<lambda>f. flow_category f = cat \<and> specific_topic f = dict_get TOPIC_LABELS c [])
         (flow_rows p dff)))
   = sum_list (map flow_count (filter (\<lambda>f. flow_category f = cat) (col_flows p dff c)))"
proof -
  let ?lab = "dict_get TOPIC_LABELS c []"
  let ?X = "\<lambda>c'. sum_list (map flow_count (filter (\<lambda>f. flow_category f = cat) (col_flows p dff c')))"
  have "sum_list (map flow_count
      (filter (\<lambda>f. flow_category f = cat \<and> specific_topic f = ?lab) (flow_rows p dff)))
      = sum_list (map flow_count
          (filter (\<lambda>f. flow_category f = cat \<and> specific_topic f = ?lab)
             (concat (map (col_flows p dff) topic_columns))))"
    unfolding flow_rows_def
    by (rule sum_pair_add_broad_category [where P = "\<lambda>k t. k = cat \<and> t = ?lab"])
  also have "\<dots> = sum_list (map (\<lambda>c'. sum_list (map flow_count
          (filter (\<lambda>f. flow_category f = cat \<and> specific_topic f = ?lab) (col_flows p dff c'))))
        topic_columns)"
    by (simp add: sum_filter_concat comp_def)
  also have "\<dots> = sum_list (map (\<lambda>c'. if c' = c then ?X c' else 0) topic_columns)"
  proof (rule arg_cong [where f = sum_list], rule map_cong [OF refl])
    fix c' assume c': "c' \<in> set topic_columns"
    have "?lab = dict_get TOPIC_LABELS c' [] \<longleftrightarrow> c' = c"
      using topic_label_inj [OF c c'] by auto
    then show "sum_list (map flow_count
          (filter (\<lambda>f. flow_category f = cat \<and> specific_topic f = ?lab) (col_flows p dff c')))
        = (if c' = c then ?X c' else 0)"
      by (simp add: sum_topic_col_flows)
  qed
  also have "\<dots> = ?X c"
    by (rule sum_list_single [OF distinct_topic_columns c])
  finally show ?thesis .
qed

lemma proportional_col_category_sum:
  assumes c: "c \<in> set topic_columns"
  shows "sum_list (map flow_count (filter (\<lambda>f. flow_category f = cat) (col_flows True dff c)))
   = sum_list (map (\<lambda>r. cell (normalize_row topic_columns (topic_sums r) r) c)
       (filter (\<lambda>r. fameswap_category r = cat) dff))"
proof -
  have "sum_list (map flow_count (filter (\<lambda>f. flow_category f = cat) (col_flows True dff c)))
      = sum_list (map snd (filter (\<lambda>(k, v). k = cat)
          (groupby_sum fameswap_category (\<lambda>r. cell r c)
             (filter (\<lambda>r. cell r c > 0) (df_normalized dff)))))"
    by (simp only: col_flows_def proportional_col_def sum_category_mk_flows if_True)
  also have "\<dots> = sum_list (map (\<lambda>r. cell r c)
      (filter (\<lambda>r. fameswap_category r = cat) (filter (\<lambda>r. cell r c > 0) (df_normalized dff))))"
    by (rule groupby_sum_total)
  also have "\<dots> = sum_list (map (\<lambda>r. cell r c)
      (filter (\<lambda>r. fameswap_category r = cat) (df_normalized dff)))"
    by (rule sum_list_filter_pos) (simp add: df_normalized_cell_nonneg [OF c])
  also have "\<dots> = sum_list (map (\<lambda>r. cell (normalize_row topic_columns (topic_sums r) r) c)
       (filter (\<lambda>r. fameswap_category r = cat) dff))"
    by (simp add: df_normalized_def filter_map comp_def)
  finally show ?thesis .
qed

lemma flow_weight_create:
  "flow_weight (create_sankey_diagram df p) cat lab =
     sum_list (map flow_count
       (filter (\<lambda>f. flow_category f = cat \<and> specific_topic f = lab) (flow_rows p (filter_beauty df))))"
proof -
  from create_sankey_diagram_total [of df p] obtain res where
    res: "create_sankey_diagram df p = Inr res" by (elim exE)
  show ?thesis
  proof (cases res)
    case None
    with res have "flow_rows p (filter_beauty df) = []"
      by (simp add: create_sankey_diagram_None_iff)
    with res None show ?thesis by (simp add: flow_weight_def)
  next
    case (Some fig)
    with res have "all_flows fig = flow_rows p (filter_beauty df)"
      by (simp add: create_Some_parts(2))
    with res Some show ?thesis by (simp add: flow_weight_def)
  qed
qed

lemma flow_weight_proportional:
  assumes c: "c \<in> set topic_columns"
  shows "flow_weight (create_sankey_diagram df True) cat (dict_get TOPIC_LABELS c []) =
     sum_list (map (\<lambda>r. cell (normalize_row topic_columns (topic_sums r) r) c)
       (filter (\<lambda>r. fameswap_category r = cat) (filter_beauty df)))"
  by (simp only: flow_weight_create flow_rows_topic_weight [OF c] proportional_col_category_sum [OF c])

lemma filter_beauty_append: "filter_beauty (xs @ ys) = filter_beauty xs @ filter_beauty ys"
  by (simp add: filter_beauty_def)

lemma filter_beauty_Cons:
  "filter_beauty (r # ys) =
     (if fameswap_category r \<noteq> ''Beauty & Makeup'' then r # filter_beauty ys else filter_beauty ys)"
  by (simp add: filter_beauty_def)

text \<open>What one surviving row adds to a flow in proportional mode.\<close>

lemma proportional_row_adds:
  assumes r: "fameswap_category r \<noteq> ''Beauty & Makeup''" and c: "c \<in> set topic_columns"
  shows "flow_weight (create_sankey_diagram (xs @ r # ys) True) cat (dict_get TOPIC_LABELS c [])
     = flow_weight (create_sankey_diagram (xs @ ys) True) cat (dict_get TOPIC_LABELS c [])
       + (if cat = fameswap_category r
          then cell (normalize_row topic_columns (topic_sums r) r) c else 0)"
  using r
  by (simp add: flow_weight_proportional [OF c] filter_beauty_append filter_beauty_Cons)



lemma sum_list_swap:
  fixes g :: "'r \<Rightarrow> 'c \<Rightarrow> rat"
  shows "sum_list (map (\<lambda>c. sum_list (map (\<lambda>r. g r c) rows)) cols)
       = sum_list (map (\<lambda>r. sum_list (map (g r) cols)) rows)"
  by (induction rows) (simp_all add: sum_list_addf)

lemma sum_all_add_broad_category:
  "sum_list (map flow_count (add_broad_category xs)) = sum_list (map flow_count xs)"
  by (induction xs) (auto simp: add_broad_category_def)

lemma sum_all_mk_flows: "sum_list (map flow_count (mk_flows lab g)) = sum_list (map snd g)"
  by (induction g) (auto simp: mk_flows_def)

lemma groupby_sum_all:
  fixes val :: "'r \<Rightarrow> rat"
  shows "sum_list (map snd (groupby_sum key val rows)) = sum_list (map val rows)"
  using groupby_sum_total [of "\<lambda>_. True" key val rows] by (simp add: case_prod_unfold)

lemma sum_list_pos_only:
  fixes v :: "'r \<Rightarrow> rat"
  assumes "\<forall>r\<in>set rows. 0 \<le> v r"
  shows "sum_list (map v (filter (\<lambda>r. 0 < v r) rows)) = sum_list (map v rows)"
  using assms by (induction rows) (auto simp: less_le)

lemma proportional_col_sum:
  assumes c: "c \<in> set topic_columns"
  shows "sum_list (map flow_count (col_flows True dff c))
   = sum_list (map (\<lambda>r. cell (normalize_row topic_columns (topic_sums r) r) c) dff)"
proof -
  have "sum_list (map flow_count (col_flows True dff c))
      = sum_list (map (\<lambda>r. cell r c) (filter (\<lambda>r. cell r c > 0) (df_normalized dff)))"
    by (simp only: col_flows_def proportional_col_def sum_all_mk_flows groupby_sum_all if_True)
  also have "\<dots> = sum_list (map (\<lambda>r. cell r c) (df_normalized dff))"
    by (rule sum_list_pos_only) (simp add: df_normalized_cell_nonneg [OF c])
  also have "\<dots> = sum_list (map (\<lambda>r. cell (normalize_row topic_columns (topic_sums r) r) c) dff)"
    by (simp add: df_normalized_def comp_def)
  finally show ?thesis .
qed

lemma flow_rows_proportional_sum:
  "sum_list (map flow_count (flow_rows True dff))
   = sum_list (map (\<lambda>r. sum_list (map (cell (normalize_row topic_columns (topic_sums r) r))
        topic_columns)) dff)"
proof -
  have "sum_list (map flow_count (flow_rows True dff))
      = sum_list (map (\<lambda>c. sum_list (map flow_count (col_flows True dff c))) topic_columns)"
    using sum_filter_concat [of flow_count "\<lambda>_. True" "map (col_flows True dff) topic_columns"]
    by (simp add: flow_rows_def sum_all_add_broad_category comp_def)
  also have "\<dots> = sum_list (map (\<lambda>c. sum_list
      (map (\<lambda>r. cell (normalize_row topic_columns (topic_sums r) r) c) dff)) topic_columns)"
    by (rule arg_cong [where f = sum_list], rule map_cong [OF refl]) (rule proportional_col_sum)
  also have "\<dots> = sum_list (map (\<lambda>r. sum_list (map (cell (normalize_row topic_columns (topic_sums r) r))
        topic_columns)) dff)"
    by (rule sum_list_swap)
  finally show ?thesis .
qed

lemma list_all2_sum:
  fixes f :: "'a \<Rightarrow> rat"
  assumes "list_all2 R xs ys" and "\<And>x y. R x y \<Longrightarrow> f x = g y"
  shows "sum_list (map f xs) = sum_list (map g ys)"
  using assms by (induction rule: list_all2_induct) auto

lemma sum_mset_cong:
  fixes f :: "'a \<Rightarrow> rat"
  assumes "mset xs = mset ys"
  shows "sum_list (map f xs) = sum_list (map f ys)"
  using sum_filter_mset_cong [OF assms, of f "\<lambda>_. True"] by simp

lemma specific_links_sum:
  assumes fig: "create_sankey_diagram df p = Inr (Some fig)"
  shows "sum_list (map link_value (drop (length (broad_flows fig)) (links fig)))
       = sum_list (map flow_count (flow_rows p (filter_beauty df)))"
proof -
  note parts = create_Some_parts [OF fig]
  let ?sorted = "sort_flows (broad_category_list fig) (specific_topics fig) (specific_flows fig)"
  have "sum_list (map snd ?sorted)
      = sum_list (map link_value (drop (length (broad_flows fig)) (links fig)))"
    by (rule list_all2_sum [OF create_Some_links(2) [OF fig]]) (simp add: specific_link_of_def)
  moreover have "sum_list (map snd ?sorted) = sum_list (map snd (specific_flows fig))"
    by (rule sum_mset_cong) (rule mset_sort_flows)
  moreover have "sum_list (map snd (specific_flows fig))
      = sum_list (map flow_count (flow_rows p (filter_beauty df)))"
    unfolding parts(5) parts(2) specific_flows_of_def groupby_sum_all dropna_flow_rows ..
  ultimately show ?thesis by simp
qed

lemma specific_link_weight_create:
  "specific_link_weight (create_sankey_diagram df p)
     = sum_list (map flow_count (flow_rows p (filter_beauty df)))"
proof -
  from create_sankey_diagram_total [of df p] obtain res where
    res: "create_sankey_diagram df p = Inr res" by (elim exE)
  show ?thesis
  proof (cases res)
    case None
    with res have "flow_rows p (filter_beauty df) = []"
      by (simp add: create_sankey_diagram_None_iff)
    with res None show ?thesis by (simp add: specific_link_weight_def)
  next
    case (Some fig)
    with res have "create_sankey_diagram df p = Inr (Some fig)" by simp
    from specific_links_sum [OF this] res Some show ?thesis
      by (simp add: specific_link_weight_def)
  qed
qed

lemma proportional_row_adds_links:
  assumes r: "fameswap_category r \<noteq> ''Beauty & Makeup''"
  shows "specific_link_weight (create_sankey_diagram (xs @ r # ys) True)
     = specific_link_weight (create_sankey_diagram (xs @ ys) True)
       + sum_list (map (cell (normalize_row topic_columns (topic_sums r) r)) topic_columns)"
  using r
  by (simp add: specific_link_weight_create flow_rows_proportional_sum
      filter_beauty_append filter_beauty_Cons)

lemma active_row_builds:
  assumes r: "fameswap_category r \<noteq> ''Beauty & Makeup''"
    and c: "c \<in> set topic_columns" and one: "cell r c = 1"
    and pos: "p \<longrightarrow> 0 < topic_sums r"
  shows "\<exists>fig. create_sankey_diagram (xs @ r # ys) p = Inr (Some fig)"
proof -
  have "r \<in> set (filter_beauty (xs @ r # ys))"
    using r by (simp add: filter_beauty_append filter_beauty_Cons)
  with c one pos have "flow_rows p (filter_beauty (xs @ r # ys)) \<noteq> []"
    unfolding flow_rows_Nil_cond by blast
  from build_figure_total [OF this] obtain fig where
    "build_figure (xs @ r # ys) (filter_beauty (xs @ r # ys))
       (flow_rows p (filter_beauty (xs @ r # ys))) = Inr fig" by (elim exE)
  with \<open>flow_rows p (filter_beauty (xs @ r # ys)) \<noteq> []\<close>
  have "create_sankey_diagram (xs @ r # ys) p = Inr (Some fig)"
    by (simp add: create_sankey_diagram_Some)
  then show ?thesis ..
qed





lemma example_frame_split:
  "example_frame =
     [] @ mk_row ''Humor & Memes'' [''political_content'', ''news_content'']
        # [mk_row ''Humor & Memes'' [''cryptocurrency_content''],
           mk_row ''Gaming & Entertainment'' [''unclassified''],
           mk_row ''Beauty & Makeup'' [''political_content'']]"
  "example_frame =
     [mk_row ''Humor & Memes'' [''political_content'', ''news_content''],
      mk_row ''Humor & Memes'' [''cryptocurrency_content'']]
     @ mk_row ''Gaming & Entertainment'' [''unclassified'']
        # [mk_row ''Beauty & Makeup'' [''political_content'']]"
  by (simp_all add: example_frame_def)


lemma topic_sums_mk_row:
  "topic_sums (mk_row cat active) = of_nat (length (filter (\<lambda>c. c \<in> set active) topic_columns))"
proof -
  have "topic_sums (mk_row cat active)
      = sum_list (map (\<lambda>c. if c \<in> set active then 1 else 0) topic_columns)"
    by (simp add: topic_sums_def mk_row_def)
  also have "\<dots> = of_nat (length (filter (\<lambda>c. c \<in> set active) topic_columns))"
    by (simp add: sum_list_if_const)
  finally show ?thesis .
qed





lemma topic_label_values:
  "dict_get TOPIC_LABELS ''political_content'' [] = ''Political''"
  "dict_get TOPIC_LABELS ''news_content'' [] = ''News''"
  "dict_get TOPIC_LABELS ''unclassified'' [] = ''Not at-risk''"
  by (simp_all add: dict_get_def TOPIC_LABELS_def)





text \<open>
  C3 (as stated, refuted). A row with every column 0, \<^verbatim>\<open>unclassified\<close> included, has no
  active explicit topic; in proportional mode it contributes to no flow at all (its
  normalized \<^verbatim>\<open>unclassified\<close> cell is 0, not 1), and a frame made of it yields no figure.
\<close>

theorem all_zero_row_has_no_signal_flow:
  "create_sankey_diagram [mk_row ''Humor & Memes'' []] True = Inr None
   \<and> cell (df_normalized (filter_beauty [mk_row ''Humor & Memes'' []]) ! 0) ''unclassified'' = 0"
proof -
  have u: "''unclassified'' \<in> set topic_columns" by (simp add: topic_columns_def)
  have "create_sankey_diagram [mk_row ''Humor & Memes'' []] True = Inr None"
    by (simp add: create_sankey_diagram_None_iff flow_rows_Nil_cond filter_beauty_def mk_row_def)
  moreover have "cell (df_normalized (filter_beauty [mk_row ''Humor & Memes'' []]) ! 0) ''unclassified'' = 0"
    by (simp add: filter_beauty_def mk_row_def df_normalized_def df_normalized_cell [OF u])
  ultimately show ?thesis by blast
qed

lemma no_signal_row_weights:
  assumes z: "\<forall>c\<in>set topic_columns. c \<noteq> ''unclassified'' \<longrightarrow> cell r c = 0"
  shows "topic_sums r = cell r ''unclassified''"
    and "\<forall>c\<in>set topic_columns. cell (normalize_row topic_columns (topic_sums r) r) c =
           (if c = ''unclassified'' then (if cell r ''unclassified'' = 1 then 1 else 0) else 0)"
proof -
  show s: "topic_sums r = cell r ''unclassified''"
    using z by (simp add: topic_sums_def topic_columns_def)
  show "\<forall>c\<in>set topic_columns. cell (normalize_row topic_columns (topic_sums r) r) c =
           (if c = ''unclassified'' then (if cell r ''unclassified'' = 1 then 1 else 0) else 0)"
  proof
    fix c assume c: "c \<in> set topic_columns"
    have "cell (normalize_row topic_columns (topic_sums r) r) c =
        (if cell r c = 1 \<and> 0 < topic_sums r then 1 / topic_sums r else 0)"
      by (rule df_normalized_cell [OF c])
    also have "\<dots> = (if c = ''unclassified'' then (if cell r ''unclassified'' = 1 then 1 else 0) else 0)"
      using z c by (auto simp: s)
    finally show "cell (normalize_row topic_columns (topic_sums r) r) c =
        (if c = ''unclassified'' then (if cell r ''unclassified'' = 1 then 1 else 0) else 0)" .
  qed
qed

text \<open>
  C3 (amended). In proportional mode the no-signal weight of a row is decided by the row's
  own \<^verbatim>\<open>unclassified\<close> cell, a column read from the frame and normalized with the other
  nine. Take a row whose primary category is not the excluded one and whose nine explicit
  topic columns are all 0, at any position of any frame. Against the run on the frame
  without the row, the weight of the flow from the row's primary category to
  \<^verbatim>\<open>Not at-risk\<close> is larger by exactly 1 when the row's \<^verbatim>\<open>unclassified\<close> cell is 1 and is
  the same otherwise; the weight of every other flow is the same; the total value of the
  links from the broad categories to the specific topics changes by the same 1 or 0; and
  when the cell is 1 the run with the row builds a figure.
\<close>

theorem no_signal_flow_weight:
  assumes "fameswap_category r \<noteq> ''Beauty & Makeup''"
    and "\<forall>c\<in>set topic_columns. c \<noteq> ''unclassified'' \<longrightarrow> cell r c = 0"
  shows "flow_weight (create_sankey_diagram (xs @ r # ys) True) (fameswap_category r) ''Not at-risk''
         = flow_weight (create_sankey_diagram (xs @ ys) True) (fameswap_category r) ''Not at-risk''
           + (if cell r ''unclassified'' = 1 then 1 else 0)
     \<and> (\<forall>cat. \<forall>c\<in>set topic_columns. \<not> (cat = fameswap_category r \<and> c = ''unclassified'') \<longrightarrow>
          flow_weight (create_sankey_diagram (xs @ r # ys) True) cat (dict_get TOPIC_LABELS c [])
          = flow_weight (create_sankey_diagram (xs @ ys) True) cat (dict_get TOPIC_LABELS c []))
     \<and> specific_link_weight (create_sankey_diagram (xs @ r # ys) True)
       = specific_link_weight (create_sankey_diagram (xs @ ys) True)
         + (if cell r ''unclassified'' = 1 then 1 else 0)
     \<and> (cell r ''unclassified'' = 1 \<longrightarrow>
          (\<exists>fig. create_sankey_diagram (xs @ r # ys) True = Inr (Some fig)))"
proof -
  let ?with = "create_sankey_diagram (xs @ r # ys) True"
  let ?without = "create_sankey_diagram (xs @ ys) True"
  let ?n = "cell (normalize_row topic_columns (topic_sums r) r)"
  let ?flag = "if cell r ''unclassified'' = 1 then 1 else 0 :: rat"
  note w = no_signal_row_weights [OF assms(2)]
  have u: "''unclassified'' \<in> set topic_columns" by (simp add: topic_columns_def)
  have lab: "dict_get TOPIC_LABELS ''unclassified'' [] = ''Not at-risk''"
    by (simp add: dict_get_def TOPIC_LABELS_def)
  have own: "flow_weight ?with (fameswap_category r) ''Not at-risk''
         = flow_weight ?without (fameswap_category r) ''Not at-risk'' + ?flag"
    using proportional_row_adds [OF assms(1) u, of xs ys "fameswap_category r"] w(2) u
    by (simp add: lab)
  have other: "flow_weight ?with cat (dict_get TOPIC_LABELS c [])
          = flow_weight ?without cat (dict_get TOPIC_LABELS c [])"
    if "c \<in> set topic_columns" and "\<not> (cat = fameswap_category r \<and> c = ''unclassified'')" for cat c
    using proportional_row_adds [OF assms(1) that(1), of xs ys cat] w(2) that
    by auto
  have "sum_list (map ?n topic_columns)
      = sum_list (map (\<lambda>c. if c = ''unclassified'' then ?flag else 0) topic_columns)"
    by (rule arg_cong [where f = sum_list], rule map_cong [OF refl]) (simp add: w(2))
  also have "\<dots> = ?flag"
    by (rule sum_list_single [OF distinct_topic_columns u])
  finally have "sum_list (map ?n topic_columns) = ?flag" .
  then have lnk: "specific_link_weight ?with = specific_link_weight ?without + ?flag"
    by (simp only: proportional_row_adds_links [OF assms(1)])
  have built: "\<exists>fig. ?with = Inr (Some fig)" if "cell r ''unclassified'' = 1"
    by (rule active_row_builds [OF assms(1) u that]) (simp add: w(1) that)
  from own other lnk built show ?thesis by (intro conjI allI ballI impI)
qed

theorem no_signal_flow_weight_witness:
  "fameswap_category (example_frame ! 2) = ''Gaming & Entertainment''
   \<and> cell (example_frame ! 2) ''political_content'' = 0
   \<and> cell (example_frame ! 2) ''unclassified'' = 1
   \<and> flow_weight (create_sankey_diagram example_frame True) ''Gaming & Entertainment'' ''Not at-risk'' = 1
   \<and> flow_weight (create_sankey_diagram example_frame True) ''Gaming & Entertainment'' ''Political'' = 0
   \<and> (\<exists>fig. create_sankey_diagram example_frame True = Inr (Some fig))"
proof -
  let ?r = "mk_row ''Gaming & Entertainment'' [''unclassified'']"
  let ?xs = "[mk_row ''Humor & Memes'' [''political_content'', ''news_content''],
      mk_row ''Humor & Memes'' [''cryptocurrency_content'']]"
  let ?ys = "[mk_row ''Beauty & Makeup'' [''political_content'']]"
  have u: "''unclassified'' \<in> set topic_columns" and p: "''political_content'' \<in> set topic_columns"
    by (simp_all add: topic_columns_def)
  have h1: "fameswap_category ?r \<noteq> ''Beauty & Makeup''" by (simp add: mk_row_def)
  have h2: "\<forall>c\<in>set topic_columns. c \<noteq> ''unclassified'' \<longrightarrow> cell ?r c = 0"
    by (simp add: mk_row_def)
  have e: "example_frame = ?xs @ ?r # ?ys" by (rule example_frame_split(2))
  have r2: "example_frame ! 2 = ?r" by (simp add: example_frame_def)
  have cat: "fameswap_category ?r = ''Gaming & Entertainment''"
    and a: "cell ?r ''political_content'' = 0" and b: "cell ?r ''unclassified'' = 1"
    by (simp_all add: mk_row_def)
  have w0: "flow_weight (create_sankey_diagram (?xs @ ?ys) True) ''Gaming & Entertainment''
      (dict_get TOPIC_LABELS ''unclassified'' []) = 0"
    "flow_weight (create_sankey_diagram (?xs @ ?ys) True) ''Gaming & Entertainment''
      (dict_get TOPIC_LABELS ''political_content'' []) = 0"
    unfolding flow_weight_proportional [OF u] flow_weight_proportional [OF p]
    by (simp_all add: filter_beauty_def) (simp_all add: mk_row_def)
  note inst = no_signal_flow_weight [OF h1 h2, of "?xs" "?ys", folded e]
  from inst have own: "flow_weight (create_sankey_diagram example_frame True) (fameswap_category ?r) ''Not at-risk''
         = flow_weight (create_sankey_diagram (?xs @ ?ys) True) (fameswap_category ?r) ''Not at-risk''
           + (if cell ?r ''unclassified'' = 1 then 1 else 0)"
    by (elim conjE)
  from inst have other: "\<forall>cat. \<forall>c\<in>set topic_columns. \<not> (cat = fameswap_category ?r \<and> c = ''unclassified'') \<longrightarrow>
          flow_weight (create_sankey_diagram example_frame True) cat (dict_get TOPIC_LABELS c [])
          = flow_weight (create_sankey_diagram (?xs @ ?ys) True) cat (dict_get TOPIC_LABELS c [])"
    by (elim conjE)
  from inst have built: "cell ?r ''unclassified'' = 1 \<longrightarrow>
          (\<exists>fig. create_sankey_diagram example_frame True = Inr (Some fig))"
    by (elim conjE)
  from own have w1: "flow_weight (create_sankey_diagram example_frame True)
      ''Gaming & Entertainment'' ''Not at-risk'' = 1"
    using w0(1) by (simp only: cat b topic_label_values) simp
  from other [rule_format, OF p, of "''Gaming & Entertainment''"]
  have w2: "flow_weight (create_sankey_diagram example_frame True)
      ''Gaming & Entertainment'' ''Political'' = 0"
    using w0(2) by (simp add: topic_label_values)
  from built b have bt: "\<exists>fig. create_sankey_diagram example_frame True = Inr (Some fig)" by simp
  from cat a b w1 w2 bt show ?thesis unfolding r2 by (intro conjI)
qed

end
